(* ===== verification/Prelude.thy ===== *)
theory Prelude
  imports Main "HOL-Library.AList" "HOL-Library.Char_ord" "HOL-Library.List_Lexorder"
begin

text \<open>
  Shared vocabulary of the development: the outcome of a Go call, Go maps, the string and path
  functions of the Go standard library that the sources use, and the generic lemmas on them.

  \<^item> A Go function that returns \<^verbatim>\<open>(T, error)\<close> becomes a function into
    \<open>'a res\<close>: \<open>Ok\<close> for a nil error, \<open>Err\<close> for an error and \<open>Panic\<close> for a run-time panic
    (a nil dereference, an index out of range, a write to a nil map). An error keeps the format
    string of its \<^verbatim>\<open>fmt.Errorf\<close> and the errors it reports or wraps; other
    interpolated arguments are left out.
  \<^item> A Go map is an association list with distinct keys (\<open>gomap\<close>). The order of the list stands
    for the iteration order of \<^verbatim>\<open>range\<close>, which Go leaves open: a theorem about all
    lists is a theorem about all iteration orders, and two maps are the same map when their
    \<open>map_of\<close> are equal.
  \<^item> An operation with side effects takes the world it acts on and returns it with its outcome.
\<close>

section \<open>Collections of facts\<close>

named_theorems go_string_simps \<open>defining equations of the string and path functions\<close>
named_theorems gomap_simps \<open>lookups, domains and distinctness of Go maps\<close>

section \<open>Outcomes and errors\<close>

datatype error =
    Errorf string "error list"  \<comment> \<open>\<^verbatim>\<open>fmt.Errorf\<close> with the errors among its arguments\<close>
  | Joined "error list"         \<comment> \<open>\<^verbatim>\<open>errors.Join\<close>\<close>
  | External string             \<comment> \<open>an error made by code outside the repository\<close>

datatype 'a res = Ok 'a | Err error | Panic string

definition is_ok :: "'a res \<Rightarrow> bool" where
  "is_ok r = (case r of Ok _ \<Rightarrow> True | _ \<Rightarrow> False)"

definition is_err :: "'a res \<Rightarrow> bool" where
  "is_err r = (case r of Err _ \<Rightarrow> True | _ \<Rightarrow> False)"

definition is_panic :: "'a res \<Rightarrow> bool" where
  "is_panic r = (case r of Panic _ \<Rightarrow> True | _ \<Rightarrow> False)"

text \<open>Continue with the value of a call that succeeded; an error or a panic passes through.\<close>

definition bind_res :: "'a res \<Rightarrow> ('a \<Rightarrow> 'b res) \<Rightarrow> 'b res" where
  "bind_res r f = (case r of Ok x \<Rightarrow> f x | Err e \<Rightarrow> Err e | Panic p \<Rightarrow> Panic p)"

text \<open>The same for a call with side effects on a world.\<close>

definition bind_io :: "'a res \<times> 'w \<Rightarrow> ('a \<Rightarrow> 'w \<Rightarrow> 'b res \<times> 'w) \<Rightarrow> 'b res \<times> 'w" where
  "bind_io rw f = (case rw of (Ok x, w) \<Rightarrow> f x w | (Err e, w) \<Rightarrow> (Err e, w)
     | (Panic p, w) \<Rightarrow> (Panic p, w))"

text \<open>Wrap the error of a failed call, as \<^verbatim>\<open>return fmt.Errorf(fmt, err)\<close> does.\<close>

definition wrap_err :: "string \<Rightarrow> 'a res \<Rightarrow> 'a res" where
  "wrap_err f r = (case r of Err e \<Rightarrow> Err (Errorf f [e]) | _ \<Rightarrow> r)"

section \<open>Go maps\<close>

type_synonym ('k, 'v) gomap = "('k \<times> 'v) list"

abbreviation mget :: "('k, 'v) gomap \<Rightarrow> 'k \<Rightarrow> 'v option" where
  "mget m k \<equiv> map_of m k"

abbreviation mput :: "('k, 'v) gomap \<Rightarrow> 'k \<Rightarrow> 'v \<Rightarrow> ('k, 'v) gomap" where
  "mput m k v \<equiv> AList.update k v m"

abbreviation mdel :: "('k, 'v) gomap \<Rightarrow> 'k \<Rightarrow> ('k, 'v) gomap" where
  "mdel m k \<equiv> AList.delete k m"

definition mkeys :: "('k, 'v) gomap \<Rightarrow> 'k set" where
  "mkeys m = fst ` set m"

definition mhas :: "('k, 'v) gomap \<Rightarrow> 'k \<Rightarrow> bool" where
  "mhas m k = (map_of m k \<noteq> None)"

definition wf_map :: "('k, 'v) gomap \<Rightarrow> bool" where
  "wf_map m = distinct (map fst m)"

text \<open>Store every entry of a map into another, as a loop over \<^verbatim>\<open>range\<close> does.\<close>

definition mput_all :: "('k, 'v) gomap \<Rightarrow> ('k, 'v) gomap \<Rightarrow> ('k, 'v) gomap" where
  "mput_all m new = foldl (\<lambda>acc (k, v). mput acc k v) m new"

text \<open>Delete every key of a list from a map.\<close>

definition mdel_all :: "('k, 'v) gomap \<Rightarrow> 'k list \<Rightarrow> ('k, 'v) gomap" where
  "mdel_all m ks = foldl mdel m ks"

section \<open>Strings of the standard library\<close>

definition HasPrefix :: "string \<Rightarrow> string \<Rightarrow> bool" where
  [go_string_simps]: "HasPrefix s p = (take (length p) s = p)"

definition TrimPrefix :: "string \<Rightarrow> string \<Rightarrow> string" where
  [go_string_simps]: "TrimPrefix s p = (if HasPrefix s p then drop (length p) s else s)"

text \<open>\<^verbatim>\<open>strings.ReplaceAll\<close> with an old string of one character, its only use in the sources.\<close>

definition ReplaceAll :: "string \<Rightarrow> char \<Rightarrow> string \<Rightarrow> string" where
  [go_string_simps]: "ReplaceAll s old new = concat (map (\<lambda>c. if c = old then new else [c]) s)"

text \<open>White space and upper case letters of the ASCII range; the texts the sources trim or fold are
  sysfs attributes and link type names.\<close>

definition is_space :: "char \<Rightarrow> bool" where
  [go_string_simps]: "is_space c = (c \<in> set [CHR '' '', CHR 0x09, CHR 0x0A, CHR 0x0B, CHR 0x0C, CHR 0x0D])"

definition TrimSpace :: "string \<Rightarrow> string" where
  [go_string_simps]: "TrimSpace s = rev (dropWhile is_space (rev (dropWhile is_space s)))"

definition lower_char :: "char \<Rightarrow> char" where
  [go_string_simps]: "lower_char c =
     (if 65 \<le> (of_char c :: nat) \<and> (of_char c :: nat) \<le> 90 then char_of ((of_char c :: nat) + 32) else c)"

definition ToLower :: "string \<Rightarrow> string" where
  [go_string_simps]: "ToLower s = map lower_char s"

definition upper_char :: "char \<Rightarrow> char" where
  [go_string_simps]: "upper_char c =
     (if 97 \<le> (of_char c :: nat) \<and> (of_char c :: nat) \<le> 122 then char_of ((of_char c :: nat) - 32) else c)"

definition ToUpper :: "string \<Rightarrow> string" where
  [go_string_simps]: "ToUpper s = map upper_char s"

fun Split :: "char \<Rightarrow> string \<Rightarrow> string list" where
  "Split sep [] = [[]]"
| "Split sep (c # cs) =
     (if c = sep then [] # Split sep cs
      else case Split sep cs of [] \<Rightarrow> [[c]] | w # ws \<Rightarrow> (c # w) # ws)"

fun Join :: "string list \<Rightarrow> string \<Rightarrow> string" where
  "Join [] sep = []"
| "Join [s] sep = s"
| "Join (s # t # ts) sep = s @ sep @ Join (t # ts) sep"

section \<open>Numbers in strings\<close>

definition digit_char :: "nat \<Rightarrow> char" where
  "digit_char d = char_of (48 + d)"

fun Itoa :: "nat \<Rightarrow> string" where
  "Itoa n = (if n < 10 then [digit_char n] else Itoa (n div 10) @ [digit_char (n mod 10)])"

declare Itoa.simps [simp del]

text \<open>The value of a digit in any base up to 16.\<close>

definition digit_val :: "char \<Rightarrow> nat option" where
  "digit_val c = (let n = (of_char c :: nat) in
     if 48 \<le> n \<and> n \<le> 57 then Some (n - 48)
     else if 97 \<le> n \<and> n \<le> 102 then Some (n - 87)
     else if 65 \<le> n \<and> n \<le> 70 then Some (n - 55) else None)"

fun parse_digits :: "nat \<Rightarrow> nat \<Rightarrow> string \<Rightarrow> nat option" where
  "parse_digits base acc [] = Some acc"
| "parse_digits base acc (c # cs) =
     (case digit_val c of None \<Rightarrow> None
      | Some d \<Rightarrow> if d < base then parse_digits base (acc * base + d) cs else None)"

text \<open>\<^verbatim>\<open>strconv.ParseInt(s, base, 64)\<close>: an optional sign, at least one digit, and a value of
  64-bit range; \<open>None\<close> is a parse or range error. \<^verbatim>\<open>strconv.Atoi\<close> is base 10.\<close>

definition in_int64 :: "int \<Rightarrow> bool" where
  "in_int64 i = (- (2 ^ 63) \<le> i \<and> i < 2 ^ 63)"

definition ParseInt :: "nat \<Rightarrow> string \<Rightarrow> int option" where
  "ParseInt base s =
     (let (neg, ds) = (case s of c # cs \<Rightarrow>
            if c = CHR ''-'' then (True, cs) else if c = CHR ''+'' then (False, cs) else (False, s)
          | [] \<Rightarrow> (False, []))
      in if ds = [] then None
         else case parse_digits base 0 ds of None \<Rightarrow> None
           | Some n \<Rightarrow> (let i = (if neg then - int n else int n) in if in_int64 i then Some i else None))"

definition Atoi :: "string \<Rightarrow> int option" where
  "Atoi s = ParseInt 10 s"

section \<open>Paths\<close>

abbreviation slash :: char where
  "slash \<equiv> CHR ''/''"

fun clean_comps :: "bool \<Rightarrow> string list \<Rightarrow> string list \<Rightarrow> string list" where
  "clean_comps rooted acc [] = rev acc"
| "clean_comps rooted acc (c # cs) =
     (if c = [] \<or> c = ''.'' then clean_comps rooted acc cs
      else if c = ''..'' then
        (case acc of
           [] \<Rightarrow> clean_comps rooted (if rooted then [] else [''..'']) cs
         | a # as \<Rightarrow> if a = ''..'' then clean_comps rooted (''..'' # acc) cs
                    else clean_comps rooted as cs)
      else clean_comps rooted (c # acc) cs)"

definition filepath_Clean :: "string \<Rightarrow> string" where
  "filepath_Clean p =
     (let rooted = (take 1 p = [slash]); cs = clean_comps rooted [] (Split slash p)
      in if rooted then slash # Join cs [slash] else if cs = [] then ''.'' else Join cs [slash])"

definition filepath_Join :: "string list \<Rightarrow> string" where
  "filepath_Join ps = (let qs = filter (\<lambda>p. p \<noteq> []) ps
     in if qs = [] then [] else filepath_Clean (Join qs [slash]))"

definition filepath_Base :: "string \<Rightarrow> string" where
  "filepath_Base p =
     (if p = [] then ''.''
      else let q = rev (dropWhile (\<lambda>c. c = slash) (rev p))
           in if q = [] then [slash] else rev (takeWhile (\<lambda>c. c \<noteq> slash) (rev q)))"

text \<open>\<^verbatim>\<open>filepath.Dir\<close>: everything up to the last slash, cleaned.\<close>

definition filepath_Dir :: "string \<Rightarrow> string" where
  "filepath_Dir p = filepath_Clean (rev (dropWhile (\<lambda>c. c \<noteq> slash) (rev p)))"

section \<open>Lemmas on outcomes\<close>

lemma is_ok_simps [simp]:
  "is_ok (Ok x)" "\<not> is_ok (Err e)" "\<not> is_ok (Panic p)"
  "is_err (Err e)" "\<not> is_err (Ok x)" "\<not> is_err (Panic p)"
  "is_panic (Panic p)" "\<not> is_panic (Ok x)" "\<not> is_panic (Err e)"
  by (simp_all add: is_ok_def is_err_def is_panic_def)

lemma is_ok_iff: "is_ok r \<longleftrightarrow> (\<exists>x. r = Ok x)"
  by (cases r) auto

lemma is_err_iff: "is_err r \<longleftrightarrow> (\<exists>e. r = Err e)"
  by (cases r) auto

lemma is_panic_iff: "is_panic r \<longleftrightarrow> (\<exists>p. r = Panic p)"
  by (cases r) auto

lemma bind_res_simps [simp]:
  "bind_res (Ok x) f = f x" "bind_res (Err e) f = Err e" "bind_res (Panic p) f = Panic p"
  by (simp_all add: bind_res_def)

lemma bind_res_eq_Ok [simp]: "bind_res r f = Ok y \<longleftrightarrow> (\<exists>x. r = Ok x \<and> f x = Ok y)"
  by (cases r) auto

lemma bind_io_simps [simp]:
  "bind_io (Ok x, w) f = f x w" "bind_io (Err e, w) f = (Err e, w)"
  "bind_io (Panic p, w) f = (Panic p, w)"
  by (simp_all add: bind_io_def)

lemma bind_io_eq_Ok:
  "bind_io rw f = (Ok y, w'') \<longleftrightarrow> (\<exists>x w'. rw = (Ok x, w') \<and> f x w' = (Ok y, w''))"
  by (cases rw; cases "fst rw") (auto simp: bind_io_def)

lemma bind_io_cases:
  assumes "bind_io rw f = (r, w'')"
  obtains (ok) x w' where "rw = (Ok x, w')" "f x w' = (r, w'')"
  | (err) e where "rw = (Err e, w'')" "r = Err e"
  | (panic) p where "rw = (Panic p, w'')" "r = Panic p"
  using assms by (cases rw; cases "fst rw") (auto simp: bind_io_def)

lemma wrap_err_simps [simp]:
  "wrap_err f (Ok x) = Ok x" "wrap_err f (Err e) = Err (Errorf f [e])"
  "wrap_err f (Panic p) = Panic p"
  by (simp_all add: wrap_err_def)

lemma wrap_err_eq_Ok [simp]: "wrap_err f r = Ok x \<longleftrightarrow> r = Ok x"
  by (cases r) auto

lemma wrap_err_eq_Panic [simp]: "wrap_err f r = Panic p \<longleftrightarrow> r = Panic p"
  by (cases r) auto

section \<open>Lemmas on Go maps\<close>

lemma map_of_mput [simp, gomap_simps]: "map_of (mput m k v) = (map_of m)(k \<mapsto> v)"
  by (rule update_conv')

lemma map_of_mdel [simp, gomap_simps]: "map_of (mdel m k) = (map_of m)(k := None)"
  by (rule delete_conv')

lemma mkeys_dom: "mkeys m = dom (map_of m)"
  by (simp add: mkeys_def dom_map_of_conv_image_fst)

lemma mkeys_iff: "k \<in> mkeys m \<longleftrightarrow> (\<exists>v. map_of m k = Some v)"
  by (simp add: mkeys_dom dom_def)

lemma mhas_iff: "mhas m k \<longleftrightarrow> k \<in> mkeys m"
  by (auto simp: mhas_def mkeys_dom)

lemma mkeys_simps [simp, gomap_simps]:
  "mkeys [] = {}" "mkeys ((k, v) # m) = insert k (mkeys m)"
  "mkeys (mput m k v) = insert k (mkeys m)" "mkeys (mdel m k) = mkeys m - {k}"
  by (auto simp: mkeys_dom)

lemma mkeys_eq_map_fst: "mkeys m = set (map fst m)"
  by (simp add: mkeys_def)

lemma wf_map_simps [simp, gomap_simps]:
  "wf_map []" "wf_map ((k, v) # m) \<longleftrightarrow> k \<notin> mkeys m \<and> wf_map m"
  by (simp_all add: wf_map_def mkeys_def)

lemma wf_map_mput [simp, gomap_simps]: "wf_map m \<Longrightarrow> wf_map (mput m k v)"
  by (simp add: wf_map_def distinct_update)

lemma wf_map_mdel [simp, gomap_simps]: "wf_map m \<Longrightarrow> wf_map (mdel m k)"
  by (simp add: wf_map_def distinct_delete)

lemma length_wf_map: "wf_map m \<Longrightarrow> length m = card (mkeys m)"
  by (metis distinct_card length_map mkeys_eq_map_fst wf_map_def)

lemma map_of_in_set: "wf_map m \<Longrightarrow> (k, v) \<in> set m \<longleftrightarrow> map_of m k = Some v"
  by (simp add: wf_map_def)

lemma mput_all_simps [simp]:
  "mput_all m [] = m" "mput_all m ((k, v) # new) = mput_all (mput m k v) new"
  by (simp_all add: mput_all_def)

lemma map_of_mput_all: "map_of (mput_all m new) = map_of m ++ map_of (rev new)"
  by (induction new arbitrary: m) (auto simp: map_add_def fun_eq_iff split: option.splits)

lemma map_of_rev: "wf_map m \<Longrightarrow> map_of (rev m) = map_of m"
  by (simp add: wf_map_def map_of_inject_set rev_map[symmetric])

lemma map_of_mput_all_wf [gomap_simps]: "wf_map new \<Longrightarrow> map_of (mput_all m new) = map_of m ++ map_of new"
  by (simp add: map_of_mput_all map_of_rev)

lemma wf_map_mput_all [simp, gomap_simps]: "wf_map m \<Longrightarrow> wf_map (mput_all m new)"
  by (induction new arbitrary: m) auto

lemma mdel_all_simps [simp]:
  "mdel_all m [] = m" "mdel_all m (k # ks) = mdel_all (mdel m k) ks"
  by (simp_all add: mdel_all_def)

lemma map_of_mdel_all [simp, gomap_simps]: "map_of (mdel_all m ks) = (map_of m) |` (- set ks)"
  by (induction ks arbitrary: m) (auto simp: restrict_map_def fun_eq_iff)

lemma wf_map_mdel_all [simp, gomap_simps]: "wf_map m \<Longrightarrow> wf_map (mdel_all m ks)"
  by (induction ks arbitrary: m) auto

section \<open>Lemmas on strings\<close>

lemma HasPrefix_append [simp]: "HasPrefix (p @ s) p"
  by (simp add: HasPrefix_def)

lemma HasPrefix_iff: "HasPrefix s p \<longleftrightarrow> (\<exists>t. s = p @ t)"
  by (metis HasPrefix_def HasPrefix_append append_take_drop_id)

lemma TrimPrefix_append [simp]: "TrimPrefix (p @ s) p = s"
  by (simp add: TrimPrefix_def)

lemma ReplaceAll_char: "ReplaceAll s old [new] = map (\<lambda>c. if c = old then new else c) s"
  by (induction s) (simp_all add: ReplaceAll_def)

lemma ToLower_idem [simp]: "ToLower (ToLower s) = ToLower s"
proof -
  have "lower_char (lower_char c) = lower_char c" for c
  proof (cases "65 \<le> (of_char c :: nat) \<and> (of_char c :: nat) \<le> 90")
    case True
    define n where "n = (of_char c :: nat)"
    have "(of_char (char_of (n + 32)) :: nat) = n + 32"
      using True by (simp add: n_def of_char_of)
    with True show ?thesis by (simp add: lower_char_def n_def)
  next
    case False
    then show ?thesis by (auto simp: lower_char_def)
  qed
  then show ?thesis by (simp add: ToLower_def)
qed

lemma digit_char_inj: "d < 10 \<Longrightarrow> e < 10 \<Longrightarrow> digit_char d = digit_char e \<Longrightarrow> d = e"
proof -
  assume "d < 10" "e < 10" and eq: "digit_char d = digit_char e"
  then have "(48 + d) mod 256 = (48 + e) mod 256"
    by (metis digit_char_def of_char_of)
  with \<open>d < 10\<close> \<open>e < 10\<close> show "d = e" by simp
qed

lemma Split_ne [simp]: "Split sep s \<noteq> []"
  by (induction s) (auto split: list.split)

lemma Split_no_sep: "sep \<notin> set s \<Longrightarrow> Split sep s = [s]"
  by (induction s) auto

lemma Split_append: "Split sep (a @ sep # b) = Split sep a @ Split sep b"
  by (induction a) (auto split: list.split)

text \<open>A path component: not empty, without slash, and not a reference to the same or the parent
  directory.\<close>

definition is_name :: "string \<Rightarrow> bool" where
  "is_name s \<longleftrightarrow> s \<noteq> [] \<and> slash \<notin> set s \<and> s \<noteq> ''.'' \<and> s \<noteq> ''..''"

lemma Split_name: "is_name s \<Longrightarrow> Split slash s = [s]"
  by (simp add: is_name_def Split_no_sep)

lemma clean_comps_names:
  "\<forall>c \<in> set cs. is_name c \<Longrightarrow> clean_comps rooted acc cs = rev acc @ cs"
  by (induction cs arbitrary: acc) (auto simp: is_name_def)

text \<open>A rooted path of names is clean.\<close>

definition abs_path :: "string list \<Rightarrow> string" where
  "abs_path cs = slash # Join cs [slash]"

lemma Join_snoc: "cs \<noteq> [] \<Longrightarrow> Join (cs @ [c]) sep = Join cs sep @ sep @ c"
  by (induction cs sep rule: Join.induct) auto

lemma Split_Join:
  assumes "cs \<noteq> []" "\<forall>c \<in> set cs. is_name c" shows "Split slash (Join cs [slash]) = cs"
  using assms
proof (induction cs rule: rev_induct)
  case (snoc c cs)
  then show ?case
    by (cases "cs = []") (simp_all add: Join_snoc Split_append Split_name)
qed simp

lemma Split_Join_sep:
  assumes "cs \<noteq> []" "\<forall>c \<in> set cs. sep \<notin> set c" shows "Split sep (Join cs [sep]) = cs"
  using assms
proof (induction cs rule: rev_induct)
  case (snoc c cs)
  then show ?case
    by (cases "cs = []") (simp_all add: Join_snoc Split_append Split_no_sep)
qed simp

lemma Join_abs_path:
  assumes "cs \<noteq> []" "\<forall>c \<in> set cs. is_name c" "is_name c"
  shows "filepath_Join [abs_path cs, c] = abs_path (cs @ [c])"
proof -
  have sp: "Split slash (slash # Join cs [slash] @ slash # c) = [] # cs @ [c]"
    using assms Split_append[of slash "Join cs [slash]" c] by (simp add: Split_Join Split_name)
  have "clean_comps True [] (cs @ [c]) = cs @ [c]" using assms by (simp add: clean_comps_names)
  then have "filepath_Clean (slash # Join cs [slash] @ slash # c) = abs_path (cs @ [c])"
    using sp by (simp add: filepath_Clean_def abs_path_def Let_def)
  then show ?thesis using assms(3) by (simp add: filepath_Join_def abs_path_def is_name_def)
qed

lemma filepath_Base_abs:
  assumes "is_name c" shows "filepath_Base (p @ slash # c) = c"
proof -
  have ne: "c \<noteq> []" and ns: "slash \<notin> set c" using assms by (auto simp: is_name_def)
  then obtain x xs where "rev c = x # xs" "x \<noteq> slash"
    by (metis list.exhaust list.set_intros(1) rev_is_Nil_conv set_rev)
  then have drop: "dropWhile (\<lambda>c. c = slash) (rev (p @ slash # c)) = rev (p @ slash # c)" by simp
  have "takeWhile (\<lambda>c. c \<noteq> slash) (rev c @ slash # rev p) = rev c"
    using ns by (simp add: takeWhile_append)
  then show ?thesis using drop by (simp add: filepath_Base_def Let_def)
qed

lemma of_digit_char:
  assumes "d < 10" shows "(of_char (digit_char d) :: nat) = 48 + d"
proof -
  have "(of_char (digit_char d) :: nat) = (48 + d) mod 256" by (metis digit_char_def of_char_of)
  also have "\<dots> = 48 + d" using assms by simp
  finally show ?thesis .
qed

lemma Itoa_value: "foldl (\<lambda>a c. a * 10 + ((of_char c :: nat) - 48)) 0 (Itoa n) = n"
proof (induction n rule: Itoa.induct)
  case (1 n)
  then show ?case by (cases "n < 10") (simp_all add: Itoa.simps[of n] of_digit_char)
qed

lemma Itoa_inj: "Itoa m = Itoa n \<longleftrightarrow> m = n"
  by (metis Itoa_value)

section \<open>State machines\<close>

text \<open>What a step keeps, a run keeps.\<close>

locale machine =
  fixes step :: "'s \<Rightarrow> 's \<Rightarrow> bool" and inv :: "'s \<Rightarrow> bool"
  assumes inv_step: "step s s' \<Longrightarrow> inv s \<Longrightarrow> inv s'"
begin

lemma inv_run: "step\<^sup>*\<^sup>* s s' \<Longrightarrow> inv s \<Longrightarrow> inv s'"
  by (induction rule: rtranclp_induct) (auto intro: inv_step)

end

text \<open>Where some step always comes closer to a goal, some run reaches it.\<close>

locale progress =
  fixes step :: "'s \<Rightarrow> 's \<Rightarrow> bool" and ready :: "'s \<Rightarrow> bool" and goal :: "'s \<Rightarrow> bool" and distance :: "'s \<Rightarrow> nat"
  assumes advance: "ready s \<Longrightarrow> \<not> goal s \<Longrightarrow> \<exists>s'. step s s' \<and> ready s' \<and> distance s' < distance s"
begin

lemma reaches: "ready s \<Longrightarrow> \<exists>s'. step\<^sup>*\<^sup>* s s' \<and> ready s' \<and> goal s'"
proof (induction "distance s" arbitrary: s rule: less_induct)
  case less
  show ?case
  proof (cases "goal s")
    case False
    then obtain t where t: "step s t" "ready t" "distance t < distance s" using advance less.prems by blast
    then obtain s' where "step\<^sup>*\<^sup>* t s'" "ready s'" "goal s'" using less.hyps by blast
    then show ?thesis using t(1) by (blast intro: converse_rtranclp_into_rtranclp)
  qed (use less.prems in blast)
qed

end

end
