(* ===== verification/Api.thy ===== *)
theory Api
  imports Prelude
begin

text \<open>
  The data the components exchange: the constants of \<^verbatim>\<open>pkg/consts/consts.go\<close>, the VF configuration
  of \<^verbatim>\<open>pkg/api/virtualfunction/v1alpha1\<close>, the policy objects of
  \<^verbatim>\<open>pkg/api/sriovdra/v1alpha1\<close>, the prepared devices of \<^verbatim>\<open>pkg/types/types.go\<close>, and the fields the
  driver reads or writes of the Kubernetes, DRA and CDI objects. A pointer to a scalar is an
  \<open>option\<close>; fields of the Kubernetes objects that no line of the sources touches are left out.
\<close>

section \<open>Constants (pkg/consts/consts.go)\<close>

definition DriverName :: string where
  "DriverName = ''sriovnetwork.k8snetworkplumbingwg.io''"

definition MultusAttributePrefix :: string where
  "MultusAttributePrefix = ''k8s.cni.cncf.io''"

text \<open>The prefix of the standard attributes is a constant of the upstream
  \<^verbatim>\<open>deviceattribute\<close> package; its value is the one the README documents.\<close>

definition StandardDeviceAttributePrefix :: string where
  "StandardDeviceAttributePrefix = ''resource.kubernetes.io/''"

definition DraNetCompatPrefix :: string where
  "DraNetCompatPrefix = ''dra.net''"

type_synonym QualifiedName = string

definition AttributePciAddress :: QualifiedName where
  "AttributePciAddress = DriverName @ ''/pciAddress''"
definition AttributePFName :: QualifiedName where
  "AttributePFName = DriverName @ ''/PFName''"
definition AttributeEswitchMode :: QualifiedName where
  "AttributeEswitchMode = DriverName @ ''/EswitchMode''"
definition AttributeVendorID :: QualifiedName where
  "AttributeVendorID = DriverName @ ''/vendor''"
definition AttributeDeviceID :: QualifiedName where
  "AttributeDeviceID = DriverName @ ''/deviceID''"
definition AttributePFDeviceID :: QualifiedName where
  "AttributePFDeviceID = DriverName @ ''/pfDeviceID''"
definition AttributeVFID :: QualifiedName where
  "AttributeVFID = DriverName @ ''/vfID''"
definition AttributeResourceName :: QualifiedName where
  "AttributeResourceName = DriverName @ ''/resourceName''"
definition AttributeLinkType :: QualifiedName where
  "AttributeLinkType = DriverName @ ''/linkType''"
definition AttributeRDMACapable :: QualifiedName where
  "AttributeRDMACapable = DriverName @ ''/rdmaCapable''"
definition AttributeInterfaceName :: QualifiedName where
  "AttributeInterfaceName = DriverName @ ''/interfaceName''"
definition AttributeMultusDeviceID :: QualifiedName where
  "AttributeMultusDeviceID = MultusAttributePrefix @ ''/deviceID''"
definition AttributeMultusResourceName :: QualifiedName where
  "AttributeMultusResourceName = MultusAttributePrefix @ ''/resourceName''"
definition AttributeStandardPciAddress :: QualifiedName where
  "AttributeStandardPciAddress = StandardDeviceAttributePrefix @ ''pciBusID''"
definition AttributePfPciAddress :: QualifiedName where
  "AttributePfPciAddress = DriverName @ ''/pfPciAddress''"
definition AttributeNUMANode :: QualifiedName where
  "AttributeNUMANode = DraNetCompatPrefix @ ''/numaNode''"
definition AttributePCIeRoot :: QualifiedName where
  "AttributePCIeRoot = StandardDeviceAttributePrefix @ ''pcieRoot''"

lemmas attribute_defs =
  AttributePciAddress_def AttributePFName_def AttributeEswitchMode_def AttributeVendorID_def
  AttributeDeviceID_def AttributePFDeviceID_def AttributeVFID_def AttributeResourceName_def
  AttributeLinkType_def AttributeRDMACapable_def AttributeInterfaceName_def
  AttributeMultusDeviceID_def AttributeMultusResourceName_def AttributeStandardPciAddress_def
  AttributePfPciAddress_def AttributeNUMANode_def AttributePCIeRoot_def
  DriverName_def MultusAttributePrefix_def StandardDeviceAttributePrefix_def DraNetCompatPrefix_def

definition NetClass :: int where
  "NetClass = 2"

definition SysBusPci :: string where
  "SysBusPci = ''/sys/bus/pci/devices''"

definition EswitchModeLegacy :: string where
  "EswitchModeLegacy = ''legacy''"

definition LinkTypeEth :: string where
  "LinkTypeEth = ''eth''"
definition LinkTypeEthernet :: string where
  "LinkTypeEthernet = ''ethernet''"
definition LinkTypeIB :: string where
  "LinkTypeIB = ''ib''"
definition LinkTypeInfiniband :: string where
  "LinkTypeInfiniband = ''infiniband''"
definition LinkTypeUnknown :: string where
  "LinkTypeUnknown = ''unknown''"

lemmas link_type_defs =
  LinkTypeEth_def LinkTypeEthernet_def LinkTypeIB_def LinkTypeInfiniband_def LinkTypeUnknown_def

text \<open>The keys of the set \<^verbatim>\<open>ReservedAttributes\<close>; a lookup of any other key gives false.\<close>

definition ReservedAttributes :: "QualifiedName list" where
  "ReservedAttributes =
     [AttributeVendorID, AttributeDeviceID, AttributePFDeviceID, AttributePciAddress,
      AttributeMultusDeviceID, AttributePFName, AttributeEswitchMode, AttributeVFID,
      AttributePCIeRoot, AttributePfPciAddress, AttributeStandardPciAddress, AttributeLinkType,
      AttributeRDMACapable, AttributeNUMANode]"

definition is_reserved :: "QualifiedName \<Rightarrow> bool" where
  "is_reserved k = List.member ReservedAttributes k"

definition ConfigurationModeStandalone :: string where
  "ConfigurationModeStandalone = ''STANDALONE''"
definition ConfigurationModeMultus :: string where
  "ConfigurationModeMultus = ''MULTUS''"

text \<open>The field of \<^verbatim>\<open>Backoff\<close> that bounds the number of attempts; the delays are not modelled.\<close>

definition BackoffSteps :: nat where
  "BackoffSteps = 5"

section \<open>The VF configuration (pkg/api/virtualfunction/v1alpha1)\<close>

record VfConfig =
  vf_APIVersion :: string
  vf_Kind :: string
  vf_Driver :: string
  vf_AddVhostMount :: bool
  vf_IfName :: string
  vf_NetAttachDefName :: string
  vf_NetAttachDefNamespace :: string

definition DefaultVfConfig :: VfConfig where
  "DefaultVfConfig = \<lparr>vf_APIVersion = DriverName @ ''/'' @ ''v1alpha1'', vf_Kind = ''VfConfig'',
     vf_Driver = [], vf_AddVhostMount = False, vf_IfName = [], vf_NetAttachDefName = [],
     vf_NetAttachDefNamespace = []\<rparr>"

definition Override :: "VfConfig \<Rightarrow> VfConfig \<Rightarrow> VfConfig" where
  "Override c other =
     (let c1 = (if vf_Driver other \<noteq> [] then c\<lparr>vf_Driver := vf_Driver other\<rparr> else c);
          c2 = (if vf_IfName other \<noteq> [] then c1\<lparr>vf_IfName := vf_IfName other\<rparr> else c1)
      in if vf_NetAttachDefName other \<noteq> []
         then c2\<lparr>vf_NetAttachDefName := vf_NetAttachDefName other\<rparr> else c2)"

definition Normalize :: "VfConfig \<Rightarrow> VfConfig" where
  "Normalize c = c"

definition Validate :: "VfConfig \<Rightarrow> unit res" where
  "Validate c =
     (if vf_Driver c = [] then Err (Errorf ''no driver set'' [])
      else if vf_NetAttachDefName c = [] then Err (Errorf ''no net attach def name set'' [])
      else Ok ())"

section \<open>Devices and their attributes (resource.k8s.io/v1)\<close>

record DeviceAttribute =
  IntValue :: "int option"
  BoolValue :: "bool option"
  StringValue :: "string option"
  VersionValue :: "string option"

abbreviation no_value :: DeviceAttribute where
  "no_value \<equiv> \<lparr>IntValue = None, BoolValue = None, StringValue = None, VersionValue = None\<rparr>"

definition str_attr :: "string \<Rightarrow> DeviceAttribute" where
  "str_attr s = no_value\<lparr>StringValue := Some s\<rparr>"
definition int_attr :: "int \<Rightarrow> DeviceAttribute" where
  "int_attr i = no_value\<lparr>IntValue := Some i\<rparr>"
definition bool_attr :: "bool \<Rightarrow> DeviceAttribute" where
  "bool_attr b = no_value\<lparr>BoolValue := Some b\<rparr>"

type_synonym attributes = "(QualifiedName, DeviceAttribute) gomap"

record Device =
  dev_Name :: string
  dev_Attributes :: attributes

type_synonym AllocatableDevices = "(string, Device) gomap"

section \<open>Claims (resource.k8s.io/v1)\<close>

type_synonym UID = string

record NetworkDeviceData =
  nd_InterfaceName :: string
  nd_IPs :: "string list"
  nd_HardwareAddress :: string

record AllocatedDeviceStatus =
  ads_Driver :: string
  ads_Pool :: string
  ads_Device :: string
  ads_ShareID :: "string option"
  ads_Data :: "string option"
  ads_NetworkData :: "NetworkDeviceData option"

record DeviceRequestAllocationResult =
  r_Request :: string
  r_Driver :: string
  r_Pool :: string
  r_Device :: string
  r_ShareID :: "string option"

datatype AllocationConfigSource = FromClass | FromClaim | OtherSource string

record OpaqueDeviceConfiguration =
  op_Driver :: string
  op_Parameters :: string

record DeviceAllocationConfiguration =
  dac_Source :: AllocationConfigSource
  dac_Requests :: "string list"
  dac_Opaque :: "OpaqueDeviceConfiguration option"

record AllocationResult =
  al_Results :: "DeviceRequestAllocationResult list"
  al_Config :: "DeviceAllocationConfiguration list"

text \<open>The resource version is the API server's; the driver only carries it from a read to a write.\<close>

record ResourceClaim =
  claim_ResourceVersion :: nat
  claim_Name :: string
  claim_Namespace :: string
  claim_UID :: UID
  claim_ReservedFor :: "UID list"
  claim_Allocation :: "AllocationResult option"
  claim_Devices :: "AllocatedDeviceStatus list"

record NamespacedObject =
  no_Name :: string
  no_Namespace :: string
  no_UID :: UID

section \<open>Prepared devices (pkg/types/types.go)\<close>

record DeviceNode =
  dn_Path :: string
  dn_HostPath :: string
  dn_Type :: string

record ContainerEdits =
  ce_Env :: "string list"
  ce_DeviceNodes :: "DeviceNode list"

record PreparedDevice =
  pd_RequestNames :: "string list"
  pd_PoolName :: string
  pd_DeviceName :: string
  pd_CdiDeviceIds :: "string list"
  pd_Claim :: NamespacedObject
  pd_ContainerEdits :: ContainerEdits
  pd_Config :: "VfConfig option"
  pd_IfName :: string
  pd_PciAddress :: string
  pd_MultusDeviceID :: string
  pd_MultusResourceName :: string
  pd_DeviceAttributes :: "(string, DeviceAttribute) gomap option"
  pd_NetworkDeviceData :: "NetworkDeviceData option"
  pd_PodUID :: string
  pd_NetAttachDefConfig :: string
  pd_OriginalDriver :: string

text \<open>A slice of pointers: \<open>None\<close> is a nil entry.\<close>

type_synonym PreparedDevices = "PreparedDevice option list"

record KubeletDevice =
  kd_Requests :: "string list"
  kd_PoolName :: string
  kd_DeviceName :: string
  kd_CDIDeviceIDs :: "string list"
  kd_Attributes :: "(string, DeviceAttribute) gomap option"
  kd_NetworkData :: "NetworkDeviceData option"

definition ToKubeletPluginDevice :: "PreparedDevice \<Rightarrow> NetworkDeviceData option \<Rightarrow> KubeletDevice" where
  "ToKubeletPluginDevice p networkData =
     \<lparr>kd_Requests = pd_RequestNames p, kd_PoolName = pd_PoolName p,
      kd_DeviceName = pd_DeviceName p, kd_CDIDeviceIDs = pd_CdiDeviceIds p,
      kd_Attributes = pd_DeviceAttributes p,
      kd_NetworkData = (if networkData = None then pd_NetworkDeviceData p else networkData)\<rparr>"

definition SetNetworkDeviceData :: "PreparedDevice \<Rightarrow> NetworkDeviceData option \<Rightarrow> PreparedDevice" where
  "SetNetworkDeviceData p networkData = p\<lparr>pd_NetworkDeviceData := networkData\<rparr>"

section \<open>CNI network configuration text (pkg/types/types.go)\<close>

text \<open>The values of \<^verbatim>\<open>encoding/json\<close>; a number keeps its literal. The translation between text and
  values is an argument of the definitions that use it.\<close>

datatype json =
    JNull
  | JBool bool
  | JNum string
  | JStr string
  | JArr "json list"
  | JObj "(string \<times> json) list"

record json_codec =
  json_Unmarshal :: "string \<Rightarrow> json res"
  json_Marshal :: "json \<Rightarrow> string"

text \<open>Decoding into a variable of type \<^verbatim>\<open>map[string]interface{}\<close>: an object fills the map, JSON
  \<^verbatim>\<open>null\<close> leaves the map nil (\<open>None\<close>) without an error, every other value is a type error.\<close>

definition unmarshal_map :: "json_codec \<Rightarrow> string \<Rightarrow> (string, json) gomap option res" where
  "unmarshal_map jc s = bind_res (json_Unmarshal jc s) (\<lambda>v.
     case v of JObj m \<Rightarrow> Ok (Some m) | JNull \<Rightarrow> Ok None
     | _ \<Rightarrow> Err (External ''json: cannot unmarshal into Go value of type map[string]interface {}''))"

definition AddDeviceIDToNetConf :: "json_codec \<Rightarrow> string \<Rightarrow> string \<Rightarrow> string res" where
  "AddDeviceIDToNetConf jc originalConfig deviceID =
     bind_res (wrap_err ''failed to unmarshal existing config: %w'' (unmarshal_map jc originalConfig))
       (\<lambda>rawConfig. case rawConfig of
          None \<Rightarrow> Panic ''assignment to entry in nil map''
        | Some m \<Rightarrow> Ok (json_Marshal jc (JObj (mput m ''deviceID'' (JStr deviceID)))))"

section \<open>Policies (pkg/api/sriovdra/v1alpha1/api.go)\<close>

record ResourceFilter =
  rf_Vendors :: "string list"
  rf_Devices :: "string list"
  rf_PciAddresses :: "string list"
  rf_PfNames :: "string list"
  rf_PfPciAddresses :: "string list"
  rf_Drivers :: "string list"
  rf_LinkType :: string

record LabelSelectorRequirement =
  lsr_Key :: string
  lsr_Operator :: string
  lsr_Values :: "string list"

record LabelSelector =
  ls_MatchLabels :: "(string, string) gomap"
  ls_MatchExpressions :: "LabelSelectorRequirement list"

record NodeSelectorTerm =
  nst_MatchExpressions :: "LabelSelectorRequirement list"
  nst_MatchFields :: "LabelSelectorRequirement list"

record Config =
  cfg_DeviceAttributesSelector :: "LabelSelector option"
  cfg_ResourceFilters :: "ResourceFilter list"

record SriovResourcePolicy =
  pol_Name :: string
  pol_Namespace :: string
  pol_NodeSelector :: "NodeSelectorTerm list option"
  pol_Configs :: "Config list"

record DeviceAttributes =
  da_Name :: string
  da_Namespace :: string
  da_Labels :: "(string, string) gomap"
  da_Attributes :: attributes

definition NormalizeLinkType :: "string \<Rightarrow> string" where
  "NormalizeLinkType val =
     (let l = ToLower val in
      if l = LinkTypeEth \<or> l = LinkTypeEthernet then LinkTypeEthernet
      else if l = LinkTypeIB \<or> l = LinkTypeInfiniband then LinkTypeInfiniband
      else l)"

end
