(* ===== verification/OpaqueConfig.thy ===== *)
theory OpaqueConfig
  imports Api
begin

text \<open>
  The opaque device configurations of a claim (\<^verbatim>\<open>pkg/devicestate/statehelpers.go\<close>): their split into
  class and claim configurations, the decoding, and the map from requests to the merged \<^verbatim>\<open>VfConfig\<close>.
  The decoder of \<^verbatim>\<open>k8s.io/apimachinery\<close> is an argument. A specification by lists follows: what a
  request's configuration is, field by field.
\<close>

section \<open>Definitions\<close>

text \<open>What \<^verbatim>\<open>runtime.Decode\<close> may return: the asserted type or another object.\<close>

datatype decoded = DecodedVf VfConfig | DecodedOther

type_synonym decoder = "string \<Rightarrow> error + decoded"

fun split_sources ::
  "DeviceAllocationConfiguration list \<Rightarrow> DeviceAllocationConfiguration list \<Rightarrow>
   DeviceAllocationConfiguration list \<Rightarrow> DeviceAllocationConfiguration list res" where
  "split_sources classConfigs claimConfigs [] = Ok (classConfigs @ claimConfigs)"
| "split_sources classConfigs claimConfigs (config # configs) =
     (case dac_Source config of
        FromClass \<Rightarrow> split_sources (classConfigs @ [config]) claimConfigs configs
      | FromClaim \<Rightarrow> split_sources classConfigs (claimConfigs @ [config]) configs
      | OtherSource _ \<Rightarrow> Err (Errorf ''invalid config source: %v'' []))"

text \<open>The inner loop over the requests of one decoded configuration.\<close>

fun override_requests ::
  "VfConfig \<Rightarrow> (string, VfConfig) gomap \<Rightarrow> string list \<Rightarrow> (string, VfConfig) gomap" where
  "override_requests vfConfig resultConfigs [] = resultConfigs"
| "override_requests vfConfig resultConfigs (request # requests) =
     (let resultConfig = (case mget resultConfigs request of None \<Rightarrow> DefaultVfConfig | Some c \<Rightarrow> c)
      in override_requests vfConfig (mput resultConfigs request (Override resultConfig vfConfig)) requests)"

fun decode_configs ::
  "decoder \<Rightarrow> (string, VfConfig) gomap \<Rightarrow> DeviceAllocationConfiguration list \<Rightarrow> (string, VfConfig) gomap res" where
  "decode_configs decode resultConfigs [] = Ok resultConfigs"
| "decode_configs decode resultConfigs (config # configs) =
     (case dac_Opaque config of
        None \<Rightarrow> Err (Errorf ''only opaque parameters are supported by this driver'' [])
      | Some opaque \<Rightarrow>
          if op_Driver opaque \<noteq> DriverName then decode_configs decode resultConfigs configs
          else case decode (op_Parameters opaque) of
            Inl err \<Rightarrow> Err (Errorf ''error decoding config parameters: %w'' [err])
          | Inr DecodedOther \<Rightarrow> Err (Errorf ''decoded config is not a VfConfig'' [])
          | Inr (DecodedVf vfConfig) \<Rightarrow>
              let requests = (if dac_Requests config = [] then [[]] else dac_Requests config)
              in decode_configs decode (override_requests vfConfig resultConfigs requests) configs)"

definition getMapOfOpaqueDeviceConfigForDevice ::
  "decoder \<Rightarrow> DeviceAllocationConfiguration list \<Rightarrow> (string, VfConfig) gomap res" where
  "getMapOfOpaqueDeviceConfigForDevice decode possibleConfigs =
     bind_res (split_sources [] [] possibleConfigs) (decode_configs decode [])"

section \<open>Specification\<close>

text \<open>The candidates in order of precedence, lowest first.\<close>

definition candidates :: "DeviceAllocationConfiguration list \<Rightarrow> DeviceAllocationConfiguration list" where
  "candidates cs = filter (\<lambda>c. dac_Source c = FromClass) cs @ filter (\<lambda>c. dac_Source c = FromClaim) cs"

text \<open>The request names a configuration is stored under; without request names it is stored under the empty name.\<close>

definition targets :: "DeviceAllocationConfiguration \<Rightarrow> string list" where
  "targets c = (if dac_Requests c = [] then [[]] else dac_Requests c)"

definition vf_of :: "decoder \<Rightarrow> DeviceAllocationConfiguration \<Rightarrow> VfConfig option" where
  "vf_of decode c = (case dac_Opaque c of None \<Rightarrow> None
     | Some opaque \<Rightarrow> if op_Driver opaque \<noteq> DriverName then None
         else case decode (op_Parameters opaque) of Inr (DecodedVf v) \<Rightarrow> Some v | _ \<Rightarrow> None)"

text \<open>The decoded configurations for one name, lowest precedence first.\<close>

definition relevant :: "decoder \<Rightarrow> string \<Rightarrow> DeviceAllocationConfiguration list \<Rightarrow> VfConfig list" where
  "relevant decode r cs = concat (map (\<lambda>c. if r \<in> set (targets c)
     then (case vf_of decode c of None \<Rightarrow> [] | Some v \<Rightarrow> [v]) else []) cs)"

text \<open>The highest-precedence configuration that sets a field decides it.\<close>

definition last_set :: "(VfConfig \<Rightarrow> string) \<Rightarrow> VfConfig list \<Rightarrow> string" where
  "last_set field vs = (case filter (\<lambda>v. field v \<noteq> []) (rev vs) of [] \<Rightarrow> [] | v # _ \<Rightarrow> field v)"

text \<open>A configuration the driver accepts: opaque, and decodable when it is this driver's.\<close>

definition well_formed_config :: "decoder \<Rightarrow> DeviceAllocationConfiguration \<Rightarrow> bool" where
  "well_formed_config decode c = (case dac_Opaque c of None \<Rightarrow> False
     | Some opaque \<Rightarrow> op_Driver opaque \<noteq> DriverName \<or> (\<exists>v. decode (op_Parameters opaque) = Inr (DecodedVf v)))"

section \<open>Lemmas\<close>

lemma split_sources_total:
  "(\<exists>out. split_sources cl cm cs = Ok out) \<and> list_all (\<lambda>c. dac_Source c \<in> {FromClass, FromClaim}) cs \<or>
   (\<exists>e. split_sources cl cm cs = Err e) \<and> \<not> list_all (\<lambda>c. dac_Source c \<in> {FromClass, FromClaim}) cs"
  by (induction cl cm cs rule: split_sources.induct) (auto split: AllocationConfigSource.splits)

lemma decode_configs_wf:
  "well_formed_config decode c \<Longrightarrow> decode_configs decode m (c # cs) =
     decode_configs decode (case vf_of decode c of None \<Rightarrow> m | Some v \<Rightarrow> override_requests v m (targets c)) cs"
  by (auto simp: well_formed_config_def vf_of_def targets_def Let_def split: option.splits)

lemma decode_configs_malformed:
  "\<not> well_formed_config decode c \<Longrightarrow> \<exists>e. decode_configs decode m (c # cs) = Err e"
  by (auto simp: well_formed_config_def split: option.splits sum.splits decoded.splits)

lemma decode_configs_total:
  "(\<exists>m'. decode_configs decode m cs = Ok m') \<and> list_all (well_formed_config decode) cs \<or>
   (\<exists>e. decode_configs decode m cs = Err e) \<and> \<not> list_all (well_formed_config decode) cs"
proof (induction cs arbitrary: m)
  case Nil
  show ?case by simp
next
  case (Cons c cs)
  show ?case
  proof (cases "well_formed_config decode c")
    case True
    then show ?thesis using Cons by (simp add: decode_configs_wf del: decode_configs.simps)
  next
    case False
    then show ?thesis using decode_configs_malformed[OF False] by simp
  qed
qed

lemma split_sources_ok:
  "split_sources cl cm cs = Ok out \<Longrightarrow>
   out = cl @ filter (\<lambda>c. dac_Source c = FromClass) cs @ cm @ filter (\<lambda>c. dac_Source c = FromClaim) cs
   \<and> (\<forall>c \<in> set cs. dac_Source c = FromClass \<or> dac_Source c = FromClaim)"
  by (induction cl cm cs rule: split_sources.induct) (auto split: AllocationConfigSource.splits)

lemma split_sources_Nil_ok: "split_sources [] [] cs = Ok out \<Longrightarrow> out = candidates cs"
  by (drule split_sources_ok) (simp add: candidates_def)

lemma Override_fields [simp]:
  "vf_Driver (Override c v) = (if vf_Driver v = [] then vf_Driver c else vf_Driver v)"
  "vf_IfName (Override c v) = (if vf_IfName v = [] then vf_IfName c else vf_IfName v)"
  "vf_NetAttachDefName (Override c v) =
     (if vf_NetAttachDefName v = [] then vf_NetAttachDefName c else vf_NetAttachDefName v)"
  "vf_AddVhostMount (Override c v) = vf_AddVhostMount c"
  "vf_NetAttachDefNamespace (Override c v) = vf_NetAttachDefNamespace c"
  "vf_APIVersion (Override c v) = vf_APIVersion c" "vf_Kind (Override c v) = vf_Kind c"
  by (simp_all add: Override_def Let_def)

lemma Override_idem [simp]: "Override (Override c v) v = Override c v"
  by (simp add: Override_def Let_def)

lemma override_requests_lookup:
  "map_of (override_requests v m rs) r =
   (if r \<in> set rs then Some (Override (case map_of m r of None \<Rightarrow> DefaultVfConfig | Some c \<Rightarrow> c) v)
    else map_of m r)"
  by (induction v m rs rule: override_requests.induct) (auto simp: Let_def)

lemma relevant_Nil [simp]: "relevant decode r [] = []"
  by (simp add: relevant_def)

lemma relevant_Cons:
  "relevant decode r (c # cs) =
   (if r \<in> set (targets c) then (case vf_of decode c of None \<Rightarrow> [] | Some v \<Rightarrow> [v]) else [])
    @ relevant decode r cs"
  by (simp add: relevant_def)

lemma decode_configs_step:
  assumes "decode_configs decode m (c # cs) = Ok m'"
  shows "decode_configs decode (case vf_of decode c of None \<Rightarrow> m | Some v \<Rightarrow> override_requests v m (targets c)) cs = Ok m'"
  using assms decode_configs_malformed[of decode c m cs] decode_configs_wf[of decode c m cs]
  by (cases "well_formed_config decode c") (auto simp del: decode_configs.simps)

lemma decode_configs_lookup:
  "decode_configs decode m cs = Ok m' \<Longrightarrow>
   map_of m' r = (case map_of m r of
      None \<Rightarrow> (if relevant decode r cs = [] then None
               else Some (foldl Override DefaultVfConfig (relevant decode r cs)))
    | Some c \<Rightarrow> Some (foldl Override c (relevant decode r cs)))"
proof (induction cs arbitrary: m)
  case Nil
  then show ?case by (simp split: option.splits)
next
  case (Cons c cs)
  from Cons.IH[OF decode_configs_step[OF Cons.prems]] show ?case
    by (cases "vf_of decode c"; cases "map_of m r")
       (simp_all add: relevant_Cons override_requests_lookup)
qed

lemma foldl_Override_set:
  assumes "\<And>c v. field (Override c v) = (if field v = [] then field c else field v)"
  shows "field (foldl Override c vs) = (if last_set field vs = [] then field c else last_set field vs)"
proof (induction vs arbitrary: c rule: rev_induct)
  case Nil
  show ?case by (simp add: last_set_def)
next
  case (snoc v vs)
  then show ?case by (simp add: assms last_set_def)
qed

lemma foldl_Override_fixed:
  "vf_AddVhostMount (foldl Override c vs) = vf_AddVhostMount c"
  "vf_NetAttachDefNamespace (foldl Override c vs) = vf_NetAttachDefNamespace c"
  by (induction vs arbitrary: c) simp_all

lemma opaque_map_lookup:
  assumes "getMapOfOpaqueDeviceConfigForDevice decode cs = Ok m"
  shows "map_of m r = (if relevant decode r (candidates cs) = [] then None
    else Some (foldl Override DefaultVfConfig (relevant decode r (candidates cs))))"
proof -
  from assms obtain out where "split_sources [] [] cs = Ok out" "decode_configs decode [] out = Ok m"
    by (auto simp: getMapOfOpaqueDeviceConfigForDevice_def)
  then show ?thesis
    using decode_configs_lookup[of decode "[]" out m r] split_sources_Nil_ok by auto
qed

section \<open>Properties\<close>

text \<open>C20. Precedence of configurations. Of the configuration stored for a request name, the driver, the interface name and the name of the network attachment
  definition are each decided by the highest-precedence configuration that lists this very name and sets the field: among configurations of
  this driver, those of the claim come after those of the class and later ones after earlier ones.
  A configuration without request names counts as one that lists the empty name only, it does not add to the entries of other names. A name that no configuration lists has no
  entry. (Nothing is said of the other two fields, the vhost mount and the namespace, which no configuration can set.)\<close>

theorem opaque_config_precedence:
  assumes "getMapOfOpaqueDeviceConfigForDevice decode cs = Ok m"
  shows "(map_of m r = None \<longleftrightarrow> relevant decode r (candidates cs) = []) \<and>
    (\<forall>c. map_of m r = Some c \<longrightarrow>
       vf_Driver c = last_set vf_Driver (relevant decode r (candidates cs)) \<and>
       vf_IfName c = last_set vf_IfName (relevant decode r (candidates cs)) \<and>
       vf_NetAttachDefName c = last_set vf_NetAttachDefName (relevant decode r (candidates cs)))"
proof -
  note flds = foldl_Override_set[where c = DefaultVfConfig]
  show ?thesis
    using opaque_map_lookup[OF assms(1), of r]
      flds[of vf_Driver] flds[of vf_IfName] flds[of vf_NetAttachDefName]
    by (auto simp: DefaultVfConfig_def)
qed

text \<open>C40. A parameter that is lost on the way: whatever the claim and the class configure, no entry of
  the map has \<^verbatim>\<open>addVhostMount\<close> set or a \<^verbatim>\<open>netAttachDefNamespace\<close>, because \<^verbatim>\<open>Override\<close> copies neither
  field into the default configuration it starts from. The README documents both parameters.\<close>

theorem opaque_config_drops_vhost_and_namespace:
  assumes "getMapOfOpaqueDeviceConfigForDevice decode cs = Ok m" "map_of m r = Some c"
  shows "vf_AddVhostMount c = False \<and> vf_NetAttachDefNamespace c = []"
  using opaque_map_lookup[OF assms(1), of r] assms(2)
  by (auto simp: foldl_Override_fixed DefaultVfConfig_def split: if_splits)

text \<open>The call rejects exactly the malformed inputs: it fails if and only if some configuration has
  an unknown source, or some configuration (of any driver) has no opaque parameters, or the parameters
  of one of this driver's configurations do not decode to a \<^verbatim>\<open>VfConfig\<close>; it never panics.\<close>

theorem opaque_config_errors:
  "is_ok (getMapOfOpaqueDeviceConfigForDevice decode cs) =
     list_all (\<lambda>c. dac_Source c \<in> {FromClass, FromClaim} \<and> well_formed_config decode c) cs \<and>
   \<not> is_panic (getMapOfOpaqueDeviceConfigForDevice decode cs)"
proof -
  consider (bad) e where "split_sources [] [] cs = Err e" "\<not> list_all (\<lambda>c. dac_Source c \<in> {FromClass, FromClaim}) cs"
    | (good) out where "split_sources [] [] cs = Ok out" "list_all (\<lambda>c. dac_Source c \<in> {FromClass, FromClaim}) cs"
    using split_sources_total[of "[]" "[]" cs] by blast
  then show ?thesis
  proof cases
    case bad
    then show ?thesis by (auto simp: getMapOfOpaqueDeviceConfigForDevice_def list_all_iff)
  next
    case good
    then have "set out = set cs"
      using split_sources_Nil_ok[OF good(1)] by (auto simp: candidates_def list_all_iff)
    with good decode_configs_total[of decode "[]" out] show ?thesis
      by (auto simp: getMapOfOpaqueDeviceConfigForDevice_def list_all_iff is_ok_iff)
  qed
qed

section \<open>Witnesses\<close>

text \<open>A class configuration with a driver, a claim configuration with a network and the vhost mount.\<close>

definition example_decoder :: decoder where
  "example_decoder p = (if p = ''class'' then Inr (DecodedVf (DefaultVfConfig\<lparr>vf_Driver := ''vfio-pci''\<rparr>))
     else if p = ''claim'' then Inr (DecodedVf (DefaultVfConfig\<lparr>vf_NetAttachDefName := ''net'',
       vf_AddVhostMount := True, vf_NetAttachDefNamespace := ''other''\<rparr>))
     else Inl (External ''bad''))"

definition example_configs :: "DeviceAllocationConfiguration list" where
  "example_configs =
     [\<lparr>dac_Source = FromClaim, dac_Requests = [], dac_Opaque = Some \<lparr>op_Driver = DriverName, op_Parameters = ''claim''\<rparr>\<rparr>,
      \<lparr>dac_Source = FromClass, dac_Requests = [], dac_Opaque = Some \<lparr>op_Driver = DriverName, op_Parameters = ''class''\<rparr>\<rparr>]"

lemma example_configs_ok:
  "getMapOfOpaqueDeviceConfigForDevice example_decoder example_configs =
     Ok [([], DefaultVfConfig\<lparr>vf_Driver := ''vfio-pci'', vf_NetAttachDefName := ''net''\<rparr>)]"
  by (simp add: getMapOfOpaqueDeviceConfigForDevice_def example_configs_def example_decoder_def
      Override_def DefaultVfConfig_def Let_def)

theorem opaque_config_precedence_witness:
  "last_set vf_Driver (relevant example_decoder [] (candidates example_configs)) = ''vfio-pci''"
  using opaque_config_precedence[OF example_configs_ok, of "[]"] by simp

theorem opaque_config_drops_witness:
  "\<not> vf_AddVhostMount (DefaultVfConfig\<lparr>vf_Driver := ''vfio-pci'', vf_NetAttachDefName := ''net''\<rparr>)"
  using opaque_config_drops_vhost_and_namespace[OF example_configs_ok, of "[]"] by simp

end
