(* ===== verification/Host.thy ===== *)
theory Host
  imports Api
begin

text \<open>
  The host access of \<^verbatim>\<open>pkg/host/host.go\<close> and its providers: SR-IOV queries, driver binding through
  sysfs, VFIO device files, kernel modules and RDMA devices. The operating system and the libraries
  behind the providers are the argument \<open>os\<close>: reads look at a world, writes and \<^verbatim>\<open>modprobe\<close> change it.
  Logging is left out. What the kernel documents about driver binding is \<open>sysfs_documented\<close>.
\<close>

section \<open>The operating system\<close>

text \<open>\<^verbatim>\<open>os.Lstat\<close> and \<^verbatim>\<open>os.Stat\<close> tell whether the file is a symbolic link; the sources use nothing else of it.\<close>

record pci_device =
  pci_Address :: string
  pci_ClassID :: string
  pci_VendorID :: string
  pci_ProductID :: string

record 'w os =
  os_RootDir :: string
  os_IsNotExist :: "error \<Rightarrow> bool"
  os_Lstat :: "string \<Rightarrow> 'w \<Rightarrow> bool res"
  os_Stat :: "string \<Rightarrow> 'w \<Rightarrow> bool res"
  os_Readlink :: "string \<Rightarrow> 'w \<Rightarrow> string res"
  os_EvalSymlinks :: "string \<Rightarrow> 'w \<Rightarrow> string res"
  os_ReadFile :: "string \<Rightarrow> 'w \<Rightarrow> string res"
  os_ReadDir :: "string \<Rightarrow> 'w \<Rightarrow> string list res"
  os_WriteFile :: "string \<Rightarrow> string \<Rightarrow> 'w \<Rightarrow> unit res \<times> 'w"
  os_modprobe :: "string \<Rightarrow> 'w \<Rightarrow> unit res \<times> 'w"
  net_GetUplinkRepresentor :: "string \<Rightarrow> 'w \<Rightarrow> string res"
  net_ErrRepresentorNotFound :: "error \<Rightarrow> bool"
  net_EswitchMode :: "string \<Rightarrow> 'w \<Rightarrow> string res"
  rdma_DevicesForPcidev :: "string \<Rightarrow> 'w \<Rightarrow> string list"
  rdma_CharDevices :: "string \<Rightarrow> 'w \<Rightarrow> string list"
  pci_RootAttribute :: "string \<Rightarrow> 'w \<Rightarrow> string option res"
  ghw_PCI :: "'w \<Rightarrow> pci_device list res"

section \<open>Paths\<close>

definition buildSysPath :: "'w os \<Rightarrow> string \<Rightarrow> string" where
  "buildSysPath os path = (if os_RootDir os \<noteq> [] then filepath_Join [os_RootDir os, path] else path)"

definition buildSysBusPciPath :: "'w os \<Rightarrow> string \<Rightarrow> string \<Rightarrow> string" where
  "buildSysBusPciPath os pciAddress subPath =
     (let basePath = filepath_Join [SysBusPci, pciAddress];
          basePath' = (if subPath \<noteq> [] then filepath_Join [basePath, subPath] else basePath)
      in buildSysPath os basePath')"

definition buildSysBusPciDriverPath :: "'w os \<Rightarrow> string \<Rightarrow> string \<Rightarrow> string" where
  "buildSysBusPciDriverPath os driver subPath =
     (let basePath = filepath_Join [''/sys/bus/pci/drivers'', driver];
          basePath' = (if subPath \<noteq> [] then filepath_Join [basePath, subPath] else basePath)
      in buildSysPath os basePath')"

definition buildProcPath :: "'w os \<Rightarrow> string \<Rightarrow> string" where
  "buildProcPath os path = (if os_RootDir os \<noteq> [] then filepath_Join [os_RootDir os, path] else path)"

definition buildDevPath :: "'w os \<Rightarrow> string \<Rightarrow> string" where
  "buildDevPath os path = (if os_RootDir os \<noteq> [] then filepath_Join [os_RootDir os, path] else path)"

section \<open>SR-IOV and network queries\<close>

definition IsSriovVF :: "'w os \<Rightarrow> string \<Rightarrow> 'w \<Rightarrow> bool" where
  "IsSriovVF os pciAddress w = is_ok (os_Lstat os (buildSysBusPciPath os pciAddress ''physfn'') w)"

definition IsSriovPF :: "'w os \<Rightarrow> string \<Rightarrow> 'w \<Rightarrow> bool" where
  "IsSriovPF os pciAddress w = is_ok (os_Lstat os (buildSysBusPciPath os pciAddress ''virtfn0'') w)"

record VFInfo =
  vfi_PciAddress :: string
  vfi_VFID :: int
  vfi_DeviceID :: string

text \<open>The loop over the entries of the PF directory.\<close>

definition vf_entry :: "'w os \<Rightarrow> string \<Rightarrow> 'w \<Rightarrow> string \<Rightarrow> VFInfo option" where
  "vf_entry os pfPath w entry =
     (if HasPrefix entry ''virtfn'' then
        (case os_Readlink os (filepath_Join [pfPath, entry]) w of
           Ok target \<Rightarrow>
             (case Atoi (TrimPrefix entry ''virtfn'') of
                None \<Rightarrow> None
              | Some vfID \<Rightarrow>
                  let vfAddr = filepath_Base target;
                      vfDeviceID = (case os_ReadFile os (buildSysBusPciPath os vfAddr ''device'') w of
                          Ok deviceIDBytes \<Rightarrow> TrimPrefix (TrimSpace deviceIDBytes) ''0x''
                        | _ \<Rightarrow> [])
                  in Some \<lparr>vfi_PciAddress = vfAddr, vfi_VFID = vfID, vfi_DeviceID = vfDeviceID\<rparr>)
         | _ \<Rightarrow> None)
      else None)"

definition GetVFList :: "'w os \<Rightarrow> string \<Rightarrow> 'w \<Rightarrow> VFInfo list res" where
  "GetVFList os pfPciAddress w =
     (let pfPath = buildSysBusPciPath os pfPciAddress [] in
      bind_res (wrap_err ''failed to read PF directory: %v'' (os_ReadDir os pfPath w))
        (\<lambda>entries. Ok (List.map_filter (vf_entry os pfPath w) entries)))"

definition PCI :: "'w os \<Rightarrow> 'w \<Rightarrow> pci_device list res" where
  "PCI os w = ghw_PCI os w"

definition TryGetPFInterfaceName :: "'w os \<Rightarrow> string \<Rightarrow> 'w \<Rightarrow> string" where
  "TryGetPFInterfaceName os pciAddr w =
     (case net_GetUplinkRepresentor os pciAddr w of
        Ok name \<Rightarrow> name
      | Err err \<Rightarrow>
          if \<not> net_ErrRepresentorNotFound os err then []
          else let netDir = buildSysBusPciPath os pciAddr ''net'' in
            (if \<not> is_ok (os_Lstat os netDir w) then []
             else case os_ReadDir os netDir w of
                 Ok fInfos \<Rightarrow> (case fInfos of [] \<Rightarrow> [] | f # _ \<Rightarrow> f)
               | _ \<Rightarrow> [])
      | Panic _ \<Rightarrow> [])"

definition GetNicSriovMode :: "'w os \<Rightarrow> string \<Rightarrow> 'w \<Rightarrow> string" where
  "GetNicSriovMode os pciAddr w =
     (case net_EswitchMode os pciAddr w of
        Ok mode \<Rightarrow> if mode = [] then EswitchModeLegacy else mode
      | _ \<Rightarrow> EswitchModeLegacy)"

definition GetLinkType :: "'w os \<Rightarrow> string \<Rightarrow> 'w \<Rightarrow> string res" where
  "GetLinkType os pciAddr w =
     (let ifName = TryGetPFInterfaceName os pciAddr w in
      if ifName = [] then Err (Errorf ''unable to get interface name for PCI address %s'' [])
      else bind_res (wrap_err ''failed to read link type for interface %s: %w''
             (os_ReadFile os (buildSysPath os (''/sys/class/net/'' @ ifName @ ''/type'')) w))
        (\<lambda>content. case Atoi (TrimSpace content) of
           None \<Rightarrow> Err (Errorf ''failed to parse link type value %s for interface %s: %w'' [External ''strconv.Atoi''])
         | Some typeInt \<Rightarrow>
             Ok (if typeInt = 1 then LinkTypeEthernet
                 else if typeInt = 32 then LinkTypeInfiniband
                 else LinkTypeUnknown)))"

definition GetNumaNode :: "'w os \<Rightarrow> string \<Rightarrow> 'w \<Rightarrow> string res" where
  "GetNumaNode os pciAddress w =
     (case os_ReadFile os (buildSysBusPciPath os pciAddress ''numa_node'') w of
        Err err \<Rightarrow> if os_IsNotExist os err then Ok ''-1''
                  else Err (Errorf ''failed to read numa_node for %s: %v'' [err])
      | Panic p \<Rightarrow> Panic p
      | Ok content \<Rightarrow> Ok (TrimSpace content))"

definition GetPCIeRoot :: "'w os \<Rightarrow> string \<Rightarrow> 'w \<Rightarrow> string res" where
  "GetPCIeRoot os pciAddress w =
     bind_res (wrap_err ''failed to get PCIe root for %s: %w'' (pci_RootAttribute os pciAddress w))
       (\<lambda>attr. case attr of Some v \<Rightarrow> Ok v
          | None \<Rightarrow> Err (Errorf ''PCIe root attribute for %s has no string value'' []))"

section \<open>Kernel modules\<close>

definition IsDpdkDriver :: "string \<Rightarrow> bool" where
  "IsDpdkDriver driver = list_ex (\<lambda>d. driver = d) [''vfio-pci'', ''uio_pci_generic'', ''igb_uio'']"

definition IsKernelModuleLoaded :: "'w os \<Rightarrow> string \<Rightarrow> 'w \<Rightarrow> bool" where
  "IsKernelModuleLoaded os moduleName w =
     (case os_ReadFile os (buildProcPath os ''/proc/modules'') w of
        Ok content \<Rightarrow> list_ex (\<lambda>line. HasPrefix line (moduleName @ '' '') \<or> line = moduleName)
                       (Split (CHR 0x0A) content)
      | _ \<Rightarrow> False)"

definition LoadKernelModule :: "'w os \<Rightarrow> string \<Rightarrow> 'w \<Rightarrow> unit res \<times> 'w" where
  "LoadKernelModule os moduleName w =
     (let (r, w') = os_modprobe os moduleName w
      in (wrap_err ''failed to load kernel module %s: %w (output: %s)'' r, w'))"

text \<open>The loop that loads the missing modules and collects the errors.\<close>

fun load_missing :: "'w os \<Rightarrow> error list \<Rightarrow> string list \<Rightarrow> 'w \<Rightarrow> error list res \<times> 'w" where
  "load_missing os errs [] w = (Ok errs, w)"
| "load_missing os errs (moduleName # modulesToLoad) w =
     (case LoadKernelModule os moduleName w of
        (Err err, w') \<Rightarrow> load_missing os (errs @ [Errorf ''failed to load module %s: %w'' [err]]) modulesToLoad w'
      | (Panic p, w') \<Rightarrow> (Panic p, w')
      | (Ok _, w') \<Rightarrow>
          if \<not> IsKernelModuleLoaded os moduleName w'
          then load_missing os (errs @ [Errorf ''module %s was not loaded after LoadKernelModule call'' []]) modulesToLoad w'
          else load_missing os errs modulesToLoad w')"

definition ensure_modules :: "'w os \<Rightarrow> string \<Rightarrow> string list \<Rightarrow> 'w \<Rightarrow> unit res \<times> 'w" where
  "ensure_modules os msg modulesNames w =
     (let modulesToLoad = filter (\<lambda>m. \<not> IsKernelModuleLoaded os m w) modulesNames in
      if length modulesToLoad = 0 then (Ok (), w)
      else bind_io (load_missing os [] modulesToLoad w)
        (\<lambda>errs w'. (if length errs > 0 then Err (Errorf msg errs) else Ok (), w')))"

definition EnsureDpdkModuleLoaded :: "'w os \<Rightarrow> string \<Rightarrow> 'w \<Rightarrow> unit res \<times> 'w" where
  "EnsureDpdkModuleLoaded os driver w =
     (if \<not> IsDpdkDriver driver then (Ok (), w)
      else if driver = ''vfio-pci'' then
        ensure_modules os ''failed to load %d out of %d required kernel modules for DPDK driver %s: %v''
          [''vfio'', ''vfio_pci''] w
      else (Err (Errorf ''unknown DPDK driver: %s'' []), w))"

definition EnsureVhostModulesLoaded :: "'w os \<Rightarrow> 'w \<Rightarrow> unit res \<times> 'w" where
  "EnsureVhostModulesLoaded os w =
     ensure_modules os ''failed to load %d out of %d required kernel modules for vhost functionality: %v''
       [''tun'', ''vhost_net''] w"

section \<open>Driver binding\<close>

definition GetDriverByBusAndDevice :: "'w os \<Rightarrow> string \<Rightarrow> 'w \<Rightarrow> string res" where
  "GetDriverByBusAndDevice os device w =
     (case os_Readlink os (buildSysBusPciPath os device ''driver'') w of
        Err err \<Rightarrow> if os_IsNotExist os err then Ok [] else Err err
      | Panic p \<Rightarrow> Panic p
      | Ok driverInfo \<Rightarrow> Ok (filepath_Base driverInfo))"

definition bindDriver :: "'w os \<Rightarrow> string \<Rightarrow> string \<Rightarrow> 'w \<Rightarrow> unit res \<times> 'w" where
  "bindDriver os device driver w = os_WriteFile os (buildSysBusPciDriverPath os driver ''bind'') device w"

definition unbindDriver :: "'w os \<Rightarrow> string \<Rightarrow> string \<Rightarrow> 'w \<Rightarrow> unit res \<times> 'w" where
  "unbindDriver os device driver w = os_WriteFile os (buildSysBusPciDriverPath os driver ''unbind'') device w"

definition probeDriver :: "'w os \<Rightarrow> string \<Rightarrow> 'w \<Rightarrow> unit res \<times> 'w" where
  "probeDriver os device w = os_WriteFile os (buildSysPath os ''/sys/bus/pci/drivers_probe'') device w"

definition setDriverOverride :: "'w os \<Rightarrow> string \<Rightarrow> string \<Rightarrow> 'w \<Rightarrow> unit res \<times> 'w" where
  "setDriverOverride os device override w =
     (let driverOverridePath = buildSysBusPciPath os device ''driver_override'' in
      case os_Stat os driverOverridePath w of
        Err err \<Rightarrow> if os_IsNotExist os err then (Ok (), w) else (Err err, w)
      | Panic p \<Rightarrow> (Panic p, w)
      | Ok _ \<Rightarrow> os_WriteFile os driverOverridePath (if override \<noteq> [] then override else [CHR 0x00]) w)"

definition UnbindDriverByBusAndDevice :: "'w os \<Rightarrow> string \<Rightarrow> 'w \<Rightarrow> unit res \<times> 'w" where
  "UnbindDriverByBusAndDevice os device w =
     (case GetDriverByBusAndDevice os device w of
        Err err \<Rightarrow> (Err err, w)
      | Panic p \<Rightarrow> (Panic p, w)
      | Ok driver \<Rightarrow> if driver = [] then (Ok (), w) else unbindDriver os device driver w)"

definition BindDriverByBusAndDevice :: "'w os \<Rightarrow> string \<Rightarrow> string \<Rightarrow> 'w \<Rightarrow> unit res \<times> 'w" where
  "BindDriverByBusAndDevice os device driver w =
     (case EnsureDpdkModuleLoaded os driver w of
        (Err err, w1) \<Rightarrow> (Err (Errorf ''failed to ensure DPDK module is loaded for driver %s: %w'' [err]), w1)
      | (Panic p, w1) \<Rightarrow> (Panic p, w1)
      | (Ok _, w1) \<Rightarrow>
     (case GetDriverByBusAndDevice os device w1 of
        Err err \<Rightarrow> (Err err, w1)
      | Panic p \<Rightarrow> (Panic p, w1)
      | Ok curDriver \<Rightarrow>
          if curDriver \<noteq> [] \<and> curDriver = driver then (Ok (), w1)
          else bind_io (if curDriver \<noteq> [] then UnbindDriverByBusAndDevice os device w1 else (Ok (), w1)) (\<lambda>_ w2.
               bind_io (setDriverOverride os device driver w2) (\<lambda>_ w3.
               bind_io (bindDriver os device driver w3) (\<lambda>_ w4.
               setDriverOverride os device [] w4)))))"

definition BindDefaultDriver :: "'w os \<Rightarrow> string \<Rightarrow> 'w \<Rightarrow> unit res \<times> 'w" where
  "BindDefaultDriver os pciAddress w =
     (case GetDriverByBusAndDevice os pciAddress w of
        Err err \<Rightarrow> (Err err, w)
      | Panic p \<Rightarrow> (Panic p, w)
      | Ok curDriver \<Rightarrow>
          if curDriver \<noteq> [] \<and> \<not> IsDpdkDriver curDriver then (Ok (), w)
          else bind_io (if curDriver \<noteq> [] then UnbindDriverByBusAndDevice os pciAddress w else (Ok (), w)) (\<lambda>_ w1.
               bind_io (setDriverOverride os pciAddress [] w1) (\<lambda>_ w2.
               probeDriver os pciAddress w2)))"

definition BindDeviceDriver :: "'w os \<Rightarrow> string \<Rightarrow> VfConfig \<Rightarrow> 'w \<Rightarrow> string res \<times> 'w" where
  "BindDeviceDriver os pciAddress config w =
     (if vf_Driver config = [] then (Ok [], w)
      else case GetDriverByBusAndDevice os pciAddress w of
        Err err \<Rightarrow> (Err (Errorf ''failed to get current driver for device %s: %w'' [err]), w)
      | Panic p \<Rightarrow> (Panic p, w)
      | Ok currentDriver \<Rightarrow>
          if vf_Driver config = ''default'' then
            (case BindDefaultDriver os pciAddress w of
               (Err err, w') \<Rightarrow> (Err (Errorf ''failed to bind device %s to default driver: %w'' [err]), w')
             | (Panic p, w') \<Rightarrow> (Panic p, w')
             | (Ok _, w') \<Rightarrow> (Ok currentDriver, w'))
          else
            (case BindDriverByBusAndDevice os pciAddress (vf_Driver config) w of
               (Err err, w') \<Rightarrow> (Err (Errorf ''failed to bind device %s to driver %s: %w'' [err]), w')
             | (Panic p, w') \<Rightarrow> (Panic p, w')
             | (Ok _, w') \<Rightarrow> (Ok currentDriver, w')))"

definition RestoreDeviceDriver :: "'w os \<Rightarrow> string \<Rightarrow> string \<Rightarrow> 'w \<Rightarrow> unit res \<times> 'w" where
  "RestoreDeviceDriver os pciAddress originalDriver w =
     (if originalDriver = [] then BindDefaultDriver os pciAddress w
      else BindDriverByBusAndDevice os pciAddress originalDriver w)"

section \<open>VFIO and RDMA\<close>

text \<open>The host path and the container path of the device file.\<close>

definition GetVFIODeviceFile :: "'w os \<Rightarrow> string \<Rightarrow> 'w \<Rightarrow> (string \<times> string) res" where
  "GetVFIODeviceFile os pciAddress w =
     (let devPath = buildSysBusPciPath os pciAddress [] in
      bind_res (wrap_err ''GetVFIODeviceFile(): Could not get directory information for device: %s, Err: %v''
          (os_Lstat os devPath w)) (\<lambda>_.
      let iommuDir = filepath_Join [devPath, ''iommu_group''] in
      bind_res (wrap_err ''GetVFIODeviceFile(): unable to find iommu_group %v'' (os_Lstat os iommuDir w)) (\<lambda>is_symlink.
      if \<not> is_symlink then Err (Errorf ''GetVFIODeviceFile(): invalid symlink to iommu_group %v'' [])
      else bind_res (wrap_err ''GetVFIODeviceFile(): error reading symlink to iommu_group %v''
             (os_EvalSymlinks os iommuDir w)) (\<lambda>linkName.
        let devFileContainer = filepath_Join [''/dev'', ''vfio'', filepath_Base linkName] in
        case os_ReadFile os (filepath_Join [linkName, ''name'']) w of
          Ok vfioName \<Rightarrow>
            if TrimSpace vfioName = ''vfio-noiommu''
            then Ok (filepath_Join [''/dev'', ''vfio'', filepath_Base
                   (filepath_Join [filepath_Dir linkName, ''noiommu-'' @ filepath_Base linkName])], devFileContainer)
            else Ok (devFileContainer, devFileContainer)
        | Err _ \<Rightarrow> Ok (devFileContainer, devFileContainer)
        | Panic p \<Rightarrow> Panic p))))"

definition GetVFIOCdevPath :: "'w os \<Rightarrow> string \<Rightarrow> 'w \<Rightarrow> string res" where
  "GetVFIOCdevPath os pciAddress w =
     (case os_ReadDir os (buildSysBusPciPath os pciAddress ''vfio-dev'') w of
        Err err \<Rightarrow> if os_IsNotExist os err then Ok []
                  else Err (Errorf ''GetVFIOCdevPath(): failed to read vfio-dev directory for device %s: %w'' [err])
      | Panic p \<Rightarrow> Panic p
      | Ok entries \<Rightarrow>
          (case entries of
             [] \<Rightarrow> Ok []
           | [e] \<Rightarrow> Ok (filepath_Join [''/dev/vfio/devices'', e])
           | _ \<Rightarrow> Err (Errorf ''GetVFIOCdevPath(): unexpected multiple cdev entries for device %s: %v'' [])))"

definition IsIommufdAvailable :: "'w os \<Rightarrow> 'w \<Rightarrow> bool" where
  "IsIommufdAvailable os w = is_ok (os_Stat os (buildDevPath os ''/dev/iommu'') w)"

definition GetRDMADevicesForPCI :: "'w os \<Rightarrow> string \<Rightarrow> 'w \<Rightarrow> string list" where
  "GetRDMADevicesForPCI os pciAddr w = rdma_DevicesForPcidev os pciAddr w"

definition VerifyRDMACapability :: "'w os \<Rightarrow> string \<Rightarrow> 'w \<Rightarrow> bool" where
  "VerifyRDMACapability os pciAddr w = (length (GetRDMADevicesForPCI os pciAddr w) > 0)"

definition GetRDMACharDevices :: "'w os \<Rightarrow> string \<Rightarrow> 'w \<Rightarrow> string list res" where
  "GetRDMACharDevices os rdmaDeviceName w =
     (if rdmaDeviceName = [] then Err (Errorf ''rdmaDeviceName cannot be empty'' [])
      else let charDevices = rdma_CharDevices os rdmaDeviceName w in
        if length charDevices = 0 then Ok [] else Ok charDevices)"

end
