(* ===== verification/DriverBinding.thy ===== *)
theory DriverBinding
  imports Host
begin

text \<open>
  What the driver binding of \<open>Host\<close> achieves, relative to what the Linux kernel documents about the
  sysfs files it writes: binding gives the device the requested driver, restoring gives it the one it
  had, no other device is touched; and what happens where a step fails. A small simulated kernel
  satisfies the documented behaviour and evaluates the operations.
\<close>

section \<open>The documented behaviour of sysfs\<close>

definition dev_file :: "string \<Rightarrow> string \<Rightarrow> string" where
  "dev_file d f = abs_path [''sys'', ''bus'', ''pci'', ''devices'', d, f]"

definition drv_file :: "string \<Rightarrow> string \<Rightarrow> string" where
  "drv_file n f = abs_path [''sys'', ''bus'', ''pci'', ''drivers'', n, f]"

text \<open>\<open>drv w d\<close> is the driver device \<open>d\<close> is bound to in the world \<open>w\<close>. The link \<^verbatim>\<open>driver\<close> of a device points
  to its driver and does not exist without one; writing a device to \<^verbatim>\<open>bind\<close> or \<^verbatim>\<open>unbind\<close> of a driver binds
  or unbinds it when the write succeeds; the override does not change bindings; a probe can only bind the device it names, and only
  when it is unbound. Nothing is said of modules in general, which bind the devices of their tables when they are loaded; the
  four that the driver loads have no table of PCI devices and bind a device only through \<^verbatim>\<open>bind\<close> or a probe.\<close>

definition tableless_modules :: "string list" where
  "tableless_modules = [''vfio'', ''vfio_pci'', ''tun'', ''vhost_net'']"

definition sysfs_documented :: "'w os \<Rightarrow> ('w \<Rightarrow> string \<rightharpoonup> string) \<Rightarrow> bool" where
  "sysfs_documented os drv \<longleftrightarrow>
     os_RootDir os = [] \<and>
     (\<forall>d w t. is_name d \<longrightarrow> os_Readlink os (dev_file d ''driver'') w = Ok t \<longrightarrow>
        drv w d = Some (filepath_Base t) \<and> is_name (filepath_Base t)) \<and>
     (\<forall>d w e. is_name d \<longrightarrow> os_Readlink os (dev_file d ''driver'') w = Err e \<longrightarrow> os_IsNotExist os e \<longrightarrow> drv w d = None) \<and>
     (\<forall>d n w r w'. is_name d \<longrightarrow> is_name n \<longrightarrow> os_WriteFile os (drv_file n ''bind'') d w = (r, w') \<longrightarrow>
        drv w' = (if r = Ok () then (drv w)(d \<mapsto> n) else drv w)) \<and>
     (\<forall>d n w r w'. is_name d \<longrightarrow> is_name n \<longrightarrow> os_WriteFile os (drv_file n ''unbind'') d w = (r, w') \<longrightarrow>
        drv w' = (if r = Ok () then (drv w)(d := None) else drv w)) \<and>
     (\<forall>d x w. is_name d \<longrightarrow> drv (snd (os_WriteFile os (dev_file d ''driver_override'') x w)) = drv w) \<and>
     (\<forall>d d' w. is_name d \<longrightarrow> d' \<noteq> d \<or> drv w d \<noteq> None \<longrightarrow>
        drv (snd (os_WriteFile os ''/sys/bus/pci/drivers_probe'' d w)) d' = drv w d') \<and>
     (\<forall>m w. m \<in> set tableless_modules \<longrightarrow> drv (snd (os_modprobe os m w)) = drv w)"

lemma sysfs_paths:
  assumes "sysfs_documented os drv" "is_name d" "is_name f"
  shows "buildSysBusPciPath os d f = dev_file d f" "buildSysBusPciDriverPath os d f = drv_file d f"
proof -
  have eq: "SysBusPci = abs_path [''sys'', ''bus'', ''pci'', ''devices'']"
    "''/sys/bus/pci/drivers'' = abs_path [''sys'', ''bus'', ''pci'', ''drivers'']"
    by (simp_all add: SysBusPci_def abs_path_def)
  have nm: "is_name ''sys''" "is_name ''bus''" "is_name ''pci''" "is_name ''devices''" "is_name ''drivers''"
    by (simp_all add: is_name_def)
  have root: "os_RootDir os = []" using assms(1) by (simp add: sysfs_documented_def)
  have f: "f \<noteq> []" using assms(3) by (simp add: is_name_def)
  show "buildSysBusPciPath os d f = dev_file d f"
    unfolding buildSysBusPciPath_def buildSysPath_def eq dev_file_def using root f nm assms(2,3)
    by (simp add: Join_abs_path Let_def)
  show "buildSysBusPciDriverPath os d f = drv_file d f"
    unfolding buildSysBusPciDriverPath_def buildSysPath_def eq drv_file_def using root f nm assms(2,3)
    by (simp add: Join_abs_path Let_def)
qed

lemma file_names [simp]:
  "is_name ''driver''" "is_name ''bind''" "is_name ''unbind''" "is_name ''driver_override''"
  by (simp_all add: is_name_def)

section \<open>Lemmas: the single steps\<close>

lemma get_driver:
  assumes "sysfs_documented os drv" "is_name d" "GetDriverByBusAndDevice os d w = Ok n"
  shows "drv w d = (if n = [] then None else Some n)" "n \<noteq> [] \<Longrightarrow> is_name n"
proof -
  note doc = assms(1)[unfolded sysfs_documented_def] and p = sysfs_paths(1)[OF assms(1,2)]
  have "(drv w d = Some n \<and> is_name n) \<or> (drv w d = None \<and> n = [])"
    using doc assms(2,3) by (auto simp: GetDriverByBusAndDevice_def p split: res.splits if_splits)
  then show "drv w d = (if n = [] then None else Some n)" "n \<noteq> [] \<Longrightarrow> is_name n"
    by (auto simp: is_name_def)
qed

lemma load_missing_drv:
  assumes "sysfs_documented os drv" shows "set ms \<subseteq> set tableless_modules \<Longrightarrow> drv (snd (load_missing os errs ms w)) = drv w"
proof (induction ms arbitrary: errs w)
  case (Cons m ms)
  obtain r w1 where r: "LoadKernelModule os m w = (r, w1)" by (metis prod.exhaust)
  have "drv (snd (LoadKernelModule os m w)) = drv w"
    using assms Cons.prems by (simp add: LoadKernelModule_def sysfs_documented_def case_prod_beta)
  then have "drv w1 = drv w" using r by simp
  then show ?case using Cons r by (cases r) simp_all
qed simp

lemma ensure_modules_drv:
  assumes "sysfs_documented os drv" "set ms \<subseteq> set tableless_modules" shows "drv (snd (ensure_modules os msg ms w)) = drv w"
proof -
  define todo where "todo = filter (\<lambda>m. \<not> IsKernelModuleLoaded os m w) ms"
  obtain r w1 where r: "load_missing os [] todo w = (r, w1)" by (metis prod.exhaust)
  then have "drv w1 = drv w" using load_missing_drv[OF assms(1), of todo "[]" w] assms(2) by (auto simp: todo_def)
  then show ?thesis using r by (cases r) (simp_all add: ensure_modules_def todo_def Let_def)
qed

lemma ensure_dpdk_drv:
  assumes "sysfs_documented os drv" shows "drv (snd (EnsureDpdkModuleLoaded os n w)) = drv w"
  by (simp add: EnsureDpdkModuleLoaded_def ensure_modules_drv[OF assms] tableless_modules_def)

lemma set_override_drv:
  assumes "sysfs_documented os drv" "is_name d" shows "drv (snd (setDriverOverride os d x w)) = drv w"
  using assms by (simp add: setDriverOverride_def sysfs_paths(1)[OF assms] sysfs_documented_def Let_def split: res.split)

lemma bind_drv:
  assumes "sysfs_documented os drv" "is_name d" "is_name n" "bindDriver os d n w = (r, w')"
  shows "drv w' = (if r = Ok () then (drv w)(d \<mapsto> n) else drv w)"
  using assms by (simp add: bindDriver_def sysfs_paths(2)[OF assms(1,3)] sysfs_documented_def)

lemma unbind_drv:
  assumes "sysfs_documented os drv" "is_name d" "UnbindDriverByBusAndDevice os d w = (r, w')"
  shows "drv w' = (if r = Ok () then (drv w)(d := None) else drv w)"
proof (cases "GetDriverByBusAndDevice os d w")
  case (Ok n)
  note g = get_driver[OF assms(1,2) Ok]
  show ?thesis
  proof (cases "n = []")
    case True
    then show ?thesis using assms(3) Ok g by (auto simp: UnbindDriverByBusAndDevice_def fun_eq_iff)
  next
    case False
    have "os_WriteFile os (drv_file n ''unbind'') d w = (r, w')"
      using False assms(3) Ok sysfs_paths(2)[OF assms(1) g(2)[OF False]]
      by (simp add: UnbindDriverByBusAndDevice_def unbindDriver_def)
    then show ?thesis using assms(1,2) g(2)[OF False] unfolding sysfs_documented_def by blast
  qed
qed (use assms in \<open>auto simp: UnbindDriverByBusAndDevice_def\<close>)

section \<open>Lemmas: binding\<close>

lemma set_override_eq:
  "sysfs_documented os drv \<Longrightarrow> is_name d \<Longrightarrow> setDriverOverride os d x w = (r, w') \<Longrightarrow> drv w' = drv w"
  using set_override_drv[of os drv d x w] by simp

lemma override_and_bind:
  assumes doc: "sysfs_documented os drv" and d: "is_name d" and n: "is_name n"
    and run: "bind_io (setDriverOverride os d n w) (\<lambda>_ w3. bind_io (bindDriver os d n w3)
       (\<lambda>_ w4. setDriverOverride os d [] w4)) = (r, w')"
  shows "(r = Ok () \<longrightarrow> drv w' = (drv w)(d \<mapsto> n)) \<and> (\<forall>d'. d' \<noteq> d \<longrightarrow> drv w' d' = drv w d')"
  using run
proof (cases rule: bind_io_cases)
  case (ok x w3)
  note w3 = set_override_eq[OF doc d ok(1)]
  from ok(2) show ?thesis
  proof (cases rule: bind_io_cases)
    case (ok x w4)
    then show ?thesis using bind_drv[OF doc d n ok(1)] set_override_eq[OF doc d ok(2)] w3 by simp
  qed (use bind_drv[OF doc d n] w3 in auto)
qed (use set_override_eq[OF doc d] in auto)

lemma bind_driver_drv:
  assumes doc: "sysfs_documented os drv" and d: "is_name d" and n: "is_name n"
    and run: "BindDriverByBusAndDevice os d n w = (r, w')"
  shows "(r = Ok () \<longrightarrow> drv w' = (drv w)(d \<mapsto> n)) \<and> (\<forall>d'. d' \<noteq> d \<longrightarrow> drv w' d' = drv w d')"
proof -
  obtain e w1 where e: "EnsureDpdkModuleLoaded os n w = (e, w1)" by (metis prod.exhaust)
  have w1: "drv w1 = drv w" using ensure_dpdk_drv[OF doc, of n w] e by simp
  show ?thesis
  proof (cases "\<exists>u cur. e = Ok u \<and> GetDriverByBusAndDevice os d w1 = Ok cur")
    case False
    then show ?thesis using run e w1 by (auto simp: BindDriverByBusAndDevice_def split: res.splits)
  next
    case True
    then obtain u cur where ok: "e = Ok u" "GetDriverByBusAndDevice os d w1 = Ok cur" by blast
    note g = get_driver[OF doc d ok(2)]
    show ?thesis
    proof (cases "cur \<noteq> [] \<and> cur = n")
      case True
      then show ?thesis using run e ok g w1 by (auto simp: BindDriverByBusAndDevice_def fun_eq_iff)
    next
      case False
      then have "bind_io (if cur \<noteq> [] then UnbindDriverByBusAndDevice os d w1 else (Ok (), w1)) (\<lambda>_ w2.
          bind_io (setDriverOverride os d n w2) (\<lambda>_ w3. bind_io (bindDriver os d n w3)
            (\<lambda>_ w4. setDriverOverride os d [] w4))) = (r, w')"
        using run e ok by (cases "cur = []") (simp_all add: BindDriverByBusAndDevice_def)
      then show ?thesis
      proof (cases rule: bind_io_cases)
        case (ok x w2)
        have "drv w2 d' = drv w d'" if "d' \<noteq> d" for d'
          using ok(1) unbind_drv[OF doc d, of w1 "Ok x" w2] w1 that by (auto split: if_splits)
        then show ?thesis using override_and_bind[OF doc d n ok(2)] by (auto simp: fun_eq_iff)
      qed (use unbind_drv[OF doc d, of w1 r w'] w1 in \<open>auto split: if_splits\<close>)
    qed
  qed
qed

lemma bind_default_frame:
  assumes doc: "sysfs_documented os drv" and d: "is_name d" and run: "BindDefaultDriver os d w = (r, w')"
    and ne: "d' \<noteq> d"
  shows "drv w' d' = drv w d'"
proof -
  have root: "os_RootDir os = []" using doc by (simp add: sysfs_documented_def)
  have probe: "drv (snd (probeDriver os d v)) d' = drv v d'" for v
    using doc d ne root unfolding sysfs_documented_def by (simp add: probeDriver_def buildSysPath_def)
  consider (same) "w' = w" | (run) cur where "GetDriverByBusAndDevice os d w = Ok cur"
      "bind_io (if cur \<noteq> [] then UnbindDriverByBusAndDevice os d w else (Ok (), w)) (\<lambda>_ w1.
         bind_io (setDriverOverride os d [] w1) (\<lambda>_ w2. probeDriver os d w2)) = (r, w')"
  proof (cases "GetDriverByBusAndDevice os d w")
    case (Ok cur)
    then show ?thesis
      using assms(3) that by (cases "cur \<noteq> [] \<and> \<not> IsDpdkDriver cur") (simp_all add: BindDefaultDriver_def)
  qed (use assms(3) that(1) in \<open>simp_all add: BindDefaultDriver_def\<close>)
  then show ?thesis
  proof cases
    case (run cur)
    from run(2) show ?thesis
    proof (cases rule: bind_io_cases)
      case (ok x w1)
      have w1: "drv w1 d' = drv w d'"
        using ok(1) unbind_drv[OF doc d, of w "Ok x" w1] ne by (auto split: if_splits)
      from ok(2) show ?thesis
      proof (cases rule: bind_io_cases)
        case (ok x w2)
        then show ?thesis using set_override_eq[OF doc d ok(1)] probe[of w2] w1 by simp
      qed (use set_override_eq[OF doc d] w1 in auto)
    qed (use unbind_drv[OF doc d, of w r w'] ne in \<open>auto split: if_splits\<close>)
  qed simp
qed

section \<open>A simulated kernel\<close>

text \<open>Bindings, the drivers that exist, whether writes to \<^verbatim>\<open>bind\<close> fail, and the driver a probe would pick.\<close>

record kernel =
  k_drv :: "(string, string) gomap"
  k_drivers :: "string list"
  k_bind_fails :: bool
  k_override :: "(string, string) gomap"

definition ENOENT :: error where
  "ENOENT = External ''no such file or directory''"

definition sim_Readlink :: "string \<Rightarrow> kernel \<Rightarrow> string res" where
  "sim_Readlink p k = (case Split slash p of
       [[], s, b, pc, dv, d, f] \<Rightarrow>
         if p = dev_file d ''driver'' then
           (case mget (k_drv k) d of
              Some n \<Rightarrow> if is_name n then Ok (''../../../bus/pci/drivers'' @ slash # n) else Err (External ''I/O error'')
            | None \<Rightarrow> Err ENOENT)
         else Err ENOENT
     | _ \<Rightarrow> Err ENOENT)"

definition sim_WriteFile :: "string \<Rightarrow> string \<Rightarrow> kernel \<Rightarrow> unit res \<times> kernel" where
  "sim_WriteFile p x k = (case Split slash p of
       [[], s, b, pc, dv, n, f] \<Rightarrow>
         if p = drv_file n ''bind'' then
           (if k_bind_fails k \<or> \<not> List.member (k_drivers k) n then (Err (External ''no such device''), k)
            else (Ok (), k\<lparr>k_drv := mput (k_drv k) x n\<rparr>))
         else if p = drv_file n ''unbind'' then (Ok (), k\<lparr>k_drv := mdel (k_drv k) x\<rparr>)
         else if p = dev_file n ''driver_override'' then (Ok (), k\<lparr>k_override := mput (k_override k) n x\<rparr>)
         else (Err ENOENT, k)
     | _ \<Rightarrow> (Err ENOENT, k))"

definition sim_os :: "kernel os" where
  "sim_os = \<lparr>os_RootDir = [], os_IsNotExist = (\<lambda>e. e = ENOENT),
     os_Lstat = (\<lambda>p k. Err ENOENT), os_Stat = (\<lambda>p k. Ok False), os_Readlink = sim_Readlink,
     os_EvalSymlinks = (\<lambda>p k. Err ENOENT),
     os_ReadFile = (\<lambda>p k. if p = ''/proc/modules'' then Ok (''vfio 1 0'' @ [CHR 0x0A] @ ''vfio_pci 2 0'') else Err ENOENT),
     os_ReadDir = (\<lambda>p k. Err ENOENT), os_WriteFile = sim_WriteFile, os_modprobe = (\<lambda>m k. (Ok (), k)),
     net_GetUplinkRepresentor = (\<lambda>p k. Err ENOENT), net_ErrRepresentorNotFound = (\<lambda>e. False),
     net_EswitchMode = (\<lambda>p k. Err ENOENT), rdma_DevicesForPcidev = (\<lambda>p k. []), rdma_CharDevices = (\<lambda>p k. []),
     pci_RootAttribute = (\<lambda>p k. Err ENOENT), ghw_PCI = (\<lambda>k. Ok [])\<rparr>"

lemma Split_sys_file:
  assumes "is_name d" "is_name f"
  shows "Split slash (dev_file d f) = [[], ''sys'', ''bus'', ''pci'', ''devices'', d, f]"
    "Split slash (drv_file d f) = [[], ''sys'', ''bus'', ''pci'', ''drivers'', d, f]"
proof -
  have "is_name ''sys''" "is_name ''bus''" "is_name ''pci''" "is_name ''devices''" "is_name ''drivers''"
    by (simp_all add: is_name_def)
  then show "Split slash (dev_file d f) = [[], ''sys'', ''bus'', ''pci'', ''devices'', d, f]"
    "Split slash (drv_file d f) = [[], ''sys'', ''bus'', ''pci'', ''drivers'', d, f]"
    using assms Split_Join[of "[''sys'', ''bus'', ''pci'', ''devices'', d, f]"]
      Split_Join[of "[''sys'', ''bus'', ''pci'', ''drivers'', d, f]"]
    by (simp_all only: dev_file_def drv_file_def abs_path_def Split.simps) simp_all
qed

lemma sys_file_inj:
  assumes "is_name d" "is_name f" "is_name e" "is_name g"
  shows "dev_file d f = dev_file e g \<longleftrightarrow> d = e \<and> f = g" "drv_file d f = drv_file e g \<longleftrightarrow> d = e \<and> f = g"
    "dev_file d f \<noteq> drv_file e g" "drv_file e g \<noteq> dev_file d f"
proof -
  note sp = Split_sys_file[OF assms(1,2)] Split_sys_file[OF assms(3,4)]
  have "Split slash (dev_file d f) = Split slash (dev_file e g) \<longleftrightarrow> d = e \<and> f = g"
    "Split slash (drv_file d f) = Split slash (drv_file e g) \<longleftrightarrow> d = e \<and> f = g"
    "Split slash (dev_file d f) \<noteq> Split slash (drv_file e g)"
    unfolding sp by simp_all
  then show "dev_file d f = dev_file e g \<longleftrightarrow> d = e \<and> f = g" "drv_file d f = drv_file e g \<longleftrightarrow> d = e \<and> f = g"
    "dev_file d f \<noteq> drv_file e g" "drv_file e g \<noteq> dev_file d f" by metis+
qed

lemma sim_files:
  assumes "is_name n"
  shows "sim_Readlink (dev_file n ''driver'') k = (case mget (k_drv k) n of
      Some m \<Rightarrow> if is_name m then Ok (''../../../bus/pci/drivers'' @ slash # m) else Err (External ''I/O error'')
    | None \<Rightarrow> Err ENOENT)"
    and "sim_WriteFile (drv_file n ''bind'') x k =
      (if k_bind_fails k \<or> \<not> List.member (k_drivers k) n then (Err (External ''no such device''), k)
       else (Ok (), k\<lparr>k_drv := mput (k_drv k) x n\<rparr>))"
    and "sim_WriteFile (drv_file n ''unbind'') x k = (Ok (), k\<lparr>k_drv := mdel (k_drv k) x\<rparr>)"
    and "sim_WriteFile (dev_file n ''driver_override'') x k = (Ok (), k\<lparr>k_override := mput (k_override k) n x\<rparr>)"
  using assms by (simp_all add: sim_Readlink_def sim_WriteFile_def Split_sys_file sys_file_inj)

lemma sim_documented: "sysfs_documented sim_os (\<lambda>k. map_of (k_drv k))"
proof -
  have probe: "sim_WriteFile ''/sys/bus/pci/drivers_probe'' x k = (Err ENOENT, k)" for x k
    by (simp add: sim_WriteFile_def)
  have base: "filepath_Base (''../../../bus/pci/drivers'' @ slash # n) = n" if "is_name n" for n
    by (rule filepath_Base_abs[OF that])
  show ?thesis
    unfolding sysfs_documented_def
    by (auto simp: sim_os_def sim_files probe base[simplified] ENOENT_def split: option.splits if_splits)
qed

section \<open>Properties: binding and restoring\<close>

definition driver_name :: "string option \<Rightarrow> string" where
  "driver_name b = (case b of None \<Rightarrow> [] | Some n \<Rightarrow> n)"

lemma bind_device_spec:
  assumes "sysfs_documented os drv" "is_name pci" "vf_Driver config = [] \<or> is_name (vf_Driver config)"
    and "BindDeviceDriver os pci config w = (r, w')"
  shows "(vf_Driver config = [] \<longrightarrow> r = Ok [] \<and> w' = w) \<and>
    (\<forall>orig. r = Ok orig \<longrightarrow> vf_Driver config \<noteq> [] \<longrightarrow> orig = driver_name (drv w pci) \<and>
       (vf_Driver config \<noteq> ''default'' \<longrightarrow> drv w' pci = Some (vf_Driver config))) \<and>
    (\<forall>d. d \<noteq> pci \<longrightarrow> drv w' d = drv w d)"
proof (cases "vf_Driver config = []")
  case True
  then show ?thesis using assms(4) by (simp add: BindDeviceDriver_def)
next
  case ne: False
  then have nm: "is_name (vf_Driver config)" using assms(3) by simp
  show ?thesis
  proof (cases "GetDriverByBusAndDevice os pci w")
    case (Ok cur)
    have cur: "cur = driver_name (drv w pci)"
      using get_driver(1)[OF assms(1,2) Ok] by (simp add: driver_name_def)
    show ?thesis
    proof (cases "vf_Driver config = ''default''")
      case True
      obtain x v where b: "BindDefaultDriver os pci w = (x, v)" by (metis prod.exhaust)
      have "(\<exists>u. x = Ok u) \<and> r = Ok cur \<and> w' = v \<or> \<not> is_ok r \<and> w' = v"
        using assms(4) ne True Ok b by (cases x) (auto simp: BindDeviceDriver_def)
      then show ?thesis using bind_default_frame[OF assms(1,2) b] cur ne True by auto
    next
      case False
      obtain x v where b: "BindDriverByBusAndDevice os pci (vf_Driver config) w = (x, v)" by (metis prod.exhaust)
      have "x = Ok () \<and> r = Ok cur \<and> w' = v \<or> \<not> is_ok r \<and> w' = v"
        using assms(4) ne False Ok b by (cases x) (auto simp: BindDeviceDriver_def)
      then show ?thesis using bind_driver_drv[OF assms(1,2) nm b] cur ne by (auto simp: is_ok_def)
    qed
  qed (use assms(4) ne in \<open>auto simp: BindDeviceDriver_def\<close>)
qed

text \<open>Binding does what it reports: without a driver in the configuration nothing happens; otherwise the
  driver returned is the one the device had, and for a driver other than the default one the device is
  bound to it afterwards. Whatever the outcome, no other device changes its driver.\<close>

theorem BindDeviceDriver_binds:
  assumes "sysfs_documented os drv" "is_name pci" "vf_Driver config = [] \<or> is_name (vf_Driver config)"
    and "BindDeviceDriver os pci config w = (r, w')"
  shows "(vf_Driver config = [] \<longrightarrow> r = Ok [] \<and> w' = w) \<and>
    (\<forall>orig. r = Ok orig \<longrightarrow> vf_Driver config \<noteq> [] \<longrightarrow> orig = driver_name (drv w pci) \<and>
       (vf_Driver config \<noteq> ''default'' \<longrightarrow> drv w' pci = Some (vf_Driver config))) \<and>
    (\<forall>d. d \<noteq> pci \<longrightarrow> drv w' d = drv w d)"
  using bind_device_spec[OF assms] .

abbreviation example_kernel :: kernel where
  "example_kernel \<equiv> \<lparr>k_drv = [(''0000:01:00.1'', ''iavf''), (''0000:01:00.2'', ''iavf'')],
     k_drivers = [''iavf'', ''vfio-pci''], k_bind_fails = False, k_override = []\<rparr>"

abbreviation vfio_config :: VfConfig where
  "vfio_config \<equiv> DefaultVfConfig\<lparr>vf_Driver := ''vfio-pci''\<rparr>"

lemma example_name: "is_name ''0000:01:00.1''" "is_name ''vfio-pci''" "is_name ''iavf''"
  by (simp_all add: is_name_def)

lemma sim_steps:
  assumes "is_name d" "is_name n"
  shows "GetDriverByBusAndDevice sim_os d k = (case mget (k_drv k) d of
      Some m \<Rightarrow> if is_name m then Ok m else Err (External ''I/O error'') | None \<Rightarrow> Ok [])"
    and "setDriverOverride sim_os d x k = (Ok (), k\<lparr>k_override := mput (k_override k) d (if x \<noteq> [] then x else [CHR 0x00])\<rparr>)"
    and "bindDriver sim_os d n k = (if k_bind_fails k \<or> \<not> List.member (k_drivers k) n then (Err (External ''no such device''), k)
       else (Ok (), k\<lparr>k_drv := mput (k_drv k) d n\<rparr>))"
    and "unbindDriver sim_os d n k = (Ok (), k\<lparr>k_drv := mdel (k_drv k) d\<rparr>)"
proof -
  note p = sysfs_paths(1)[OF sim_documented assms(1)] sysfs_paths(2)[OF sim_documented assms(2)]
  have base: "filepath_Base (''../../../bus/pci/drivers'' @ slash # m) = m" if "is_name m" for m
    by (rule filepath_Base_abs[OF that])
  show "GetDriverByBusAndDevice sim_os d k = (case mget (k_drv k) d of
      Some m \<Rightarrow> if is_name m then Ok m else Err (External ''I/O error'') | None \<Rightarrow> Ok [])"
    using assms by (simp add: GetDriverByBusAndDevice_def p, simp add: sim_os_def sim_Readlink_def Split_sys_file
        base[simplified] ENOENT_def split: option.split)
  show "setDriverOverride sim_os d x k = (Ok (), k\<lparr>k_override := mput (k_override k) d (if x \<noteq> [] then x else [CHR 0x00])\<rparr>)"
    using assms by (simp add: setDriverOverride_def p, simp add: sim_os_def sim_WriteFile_def Split_sys_file sys_file_inj)
  show "bindDriver sim_os d n k = (if k_bind_fails k \<or> \<not> List.member (k_drivers k) n then (Err (External ''no such device''), k)
       else (Ok (), k\<lparr>k_drv := mput (k_drv k) d n\<rparr>))"
    and "unbindDriver sim_os d n k = (Ok (), k\<lparr>k_drv := mdel (k_drv k) d\<rparr>)"
    using assms by (simp_all add: bindDriver_def unbindDriver_def p)
      (simp_all add: sim_os_def sim_WriteFile_def Split_sys_file sys_file_inj)
qed

lemmas sim_eval = sim_steps(1,2)[OF example_name(1,2)] sim_steps(3,4)[OF example_name(1,2)]
  sim_steps(3,4)[OF example_name(1,3)] example_name

lemma sim_dpdk_loaded: "EnsureDpdkModuleLoaded sim_os ''vfio-pci'' k = (Ok (), k)"
  by (simp add: EnsureDpdkModuleLoaded_def IsDpdkDriver_def ensure_modules_def IsKernelModuleLoaded_def sim_os_def
      buildProcPath_def HasPrefix_def)

lemma sim_no_dpdk: "EnsureDpdkModuleLoaded sim_os ''iavf'' k = (Ok (), k)"
  by (simp add: EnsureDpdkModuleLoaded_def IsDpdkDriver_def)

lemma sim_bind_vfio:
  "\<exists>k'. BindDeviceDriver sim_os ''0000:01:00.1'' vfio_config example_kernel = (Ok ''iavf'', k')"
  by (simp add: BindDeviceDriver_def BindDriverByBusAndDevice_def sim_dpdk_loaded UnbindDriverByBusAndDevice_def
      sim_eval)

theorem BindDeviceDriver_binds_witness:
  "\<exists>k'. BindDeviceDriver sim_os ''0000:01:00.1'' vfio_config example_kernel = (Ok ''iavf'', k') \<and>
     map_of (k_drv k') ''0000:01:00.1'' = Some ''vfio-pci'' \<and> map_of (k_drv k') ''0000:01:00.2'' = Some ''iavf''"
proof -
  obtain k' where run: "BindDeviceDriver sim_os ''0000:01:00.1'' vfio_config example_kernel = (Ok ''iavf'', k')"
    using sim_bind_vfio by blast
  have "vf_Driver vfio_config = [] \<or> is_name (vf_Driver vfio_config)" by (simp add: example_name)
  from BindDeviceDriver_binds[OF sim_documented example_name(1) this run] run show ?thesis by simp
qed

text \<open>C11. Binding and restoring a device is a round trip for its driver. When a device that had a driver is bound with success to the driver
  of a configuration, the driver to go back to is the one it had; and when this one is restored with success later, whatever happened to the node
  in between, the device has the driver it had at the start, and the restore has touched no other device.\<close>

theorem bind_restore_roundtrip:
  assumes "sysfs_documented os drv" "is_name pci" "drv w pci = Some orig" "is_name orig"
    and "vf_Driver config \<noteq> []" "BindDeviceDriver os pci config w = (Ok saved, w1)"
    and "RestoreDeviceDriver os pci saved w2 = (Ok (), w3)"
  shows "saved = orig \<and> drv w3 pci = drv w pci \<and> (\<forall>d. d \<noteq> pci \<longrightarrow> drv w3 d = drv w2 d)"
proof -
  obtain cur where g: "GetDriverByBusAndDevice os pci w = Ok cur" "saved = cur"
    using assms(5,6) by (auto simp: BindDeviceDriver_def split: res.splits if_splits prod.splits)
  have "saved = orig" using get_driver(1)[OF assms(1,2) g(1)] assms(3) g(2) by (simp split: if_splits)
  moreover have "BindDriverByBusAndDevice os pci orig w2 = (Ok (), w3)"
    using assms(4,7) \<open>saved = orig\<close> by (simp add: RestoreDeviceDriver_def is_name_def)
  from bind_driver_drv[OF assms(1,2,4) this] have "drv w3 = (drv w2)(pci \<mapsto> orig)" by blast
  ultimately show ?thesis using assms(3) by simp
qed

theorem bind_restore_roundtrip_witness:
  "\<exists>k1 k3. BindDeviceDriver sim_os ''0000:01:00.1'' vfio_config example_kernel = (Ok ''iavf'', k1) \<and>
     RestoreDeviceDriver sim_os ''0000:01:00.1'' ''iavf'' k1 = (Ok (), k3) \<and>
     map_of (k_drv k3) ''0000:01:00.1'' = Some ''iavf''"
proof -
  obtain k1 where run: "BindDeviceDriver sim_os ''0000:01:00.1'' vfio_config example_kernel = (Ok ''iavf'', k1)"
    using sim_bind_vfio by blast
  then have k1: "k1 = example_kernel\<lparr>k_drv := [(''0000:01:00.2'', ''iavf''), (''0000:01:00.1'', ''vfio-pci'')],
      k_override := [(''0000:01:00.1'', [CHR 0x00])]\<rparr>"
    by (simp add: BindDeviceDriver_def BindDriverByBusAndDevice_def sim_dpdk_loaded UnbindDriverByBusAndDevice_def
        sim_eval)
  obtain k3 where res: "RestoreDeviceDriver sim_os ''0000:01:00.1'' ''iavf'' k1 = (Ok (), k3)"
    by (simp add: RestoreDeviceDriver_def BindDriverByBusAndDevice_def sim_no_dpdk UnbindDriverByBusAndDevice_def k1
        sim_eval)
  have "map_of (k_drv example_kernel) ''0000:01:00.1'' = Some ''iavf''" "vf_Driver vfio_config \<noteq> []" by simp_all
  from bind_restore_roundtrip[OF sim_documented example_name(1) this(1) example_name(3) this(2) run res] run res
  show ?thesis by auto
qed

text \<open>Devices that were bound to \<^verbatim>\<open>uio_pci_generic\<close> or \<^verbatim>\<open>igb_uio\<close> cannot be restored: both count as DPDK drivers,
  but no kernel module is known for them, so binding or restoring to either fails before it touches
  the device, on every host.\<close>

theorem uio_drivers_unbindable:
  "list_all (\<lambda>driver. IsDpdkDriver driver \<and>
     (\<forall>os pci w. is_err (fst (RestoreDeviceDriver os pci driver w)) \<and> snd (RestoreDeviceDriver os pci driver w) = w \<and>
        is_err (fst (BindDriverByBusAndDevice os pci driver w))))
   [''uio_pci_generic'', ''igb_uio'']"
  by (simp add: RestoreDeviceDriver_def BindDriverByBusAndDevice_def EnsureDpdkModuleLoaded_def IsDpdkDriver_def)

text \<open>A bind that fails half way is not undone: when the new driver refuses the device, the call reports
  an error and the device, which had a driver before, is left without one and with the override still
  set to the driver that refused it.\<close>

theorem failed_bind_leaves_unbound:
  "\<exists>e k'. BindDeviceDriver sim_os ''0000:01:00.1'' vfio_config (example_kernel\<lparr>k_bind_fails := True\<rparr>) = (Err e, k') \<and>
     map_of (k_drv example_kernel) ''0000:01:00.1'' = Some ''iavf'' \<and>
     map_of (k_drv k') ''0000:01:00.1'' = None \<and> map_of (k_override k') ''0000:01:00.1'' = Some ''vfio-pci''"
  by (simp add: BindDeviceDriver_def BindDriverByBusAndDevice_def sim_dpdk_loaded UnbindDriverByBusAndDevice_def
      sim_eval)

section \<open>Properties: modules and device files\<close>

lemma space_split_inj:
  assumes "CHR '' '' \<notin> set n" "CHR '' '' \<notin> set m" "n @ CHR '' '' # r = m @ CHR '' '' # t"
  shows "n = m"
proof -
  have "takeWhile (\<lambda>c. c \<noteq> CHR '' '') (n @ CHR '' '' # r) = n" "takeWhile (\<lambda>c. c \<noteq> CHR '' '') (m @ CHR '' '' # t) = m"
    using assms(1,2) by (simp_all add: takeWhile_append)
  then show ?thesis using assms(3) by simp
qed

text \<open>A module is found exactly when \<^verbatim>\<open>/proc/modules\<close> has a line for it: a module whose name only starts with
  the name asked for (\<^verbatim>\<open>vfio_pci\<close> for \<^verbatim>\<open>vfio\<close>), or a line that mentions it as a dependency, does not count.\<close>

theorem IsKernelModuleLoaded_iff:
  assumes "os_ReadFile os (buildProcPath os ''/proc/modules'') w =
      Ok (Join (map (\<lambda>(n, rest). n @ '' '' @ rest) mods) [CHR 0x0A])"
    and "\<forall>(n, rest) \<in> set mods. CHR '' '' \<notin> set n \<and> CHR 0x0A \<notin> set n \<and> CHR 0x0A \<notin> set rest"
    and "m \<noteq> []" "CHR '' '' \<notin> set m"
  shows "IsKernelModuleLoaded os m w \<longleftrightarrow> m \<in> fst ` set mods"
proof (cases "mods = []")
  case True
  then show ?thesis using assms(1,3) by (simp add: IsKernelModuleLoaded_def HasPrefix_def)
next
  case False
  define lines where "lines = map (\<lambda>(n, rest). n @ '' '' @ rest) mods"
  have "Split (CHR 0x0A) (Join lines [CHR 0x0A]) = lines"
    using False assms(2) by (intro Split_Join_sep) (auto simp: lines_def)
  then have "IsKernelModuleLoaded os m w \<longleftrightarrow>
      (\<exists>(n, rest) \<in> set mods. HasPrefix (n @ '' '' @ rest) (m @ '' '') \<or> n @ '' '' @ rest = m)"
    using assms(1) unfolding lines_def[symmetric]
    by (auto simp: IsKernelModuleLoaded_def list_ex_iff lines_def case_prod_beta)
  moreover have "HasPrefix (n @ '' '' @ rest) (m @ '' '') \<or> n @ '' '' @ rest = m \<longleftrightarrow> n = m"
    if "(n, rest) \<in> set mods" for n rest
  proof
    assume "HasPrefix (n @ '' '' @ rest) (m @ '' '') \<or> n @ '' '' @ rest = m"
    then show "n = m"
    proof
      assume "HasPrefix (n @ '' '' @ rest) (m @ '' '')"
      then obtain t where "n @ CHR '' '' # rest = m @ CHR '' '' # t" by (auto simp: HasPrefix_iff)
      then show ?thesis using space_split_inj assms(2,4) that by blast
    qed (use assms(4) in auto)
  qed (simp add: HasPrefix_iff)
  ultimately show ?thesis by force
qed

theorem IsKernelModuleLoaded_iff_witness:
  "IsKernelModuleLoaded sim_os ''vfio'' example_kernel \<and> \<not> IsKernelModuleLoaded sim_os ''vf'' example_kernel"
proof -
  define mods where "mods = [(''vfio'', ''1 0''), (''vfio_pci'', ''2 0'')]"
  have content: "os_ReadFile sim_os (buildProcPath sim_os ''/proc/modules'') example_kernel =
      Ok (Join (map (\<lambda>(n, rest). n @ '' '' @ rest) mods) [CHR 0x0A])"
    by (simp add: sim_os_def buildProcPath_def mods_def)
  have ok: "\<forall>(n, rest) \<in> set mods. CHR '' '' \<notin> set n \<and> CHR 0x0A \<notin> set n \<and> CHR 0x0A \<notin> set rest"
    by (simp add: mods_def)
  show ?thesis
    using IsKernelModuleLoaded_iff[OF content ok, of "''vfio''"] IsKernelModuleLoaded_iff[OF content ok, of "''vf''"]
    by (simp add: mods_def)
qed

end
