(* ===== verification/PolicyState.thy ===== *)
theory PolicyState
  imports Api
begin

text \<open>
  The device-state manager of \<^verbatim>\<open>pkg/devicestate/state.go\<close> as far as policies are concerned: its state,
  the read accessors, and \<^verbatim>\<open>UpdatePolicyDevices\<close>, which advertises the devices a policy matches, sets and
  clears policy attributes and triggers the republish callback. The abstract view is a function from
  devices to discovery attributes and policy attributes; the update is shown to refine it.
\<close>

section \<open>State\<close>

text \<open>The map \<^verbatim>\<open>policyAttrKeys\<close> has maps into \<^verbatim>\<open>true\<close> as values; they are kept as lists of keys. A nil map
  is the empty map, which every operation treats alike.\<close>

record Manager =
  defaultInterfacePrefix :: string
  allocatable :: AllocatableDevices
  policyAttrKeys :: "(string, QualifiedName list) gomap"
  configurationMode :: string
  iommuAvailable :: bool

definition GetAllocatableDevices :: "Manager \<Rightarrow> AllocatableDevices" where
  "GetAllocatableDevices s = allocatable s"

definition GetAllocatableDeviceByName :: "Manager \<Rightarrow> string \<Rightarrow> Device option" where
  "GetAllocatableDeviceByName s deviceName = mget (allocatable s) deviceName"

definition normalizeConfigurationMode :: "string \<Rightarrow> string res" where
  "normalizeConfigurationMode mode =
     (if mode = [] then Ok ConfigurationModeStandalone
      else if mode = ConfigurationModeStandalone then Ok ConfigurationModeStandalone
      else if mode = ConfigurationModeMultus then Ok ConfigurationModeMultus
      else Err (Errorf ''unsupported configuration mode %q, expected %q or %q'' []))"

definition isStandaloneMode :: "Manager \<Rightarrow> bool" where
  "isStandaloneMode s = (configurationMode s = [] \<or> configurationMode s = ConfigurationModeStandalone)"

definition isMultusMode :: "Manager \<Rightarrow> bool" where
  "isMultusMode s = (configurationMode s = ConfigurationModeMultus)"

section \<open>Operations\<close>

fun advertised_devices :: "Manager \<Rightarrow> AllocatableDevices \<Rightarrow> string list \<Rightarrow> AllocatableDevices" where
  "advertised_devices s result [] = result"
| "advertised_devices s result (name # names) =
     (case mget (allocatable s) name of
        None \<Rightarrow> advertised_devices s result names
      | Some device \<Rightarrow> advertised_devices s (mput result name device) names)"

definition GetAdvertisedDevices :: "Manager \<Rightarrow> AllocatableDevices" where
  "GetAdvertisedDevices s = advertised_devices s [] (map fst (policyAttrKeys s))"

definition clearPolicyAttributes :: "Manager \<Rightarrow> string \<Rightarrow> bool \<times> Manager" where
  "clearPolicyAttributes s deviceName =
     (case mget (policyAttrKeys s) deviceName of
        None \<Rightarrow> (False, s\<lparr>policyAttrKeys := mdel (policyAttrKeys s) deviceName\<rparr>)
      | Some oldKeys \<Rightarrow>
          if oldKeys = [] then (False, s\<lparr>policyAttrKeys := mdel (policyAttrKeys s) deviceName\<rparr>)
          else case mget (allocatable s) deviceName of
            None \<Rightarrow> (False, s\<lparr>policyAttrKeys := mdel (policyAttrKeys s) deviceName\<rparr>)
          | Some device \<Rightarrow>
              (True, s\<lparr>allocatable := mput (allocatable s) deviceName
                          (device\<lparr>dev_Attributes := mdel_all (dev_Attributes device) oldKeys\<rparr>),
                       policyAttrKeys := mdel (policyAttrKeys s) deviceName\<rparr>))"

text \<open>The first loop of \<^verbatim>\<open>UpdatePolicyDevices\<close>, over the keys of \<^verbatim>\<open>policyAttrKeys\<close>; each round deletes at
  most the key it is at.\<close>

fun clear_unmatched ::
  "(string, attributes) gomap \<Rightarrow> bool \<Rightarrow> Manager \<Rightarrow> string list \<Rightarrow> bool \<times> Manager" where
  "clear_unmatched policyDevices changesMade s [] = (changesMade, s)"
| "clear_unmatched policyDevices changesMade s (deviceName # names) =
     (if mhas policyDevices deviceName then clear_unmatched policyDevices changesMade s names
      else let (cleared, s') = clearPolicyAttributes s deviceName
           in clear_unmatched policyDevices (changesMade \<or> cleared) s' names)"

text \<open>The test for a changed set of advertised devices.\<close>

definition advertised_set_changed :: "(string, attributes) gomap \<Rightarrow> Manager \<Rightarrow> bool" where
  "advertised_set_changed policyDevices s =
     (if length policyDevices \<noteq> length (policyAttrKeys s) then True
      else list_ex (\<lambda>(name, _). \<not> mhas (policyAttrKeys s) name) policyDevices)"

text \<open>The loop over the policy attributes of one device: device attributes, new keys, changes made.\<close>

fun set_policy_attrs ::
  "attributes \<Rightarrow> QualifiedName list \<Rightarrow> bool \<Rightarrow> attributes \<Rightarrow> attributes \<times> QualifiedName list \<times> bool" where
  "set_policy_attrs devAttrs newKeys changesMade [] = (devAttrs, newKeys, changesMade)"
| "set_policy_attrs devAttrs newKeys changesMade ((key, val) # attrs) =
     (if is_reserved key then set_policy_attrs devAttrs newKeys changesMade attrs
      else if mget devAttrs key \<noteq> Some val
      then set_policy_attrs (mput devAttrs key val) (newKeys @ [key]) True attrs
      else set_policy_attrs devAttrs (newKeys @ [key]) changesMade attrs)"

text \<open>The loop over the old policy keys of one device.\<close>

fun clear_stale ::
  "QualifiedName list \<Rightarrow> attributes \<Rightarrow> bool \<Rightarrow> QualifiedName list \<Rightarrow> attributes \<times> bool" where
  "clear_stale newKeys devAttrs changesMade [] = (devAttrs, changesMade)"
| "clear_stale newKeys devAttrs changesMade (oldKey # oldKeys) =
     (if oldKey \<notin> set newKeys then clear_stale newKeys (mdel devAttrs oldKey) True oldKeys
      else clear_stale newKeys devAttrs changesMade oldKeys)"

text \<open>One round of the loop over the matched devices.\<close>

definition apply_policy_device :: "Manager \<Rightarrow> bool \<Rightarrow> string \<Rightarrow> attributes \<Rightarrow> bool \<times> Manager" where
  "apply_policy_device s changesMade deviceName attrs =
     (case mget (allocatable s) deviceName of
        None \<Rightarrow> (changesMade, s)
      | Some device \<Rightarrow>
          let (devAttrs, newKeys, changes1) = set_policy_attrs (dev_Attributes device) [] changesMade attrs;
              (devAttrs', changes2) =
                (case mget (policyAttrKeys s) deviceName of
                   None \<Rightarrow> (devAttrs, changes1)
                 | Some oldKeys \<Rightarrow> clear_stale newKeys devAttrs changes1 oldKeys)
          in (changes2,
              s\<lparr>allocatable := mput (allocatable s) deviceName (device\<lparr>dev_Attributes := devAttrs'\<rparr>),
                policyAttrKeys := mput (policyAttrKeys s) deviceName newKeys\<rparr>))"

fun apply_policies :: "bool \<Rightarrow> Manager \<Rightarrow> (string, attributes) gomap \<Rightarrow> bool \<times> Manager" where
  "apply_policies changesMade s [] = (changesMade, s)"
| "apply_policies changesMade s ((deviceName, attrs) # policyDevices) =
     (let (changes', s') = apply_policy_device s changesMade deviceName attrs
      in apply_policies changes' s' policyDevices)"

text \<open>Everything \<^verbatim>\<open>UpdatePolicyDevices\<close> does before it decides about the callback.\<close>

definition update_policy_state :: "Manager \<Rightarrow> (string, attributes) gomap \<Rightarrow> bool \<times> Manager" where
  "update_policy_state s policyDevices =
     (let (cleared, s1) = clear_unmatched policyDevices False s (map fst (policyAttrKeys s));
          changesMade = (cleared \<or> advertised_set_changed policyDevices s1)
      in apply_policies changesMade s1 policyDevices)"

text \<open>The callback, when one is set, sees the updated manager and acts on the world.\<close>

type_synonym 'w republish = "Manager \<Rightarrow> 'w \<Rightarrow> unit res \<times> 'w"

text \<open>The field \<^verbatim>\<open>republishCallback\<close> is kept beside the manager, as its type depends on the world. The constructor leaves it unset.\<close>

definition SetRepublishCallback :: "'w republish option \<Rightarrow> 'w republish \<Rightarrow> 'w republish option" where
  "SetRepublishCallback republishCallback callback = Some callback"

definition UpdatePolicyDevices ::
  "'w republish option \<Rightarrow> Manager \<Rightarrow> (string, attributes) gomap \<Rightarrow> 'w \<Rightarrow> (unit res \<times> Manager) \<times> 'w" where
  "UpdatePolicyDevices republishCallback s policyDevices w =
     (let (changesMade, s') = update_policy_state s policyDevices in
      if \<not> changesMade then ((Ok (), s'), w)
      else case republishCallback of
          None \<Rightarrow> ((Ok (), s'), w)
        | Some callback \<Rightarrow>
            (case callback s' w of
               (Err err, w') \<Rightarrow> ((Err (Errorf ''failed to republish resources: %w'' [err]), s'), w')
             | (Ok _, w') \<Rightarrow> ((Ok (), s'), w')
             | (Panic p, w') \<Rightarrow> ((Panic p, s'), w')))"

section \<open>Invariant and abstract view\<close>

definition policy_keys :: "Manager \<Rightarrow> string \<Rightarrow> QualifiedName set" where
  "policy_keys s n = (case map_of (policyAttrKeys s) n of None \<Rightarrow> {} | Some ks \<Rightarrow> set ks)"

definition attrs_of :: "Manager \<Rightarrow> string \<Rightarrow> QualifiedName \<rightharpoonup> DeviceAttribute" where
  "attrs_of s n = (case map_of (allocatable s) n of None \<Rightarrow> Map.empty | Some d \<Rightarrow> map_of (dev_Attributes d))"

text \<open>The attributes a device has from discovery: those no policy set.\<close>

definition discovery_attrs :: "Manager \<Rightarrow> string \<Rightarrow> QualifiedName \<rightharpoonup> DeviceAttribute" where
  "discovery_attrs s n = (attrs_of s n) |` (- policy_keys s n)"

text \<open>The policy attributes a policy may set: those with a key that is not reserved.\<close>

definition permitted :: "attributes \<Rightarrow> QualifiedName \<rightharpoonup> DeviceAttribute" where
  "permitted attrs = (map_of attrs) |` {k. \<not> is_reserved k}"

definition manager_inv :: "Manager \<Rightarrow> bool" where
  "manager_inv s \<longleftrightarrow>
     wf_map (allocatable s) \<and> wf_map (policyAttrKeys s) \<and>
     mkeys (policyAttrKeys s) \<subseteq> mkeys (allocatable s) \<and>
     (\<forall>n ks. map_of (policyAttrKeys s) n = Some ks \<longrightarrow> (\<forall>k \<in> set ks. \<not> is_reserved k)) \<and>
     (\<forall>n k. k \<in> dom (discovery_attrs s n) \<longrightarrow> is_reserved k)"

text \<open>The advertised names, as \<^verbatim>\<open>GetAdvertisedDevices\<close> reports them.\<close>

definition advertised :: "Manager \<Rightarrow> string set" where
  "advertised s = mkeys (GetAdvertisedDevices s)"

section \<open>Lemmas: the loops\<close>

lemma permitted_Cons:
  assumes "wf_map ((key, val) # attrs)"
  shows "permitted ((key, val) # attrs) = (if is_reserved key then permitted attrs else (permitted attrs)(key \<mapsto> val))"
    and "key \<notin> dom (permitted attrs)"
  using assms by (auto simp: permitted_def restrict_map_def fun_eq_iff mkeys_dom split: if_splits)

lemma set_policy_attrs_result:
  "wf_map attrs \<Longrightarrow> map_of (fst (set_policy_attrs da nk ch attrs)) = map_of da ++ permitted attrs \<and>
    set (fst (snd (set_policy_attrs da nk ch attrs))) = set nk \<union> dom (permitted attrs) \<and>
    (wf_map da \<longrightarrow> wf_map (fst (set_policy_attrs da nk ch attrs)))"
proof (induction da nk ch attrs rule: set_policy_attrs.induct)
  case (2 da nk ch key val attrs)
  have wf: "wf_map attrs" using "2.prems" by simp
  note pc = permitted_Cons[OF "2.prems"]
  have "(map_of da ++ permitted attrs)(key \<mapsto> val) = map_of da ++ permitted attrs" if "map_of da key = Some val"
    using that pc(2) by (simp add: fun_upd_idem map_add_dom_app_simps)
  then show ?case using "2.IH" wf pc by (simp add: map_add_upd_left del: fun_upd_apply)
qed (simp add: permitted_def)

lemma set_policy_attrs_changed:
  "wf_map attrs \<Longrightarrow> snd (snd (set_policy_attrs da nk ch attrs)) \<longleftrightarrow> ch \<or> map_of da ++ permitted attrs \<noteq> map_of da"
proof (induction da nk ch attrs rule: set_policy_attrs.induct)
  case (2 da nk ch key val attrs)
  have wf: "wf_map attrs" using "2.prems" by simp
  note pc = permitted_Cons[OF "2.prems"]
  show ?case
  proof (cases "is_reserved key \<or> map_of da key = Some val")
    case True
    have "(map_of da ++ permitted attrs)(key \<mapsto> val) = map_of da ++ permitted attrs" if "map_of da key = Some val"
      using that pc(2) by (simp add: fun_upd_idem map_add_dom_app_simps)
    then show ?thesis using "2.IH" wf pc True by (auto simp del: fun_upd_apply)
  next
    case False
    then have "map_of da ++ permitted ((key, val) # attrs) \<noteq> map_of da" using pc(1) by (metis fun_upd_same map_add_upd)
    then show ?thesis using "2.IH"(2) wf False by simp
  qed
qed (simp add: permitted_def)

lemma set_policy_attrs_spec:
  assumes "wf_map attrs" "set_policy_attrs da nk ch attrs = (da', nk', ch')"
  shows "map_of da' = map_of da ++ permitted attrs"
    and "set nk' = set nk \<union> dom (permitted attrs)"
    and "ch' \<longleftrightarrow> ch \<or> map_of da ++ permitted attrs \<noteq> map_of da"
    and "wf_map da \<Longrightarrow> wf_map da'"
  using set_policy_attrs_result[OF assms(1), of da nk ch] set_policy_attrs_changed[OF assms(1), of da nk ch] by (simp_all add: assms(2))

lemma clear_stale_spec:
  "clear_stale nk da ch ks = (da', ch') \<Longrightarrow>
   map_of da' = (map_of da) |` (- (set ks - set nk)) \<and> (ch' \<longleftrightarrow> ch \<or> \<not> set ks \<subseteq> set nk)"
  by (induction nk da ch ks arbitrary: da' ch' rule: clear_stale.induct)
     (auto simp: restrict_map_def fun_eq_iff split: if_splits)

section \<open>Lemmas: the effect of each step on the abstract view\<close>

text \<open>Names of discovered devices and of the frame the steps keep.\<close>

definition same_frame :: "Manager \<Rightarrow> Manager \<Rightarrow> bool" where
  "same_frame s s' \<longleftrightarrow> mkeys (allocatable s') = mkeys (allocatable s) \<and>
     (wf_map (allocatable s) \<longrightarrow> wf_map (allocatable s')) \<and>
     (wf_map (policyAttrKeys s) \<longrightarrow> wf_map (policyAttrKeys s')) \<and>
     configurationMode s' = configurationMode s \<and> defaultInterfacePrefix s' = defaultInterfacePrefix s \<and>
     iommuAvailable s' = iommuAvailable s"

lemma same_frame_refl [simp]: "same_frame s s"
  by (simp add: same_frame_def)

lemma same_frame_trans: "same_frame s t \<Longrightarrow> same_frame t u \<Longrightarrow> same_frame s u"
  by (auto simp: same_frame_def)

lemma clearPolicyAttributes_cases:
  assumes "clearPolicyAttributes s n = (b, s')"
  obtains (clear) d where "b" "policy_keys s n \<noteq> {}" "map_of (allocatable s) n = Some d"
      "s' = s\<lparr>allocatable := mput (allocatable s) n
           (d\<lparr>dev_Attributes := mdel_all (dev_Attributes d) (the (map_of (policyAttrKeys s) n))\<rparr>),
           policyAttrKeys := mdel (policyAttrKeys s) n\<rparr>"
      "policy_keys s n = set (the (map_of (policyAttrKeys s) n))"
  | (keep) "\<not> b" "policy_keys s n = {} \<or> map_of (allocatable s) n = None"
      "s' = s\<lparr>policyAttrKeys := mdel (policyAttrKeys s) n\<rparr>"
  using assms
  by (cases "map_of (policyAttrKeys s) n"; cases "map_of (allocatable s) n")
     (force simp: clearPolicyAttributes_def policy_keys_def split: if_splits)+

lemma clearPolicyAttributes_effect:
  assumes "clearPolicyAttributes s n = (b, s')"
  shows "attrs_of s' m = (if m = n then attrs_of s n |` (- policy_keys s n) else attrs_of s m)"
    and "map_of (policyAttrKeys s') m = (if m = n then None else map_of (policyAttrKeys s) m)"
    and "policy_keys s' m = (if m = n then {} else policy_keys s m)"
    and "b \<longleftrightarrow> policy_keys s n \<noteq> {} \<and> n \<in> mkeys (allocatable s)"
    and "same_frame s s'"
proof -
  have "(attrs_of s' m = (if m = n then attrs_of s n |` (- policy_keys s n) else attrs_of s m)) \<and>
    (map_of (policyAttrKeys s') m = (if m = n then None else map_of (policyAttrKeys s) m)) \<and>
    (b \<longleftrightarrow> policy_keys s n \<noteq> {} \<and> n \<in> mkeys (allocatable s)) \<and> same_frame s s'"
    using assms
  proof (cases rule: clearPolicyAttributes_cases)
    case (clear d)
    have "mkeys (allocatable s') = mkeys (allocatable s)" "n \<in> mkeys (allocatable s)"
      using clear by (auto simp: mkeys_iff)
    then show ?thesis using clear by (simp add: attrs_of_def same_frame_def)
  next
    case keep
    then have "attrs_of s n |` (- policy_keys s n) = attrs_of s n"
      by (auto simp: attrs_of_def restrict_map_def)
    then show ?thesis using keep by (auto simp: attrs_of_def same_frame_def mkeys_iff)
  qed
  then show "attrs_of s' m = (if m = n then attrs_of s n |` (- policy_keys s n) else attrs_of s m)"
    and pk: "map_of (policyAttrKeys s') m = (if m = n then None else map_of (policyAttrKeys s) m)"
    and "b \<longleftrightarrow> policy_keys s n \<noteq> {} \<and> n \<in> mkeys (allocatable s)"
    and "same_frame s s'" by blast+
  from pk show "policy_keys s' m = (if m = n then {} else policy_keys s m)"
    by (simp add: policy_keys_def)
qed

lemma clear_step [simp]:
  fixes s n
  defines "t \<equiv> snd (clearPolicyAttributes s n)"
  shows "attrs_of t = (attrs_of s)(n := attrs_of s n |` (- policy_keys s n))"
    and "map_of (policyAttrKeys t) = (map_of (policyAttrKeys s))(n := None)"
    and "policy_keys t = (policy_keys s)(n := {})"
    and "fst (clearPolicyAttributes s n) \<longleftrightarrow> policy_keys s n \<noteq> {} \<and> n \<in> mkeys (allocatable s)"
    and "same_frame s t" and "mkeys (allocatable t) = mkeys (allocatable s)"
proof -
  have "clearPolicyAttributes s n = (fst (clearPolicyAttributes s n), t)" by (simp add: t_def)
  note eff = clearPolicyAttributes_effect[OF this]
  show "attrs_of t = (attrs_of s)(n := attrs_of s n |` (- policy_keys s n))"
    and "map_of (policyAttrKeys t) = (map_of (policyAttrKeys s))(n := None)"
    and "policy_keys t = (policy_keys s)(n := {})"
    by (simp_all add: fun_eq_iff eff(1) eff(2) eff(3))
  show "fst (clearPolicyAttributes s n) \<longleftrightarrow> policy_keys s n \<noteq> {} \<and> n \<in> mkeys (allocatable s)"
    and "same_frame s t" by (rule eff(4), rule eff(5))
  then show "mkeys (allocatable t) = mkeys (allocatable s)" by (simp add: same_frame_def)
qed

lemma clear_unmatched_Cons:
  "clear_unmatched P ch s (n # ns) =
     (if n \<in> mkeys P then clear_unmatched P ch s ns
      else clear_unmatched P (ch \<or> fst (clearPolicyAttributes s n)) (snd (clearPolicyAttributes s n)) ns)"
  by (simp add: mhas_iff case_prod_beta)

lemma clear_unmatched_frame: "same_frame s (snd (clear_unmatched P ch s ns))"
  by (induction ns arbitrary: ch s)
     (auto simp: clear_unmatched_Cons simp del: clear_unmatched.simps(2) intro: same_frame_trans[OF clear_step(5)])

lemma clear_unmatched_attrs:
  "attrs_of (snd (clear_unmatched P ch s ns)) m =
     (if m \<in> set ns - mkeys P then attrs_of s m |` (- policy_keys s m) else attrs_of s m)"
  by (induction ns arbitrary: ch s)
     (auto simp: clear_unmatched_Cons simp del: clear_unmatched.simps(2))

lemma clear_unmatched_map_of:
  "map_of (policyAttrKeys (snd (clear_unmatched P ch s ns))) m =
     (if m \<in> set ns - mkeys P then None else map_of (policyAttrKeys s) m)"
  by (induction ns arbitrary: ch s)
     (auto simp: clear_unmatched_Cons simp del: clear_unmatched.simps(2))

lemma clear_unmatched_changed:
  "fst (clear_unmatched P ch s ns) \<longleftrightarrow>
     ch \<or> (\<exists>n \<in> set ns - mkeys P. policy_keys s n \<noteq> {} \<and> n \<in> mkeys (allocatable s))"
proof (induction ns arbitrary: ch s)
  case (Cons n ns)
  show ?case
  proof (cases "n \<in> mkeys P")
    case True
    then show ?thesis
      unfolding clear_unmatched_Cons by (simp add: Cons.IH insert_Diff_if)
  next
    case False
    have "((policy_keys s)(n := {})) k \<noteq> {} \<longleftrightarrow> k \<noteq> n \<and> policy_keys s k \<noteq> {}" for k by simp
    then show ?thesis
      unfolding clear_unmatched_Cons using False by (simp only: Cons.IH clear_step if_False) auto
  qed
qed simp

text \<open>The attributes one matched device ends up with.\<close>

definition overlay :: "Manager \<Rightarrow> string \<Rightarrow> attributes \<Rightarrow> QualifiedName \<rightharpoonup> DeviceAttribute" where
  "overlay s n a = (attrs_of s n ++ permitted a) |` (- (policy_keys s n - dom (permitted a)))"

text \<open>Whether the round for this device reports a change.\<close>

definition overlay_changes :: "Manager \<Rightarrow> string \<Rightarrow> attributes \<Rightarrow> bool" where
  "overlay_changes s n a \<longleftrightarrow>
     attrs_of s n ++ permitted a \<noteq> attrs_of s n \<or> \<not> policy_keys s n \<subseteq> dom (permitted a)"

lemma apply_step:
  fixes s n ch a
  assumes wf: "wf_map a" and n: "n \<in> mkeys (allocatable s)"
  defines "t \<equiv> snd (apply_policy_device s ch n a)"
  shows "attrs_of t = (attrs_of s)(n := overlay s n a)"
    and "policy_keys t = (policy_keys s)(n := dom (permitted a))"
    and "mkeys (policyAttrKeys t) = insert n (mkeys (policyAttrKeys s))"
    and "fst (apply_policy_device s ch n a) \<longleftrightarrow> ch \<or> overlay_changes s n a"
    and "same_frame s t" and "mkeys (allocatable t) = mkeys (allocatable s)"
proof -
  obtain d where d: "map_of (allocatable s) n = Some d" using n by (auto simp: mkeys_iff)
  obtain da nk c1 where sp: "set_policy_attrs (dev_Attributes d) [] ch a = (da, nk, c1)" by (metis prod.exhaust)
  note sps = set_policy_attrs_spec[OF wf sp]
  obtain da' c2 where cs: "(case map_of (policyAttrKeys s) n of None \<Rightarrow> (da, c1)
      | Some oldKeys \<Rightarrow> clear_stale nk da c1 oldKeys) = (da', c2)" by (metis prod.exhaust)
  have cs': "map_of da' = (map_of da) |` (- (policy_keys s n - set nk))" "c2 \<longleftrightarrow> c1 \<or> \<not> policy_keys s n \<subseteq> set nk"
    using cs clear_stale_spec[of nk da c1 _ da' c2] by (auto simp: policy_keys_def split: option.splits)
  have app: "apply_policy_device s ch n a = (c2, s\<lparr>allocatable := mput (allocatable s) n (d\<lparr>dev_Attributes := da'\<rparr>),
      policyAttrKeys := mput (policyAttrKeys s) n nk\<rparr>)" using d sp cs by (simp add: apply_policy_device_def)
  have attrs: "attrs_of s n = map_of (dev_Attributes d)" using d by (simp add: attrs_of_def)
  show "attrs_of t = (attrs_of s)(n := overlay s n a)"
    using cs'(1) sps(1,2) by (auto simp: fun_eq_iff overlay_def attrs t_def app) (simp_all add: attrs_of_def)
  show "policy_keys t = (policy_keys s)(n := dom (permitted a))" using sps(2) by (simp add: t_def app fun_eq_iff policy_keys_def)
  show "mkeys (policyAttrKeys t) = insert n (mkeys (policyAttrKeys s))" by (simp add: t_def app)
  show "fst (apply_policy_device s ch n a) \<longleftrightarrow> ch \<or> overlay_changes s n a"
    using cs'(2) sps(2,3) attrs by (simp add: app overlay_changes_def)
  show frame: "same_frame s t" using n by (simp add: t_def app same_frame_def insert_absorb)
  then show "mkeys (allocatable t) = mkeys (allocatable s)" by (simp add: same_frame_def)
qed

lemma apply_skip: "n \<notin> mkeys (allocatable s) \<Longrightarrow> apply_policy_device s ch n a = (ch, s)"
  by (simp add: apply_policy_device_def mkeys_dom domIff)

definition wf_policies :: "(string, attributes) gomap \<Rightarrow> bool" where
  "wf_policies P \<longleftrightarrow> wf_map P \<and> (\<forall>(n, a) \<in> set P. wf_map a)"

lemma wf_policies_Cons: "wf_policies ((n, a) # P) \<longleftrightarrow> n \<notin> mkeys P \<and> wf_map a \<and> wf_policies P"
  by (auto simp: wf_policies_def)

lemma wf_policies_lookup: "wf_policies P \<Longrightarrow> map_of P n = Some a \<Longrightarrow> wf_map a"
  by (auto simp: wf_policies_def dest: map_of_SomeD)

lemma overlay_cong:
  "attrs_of t n = attrs_of s n \<Longrightarrow> policy_keys t n = policy_keys s n \<Longrightarrow>
   overlay t n a = overlay s n a \<and> overlay_changes t n a = overlay_changes s n a"
  by (simp add: overlay_def overlay_changes_def)

text \<open>The devices a policy set matches, with their policy attributes.\<close>

definition matched :: "Manager \<Rightarrow> (string, attributes) gomap \<Rightarrow> string \<rightharpoonup> attributes" where
  "matched s P = (map_of P) |` mkeys (allocatable s)"

lemma apply_policies_effect:
  assumes "wf_policies P"
  shows "same_frame s (snd (apply_policies ch s P)) \<and>
    attrs_of (snd (apply_policies ch s P)) m =
      (case matched s P m of None \<Rightarrow> attrs_of s m | Some a \<Rightarrow> overlay s m a) \<and>
    policy_keys (snd (apply_policies ch s P)) m =
      (case matched s P m of None \<Rightarrow> policy_keys s m | Some a \<Rightarrow> dom (permitted a)) \<and>
    mkeys (policyAttrKeys (snd (apply_policies ch s P))) =
      mkeys (policyAttrKeys s) \<union> dom (matched s P) \<and>
    (fst (apply_policies ch s P) \<longleftrightarrow>
      ch \<or> (\<exists>n a. matched s P n = Some a \<and> overlay_changes s n a))"
  using assms
proof (induction P arbitrary: ch s)
  case Nil
  then show ?case by (simp add: matched_def)
next
  case (Cons na P)
  obtain n a where na: "na = (n, a)" by (cases na)
  have wf: "n \<notin> mkeys P" "wf_map a" "wf_policies P" using Cons.prems na by (simp_all add: wf_policies_Cons)
  have nP: "map_of P n = None" using wf(1) by (simp add: mkeys_dom domIff)
  show ?case
  proof (cases "n \<in> mkeys (allocatable s)")
    case False
    then have "matched s (na # P) = matched s P" by (auto simp: matched_def na restrict_map_def)
    then show ?thesis using Cons.IH[OF wf(3), of s ch] False by (simp add: na apply_skip)
  next
    case True
    define t where "t = snd (apply_policy_device s ch n a)"
    define c where "c = fst (apply_policy_device s ch n a)"
    note st = apply_step[OF wf(2) True, of ch, folded t_def c_def]
    have eq: "apply_policies ch s (na # P) = apply_policies c t P"
      by (simp add: na t_def c_def case_prod_beta)
    have m1: "matched s (na # P) = (matched t P)(n \<mapsto> a)" and m2: "matched t P n = None"
      using True nP by (auto simp: matched_def na st(6) restrict_map_def fun_eq_iff)
    have oc: "k \<noteq> n \<Longrightarrow> overlay t k b = overlay s k b \<and> overlay_changes t k b = overlay_changes s k b" for k b
      by (rule overlay_cong) (simp_all add: st(1,2))
    have ex: "(c \<or> (\<exists>k b. matched t P k = Some b \<and> overlay_changes t k b)) \<longleftrightarrow>
        (ch \<or> (\<exists>k b. matched s (na # P) k = Some b \<and> overlay_changes s k b))"
      unfolding m1 st(4) using m2 oc by (auto split: if_splits) (metis option.distinct(1))
    have dm: "dom (matched s (na # P)) = insert n (dom (matched t P))" unfolding m1 by simp
    note ih = Cons.IH[OF wf(3), of t c]
    show ?thesis
      unfolding eq ex[symmetric] dm
      using ih same_frame_trans[OF st(5)] m2 oc
      by (cases "m = n") (auto simp: m1 st(1,2,3) split: option.splits)
  qed
qed

section \<open>The update as a whole\<close>

text \<open>What the policies add to a device.\<close>

definition policy_attrs :: "Manager \<Rightarrow> (string, attributes) gomap \<Rightarrow> string \<Rightarrow> QualifiedName \<rightharpoonup> DeviceAttribute" where
  "policy_attrs s P n = (case matched s P n of None \<Rightarrow> Map.empty | Some a \<Rightarrow> permitted a)"

lemma restrict_overlay: "(f ++ g) |` (- K \<union> dom g) = (f |` (- K)) ++ g"
  by (auto simp: fun_eq_iff restrict_map_def map_add_def split: option.splits)

lemma attrs_of_none: "n \<notin> mkeys (allocatable s) \<Longrightarrow> attrs_of s n = Map.empty"
  by (simp add: attrs_of_def mkeys_dom domIff)

lemma policy_keys_none: "n \<notin> mkeys (policyAttrKeys s) \<Longrightarrow> policy_keys s n = {}"
  by (simp add: policy_keys_def mkeys_dom domIff)

lemma permitted_not_reserved: "k \<in> dom (permitted a) \<Longrightarrow> \<not> is_reserved k"
  by (auto simp: permitted_def restrict_map_def split: if_splits)

lemma advertised_eq: "advertised s = mkeys (policyAttrKeys s) \<inter> mkeys (allocatable s)"
proof -
  have "mkeys (advertised_devices s r ns) = mkeys r \<union> (set ns \<inter> mkeys (allocatable s))" for r ns
    by (induction ns arbitrary: r) (auto simp: mkeys_iff split: option.splits)
  then show ?thesis by (auto simp: advertised_def GetAdvertisedDevices_def mkeys_def)
qed

lemma cleared_state:
  fixes s P
  defines "t \<equiv> snd (clear_unmatched P False s (map fst (policyAttrKeys s)))"
  shows "attrs_of t m = (if m \<in> mkeys P then attrs_of s m else discovery_attrs s m)"
    and "policy_keys t m = (if m \<in> mkeys P then policy_keys s m else {})"
    and "mkeys (policyAttrKeys t) = mkeys (policyAttrKeys s) \<inter> mkeys P"
    and "mkeys (allocatable t) = mkeys (allocatable s)" and "same_frame s t"
proof -
  have mo: "map_of (policyAttrKeys t) k = (if k \<in> mkeys P then map_of (policyAttrKeys s) k else None)" for k
    unfolding t_def clear_unmatched_map_of by (auto simp: map_of_eq_None_iff mkeys_dom domIff)
  show "policy_keys t m = (if m \<in> mkeys P then policy_keys s m else {})"
    by (simp add: policy_keys_def mo)
  show "mkeys (policyAttrKeys t) = mkeys (policyAttrKeys s) \<inter> mkeys P"
    by (auto simp: mkeys_dom mo domIff split: if_splits)
  show "attrs_of t m = (if m \<in> mkeys P then attrs_of s m else discovery_attrs s m)"
    unfolding t_def clear_unmatched_attrs discovery_attrs_def mkeys_eq_map_fst[symmetric]
    using policy_keys_none[of m s] by auto
  show "same_frame s t" unfolding t_def by (rule clear_unmatched_frame)
  then show "mkeys (allocatable t) = mkeys (allocatable s)" by (simp add: same_frame_def)
qed

lemma update_policy_state_split:
  "update_policy_state s P =
     (let r = clear_unmatched P False s (map fst (policyAttrKeys s))
      in apply_policies (fst r \<or> advertised_set_changed P (snd r)) (snd r) P)"
  by (simp add: update_policy_state_def case_prod_beta Let_def)

lemma update_policy_state_effect:
  fixes s P
  assumes "wf_policies P"
  defines "u \<equiv> snd (update_policy_state s P)"
  shows "attrs_of u n = discovery_attrs s n ++ policy_attrs s P n"
    and "mkeys (policyAttrKeys u) = (mkeys (policyAttrKeys s) \<inter> mkeys P) \<union> dom (matched s P)"
    and "policy_keys u n = (case matched s P n of
           None \<Rightarrow> (if n \<in> mkeys P then policy_keys s n else {}) | Some a \<Rightarrow> dom (permitted a))"
    and "same_frame s u"
proof -
  define t where "t = snd (clear_unmatched P False s (map fst (policyAttrKeys s)))"
  obtain c where u: "u = snd (apply_policies c t P)"
    unfolding u_def t_def update_policy_state_split Let_def by blast
  note cl = cleared_state[where s = s and P = P, folded t_def]
  have m: "matched t P = matched s P" by (simp add: matched_def cl(4))
  note eff = apply_policies_effect[OF assms(1), of t c, folded u, unfolded m]
  show "same_frame s u" using same_frame_trans[OF cl(5)] eff by blast
  show "mkeys (policyAttrKeys u) = (mkeys (policyAttrKeys s) \<inter> mkeys P) \<union> dom (matched s P)"
    using eff cl(3) by simp
  show "policy_keys u n = (case matched s P n of
      None \<Rightarrow> (if n \<in> mkeys P then policy_keys s n else {}) | Some a \<Rightarrow> dom (permitted a))"
    using eff[of n] cl(2)[of n] by (cases "matched s P n") simp_all
  show "attrs_of u n = discovery_attrs s n ++ policy_attrs s P n"
  proof (cases "matched s P n")
    case (Some a)
    then have "n \<in> mkeys P" by (auto simp: matched_def restrict_map_def mkeys_iff split: if_splits)
    then have "overlay t n a = discovery_attrs s n ++ permitted a"
      by (simp add: overlay_def cl(1,2) restrict_overlay discovery_attrs_def)
    then show ?thesis using eff[of n] Some by (simp add: policy_attrs_def)
  next
    case None
    then have "n \<notin> mkeys (allocatable s) \<or> n \<notin> mkeys P"
      by (auto simp: matched_def restrict_map_def mkeys_iff split: if_splits)
    then have "attrs_of t n = discovery_attrs s n"
      using cl(1)[of n] attrs_of_none[of n s] by (auto simp: discovery_attrs_def)
    then show ?thesis using eff[of n] None by (simp add: policy_attrs_def)
  qed
qed

lemma update_policy_state_inv:
  fixes s P
  assumes wf: "wf_policies P" and inv: "manager_inv s"
  defines "u \<equiv> snd (update_policy_state s P)"
  shows "manager_inv u" and "discovery_attrs u = discovery_attrs s"
    and "mkeys (policyAttrKeys u) = mkeys P \<inter> mkeys (allocatable s)"
    and "policy_keys u n = dom (policy_attrs s P n)"
proof -
  note eff = update_policy_state_effect[OF wf, of s, folded u_def]
  have sub: "mkeys (policyAttrKeys s) \<subseteq> mkeys (allocatable s)"
    and res: "\<And>n k. k \<in> dom (discovery_attrs s n) \<Longrightarrow> is_reserved k"
    using inv by (auto simp: manager_inv_def)
  have dm: "dom (matched s P) = mkeys P \<inter> mkeys (allocatable s)" by (auto simp: matched_def mkeys_dom)
  show mk: "mkeys (policyAttrKeys u) = mkeys P \<inter> mkeys (allocatable s)"
    using eff(2) sub dm by blast
  show pk: "policy_keys u n = dom (policy_attrs s P n)" for n
  proof (cases "matched s P n")
    case None
    then have "n \<notin> mkeys P \<inter> mkeys (allocatable s)" using dm by blast
    then have "(if n \<in> mkeys P then policy_keys s n else {}) = {}"
      using sub policy_keys_none[of n s] by auto
    then show ?thesis using eff(3)[of n] None by (simp add: policy_attrs_def)
  qed (simp add: eff(3) policy_attrs_def)
  have nr: "k \<in> dom (policy_attrs s P n) \<Longrightarrow> \<not> is_reserved k" for n k
    using permitted_not_reserved by (auto simp: policy_attrs_def split: option.splits)
  show da: "discovery_attrs u = discovery_attrs s"
  proof (intro ext)
    fix n k
    show "discovery_attrs u n k = discovery_attrs s n k"
      using res[of k n] nr[of k n]
      by (cases "discovery_attrs s n k"; cases "policy_attrs s P n k")
         (auto simp: discovery_attrs_def[of u] pk eff(1) restrict_map_def map_add_def)
  qed
  have keys: "map_of (policyAttrKeys u) n = Some ks \<Longrightarrow> k \<in> set ks \<Longrightarrow> \<not> is_reserved k" for n ks k
    using nr[of k n] pk[of n] by (simp add: policy_keys_def)
  show "manager_inv u"
    using eff(4) inv keys res mk da unfolding manager_inv_def same_frame_def by auto
qed

section \<open>When the update reports no change\<close>

lemma changed_iff:
  assumes "wf_policies P"
  shows "fst (update_policy_state s P) \<longleftrightarrow>
    (\<exists>n \<in> mkeys (policyAttrKeys s) - mkeys P. policy_keys s n \<noteq> {} \<and> n \<in> mkeys (allocatable s)) \<or>
    advertised_set_changed P (snd (clear_unmatched P False s (map fst (policyAttrKeys s)))) \<or>
    (\<exists>n a. matched s P n = Some a \<and> overlay_changes s n a)"
proof -
  define t where "t = snd (clear_unmatched P False s (map fst (policyAttrKeys s)))"
  note cl = cleared_state[where s = s and P = P, folded t_def]
  have m: "matched t P = matched s P" by (simp add: matched_def cl(4))
  have oc: "matched s P n = Some a \<Longrightarrow> overlay_changes t n a = overlay_changes s n a" for n a
    using overlay_cong[of t n s a] cl(1,2)[of n]
    by (auto simp: matched_def restrict_map_def mkeys_iff split: if_splits)
  show ?thesis
    using apply_policies_effect[OF assms, of t "fst (clear_unmatched P False s (map fst (policyAttrKeys s))) \<or>
        advertised_set_changed P t"] m oc
      clear_unmatched_changed[of P False s "map fst (policyAttrKeys s)"]
    unfolding update_policy_state_split Let_def t_def[symmetric] mkeys_eq_map_fst[symmetric, of "policyAttrKeys s"]
    by auto
qed

lemma set_unchanged:
  assumes "\<not> advertised_set_changed P (snd (clear_unmatched P False s (map fst (policyAttrKeys s))))"
  shows "mkeys P \<subseteq> mkeys (policyAttrKeys s)"
proof -
  define t where "t = snd (clear_unmatched P False s (map fst (policyAttrKeys s)))"
  have "mkeys P \<subseteq> mkeys (policyAttrKeys t)"
    using assms unfolding t_def[symmetric]
    by (auto simp: advertised_set_changed_def list_ex_iff mhas_iff mkeys_def split: if_splits)
  then show ?thesis using cleared_state(3)[where s = s and P = P] by (auto simp: t_def)
qed

lemma set_same:
  assumes wf: "wf_policies P" and inv: "manager_inv s" and eq: "mkeys P = mkeys (policyAttrKeys s)"
  shows "\<not> advertised_set_changed P (snd (clear_unmatched P False s (map fst (policyAttrKeys s))))"
proof -
  define t where "t = snd (clear_unmatched P False s (map fst (policyAttrKeys s)))"
  note cl = cleared_state[where s = s and P = P, folded t_def]
  have "wf_map (policyAttrKeys t)" "wf_map P"
    using wf inv cl(5) by (auto simp: same_frame_def manager_inv_def wf_policies_def)
  then have "length (policyAttrKeys t) = length P" using cl(3) eq by (simp add: length_wf_map)
  moreover have "n \<in> mkeys P" if "(n, a) \<in> set P" for n a
    using that by (force simp: mkeys_def)
  then have "mhas (policyAttrKeys t) n" if "(n, a) \<in> set P" for n a
    using that by (simp add: mhas_iff cl(3) eq)
  ultimately show ?thesis
    unfolding t_def[symmetric] advertised_set_changed_def list_ex_iff by force
qed

section \<open>Properties\<close>

lemma UpdatePolicyDevices_state: "snd (fst (UpdatePolicyDevices cb s P w)) = snd (update_policy_state s P)"
  by (auto simp: UpdatePolicyDevices_def case_prod_beta split: option.split res.split)

lemma UpdatePolicyDevices_quiet:
  "\<not> fst (update_policy_state s P) \<Longrightarrow>
   UpdatePolicyDevices cb s P w = ((Ok (), snd (update_policy_state s P)), w)"
  by (simp add: UpdatePolicyDevices_def case_prod_beta)

text \<open>A manager with one discovered device, used to evaluate the operations.\<close>

definition example_device :: Device where
  "example_device = \<lparr>dev_Name = ''vf0'', dev_Attributes = [(AttributeVendorID, str_attr ''8086'')]\<rparr>"

definition example_manager :: Manager where
  "example_manager = \<lparr>defaultInterfacePrefix = ''vfnet'', allocatable = [(''vf0'', example_device)],
     policyAttrKeys = [], configurationMode = ConfigurationModeStandalone, iommuAvailable = False\<rparr>"

lemma example_manager_inv: "manager_inv (example_manager\<lparr>policyAttrKeys := ks\<rparr>)" if "ks \<in> {[], [(''vf0'', [])]}"
  using that
  by (auto simp: manager_inv_def example_manager_def example_device_def discovery_attrs_def attrs_of_def
      policy_keys_def is_reserved_def ReservedAttributes_def restrict_map_def split: if_splits)

text \<open>C3. \<^verbatim>\<open>UpdatePolicyDevices\<close> refines its specification: whatever the republish callback does and in
  whatever order Go ranges over its maps, afterwards exactly the discovered devices among the matched
  ones are advertised, every device carries its discovery attributes plus the non-reserved policy
  attributes of its match, the discovery attributes are untouched, and the invariant holds again.\<close>

theorem UpdatePolicyDevices_refines:
  fixes s P cb w
  assumes "manager_inv s" "wf_policies P"
  defines "u \<equiv> snd (fst (UpdatePolicyDevices cb s P w))"
  shows "advertised u = mkeys P \<inter> mkeys (allocatable s) \<and>
    (\<forall>n. attrs_of u n = discovery_attrs s n ++ policy_attrs s P n) \<and>
    discovery_attrs u = discovery_attrs s \<and> mkeys (allocatable u) = mkeys (allocatable s) \<and> manager_inv u"
proof -
  note inv = update_policy_state_inv[OF assms(2,1)] and eff = update_policy_state_effect[OF assms(2), of s]
  show ?thesis
    unfolding u_def UpdatePolicyDevices_state advertised_eq
    using inv eff by (auto simp: same_frame_def)
qed

theorem UpdatePolicyDevices_refines_witness:
  "manager_inv example_manager \<and>
   advertised (snd (fst (UpdatePolicyDevices None example_manager [(''vf0'', [(''x'', str_attr ''y'')])] ()))) = {''vf0''} \<and>
   attrs_of (snd (fst (UpdatePolicyDevices None example_manager [(''vf0'', [(''x'', str_attr ''y'')])] ()))) ''vf0'' ''x''
     = Some (str_attr ''y'')"
proof -
  have inv: "manager_inv example_manager" using example_manager_inv[of "[]"] by (simp add: example_manager_def)
  have "wf_policies [(''vf0'', [(''x'', str_attr ''y'')])]" by (simp add: wf_policies_def)
  from UpdatePolicyDevices_refines[OF inv this, of None "()"] inv show ?thesis
    by (simp add: example_manager_def matched_def policy_attrs_def permitted_def is_reserved_def
        ReservedAttributes_def attribute_defs)
qed

text \<open>Applying policies and then withdrawing all of them gives every device the attributes it had
  from discovery, and advertises nothing.\<close>

theorem UpdatePolicyDevices_withdraw_restores:
  fixes s P cb w cb' w'
  assumes "manager_inv s" "wf_policies P"
  defines "u \<equiv> snd (fst (UpdatePolicyDevices cb s P w))"
  defines "v \<equiv> snd (fst (UpdatePolicyDevices cb' u [] w'))"
  shows "attrs_of v = discovery_attrs s \<and> advertised v = {}"
proof -
  have u: "manager_inv u" "discovery_attrs u = discovery_attrs s"
    using update_policy_state_inv[OF assms(2,1)] by (simp_all add: u_def UpdatePolicyDevices_state)
  have nil: "wf_policies []" by (simp add: wf_policies_def)
  have "attrs_of v n = discovery_attrs s n" for n
    using update_policy_state_effect(1)[OF nil, of u n] u(2)
    by (simp add: v_def UpdatePolicyDevices_state policy_attrs_def matched_def)
  then show ?thesis
    using update_policy_state_inv(3)[OF nil u(1)] by (auto simp: v_def UpdatePolicyDevices_state advertised_eq)
qed

theorem UpdatePolicyDevices_withdraw_restores_witness:
  "attrs_of (snd (fst (UpdatePolicyDevices None (snd (fst (UpdatePolicyDevices None example_manager
     [(''vf0'', [(''x'', str_attr ''y'')])] ()))) [] ()))) = discovery_attrs example_manager \<and>
   discovery_attrs example_manager ''vf0'' AttributeVendorID = Some (str_attr ''8086'')"
proof -
  have inv: "manager_inv example_manager" using example_manager_inv[of "[]"] by (simp add: example_manager_def)
  have "wf_policies [(''vf0'', [(''x'', str_attr ''y'')])]" by (simp add: wf_policies_def)
  note r = UpdatePolicyDevices_withdraw_restores[OF inv this, of None None "()" "()"]
  have "discovery_attrs example_manager ''vf0'' AttributeVendorID = Some (str_attr ''8086'')"
    by (simp add: example_manager_def example_device_def discovery_attrs_def attrs_of_def policy_keys_def)
  with r show ?thesis by blast
qed

text \<open>An update that does not republish leaves the attributes of every device as they were and
  advertises no device that was not advertised before: nothing new is kept from the scheduler.\<close>

theorem UpdatePolicyDevices_quiet_sound:
  fixes s P cb w
  assumes "manager_inv s" "wf_policies P" "\<not> fst (update_policy_state s P)"
  defines "u \<equiv> snd (fst (UpdatePolicyDevices cb s P w))"
  shows "attrs_of u = attrs_of s \<and> advertised u \<subseteq> advertised s \<and>
    UpdatePolicyDevices cb s P w = ((Ok (), u), w)"
proof -
  have quiet: "\<And>n. n \<in> mkeys (policyAttrKeys s) - mkeys P \<Longrightarrow> policy_keys s n = {}"
      "\<And>n a. matched s P n = Some a \<Longrightarrow> \<not> overlay_changes s n a"
      "\<not> advertised_set_changed P (snd (clear_unmatched P False s (map fst (policyAttrKeys s))))"
    using assms(1,3) unfolding changed_iff[OF assms(2)] manager_inv_def by auto
  have "attrs_of u n = attrs_of s n" for n
  proof (cases "matched s P n")
    case (Some a)
    have eq: "attrs_of s n ++ permitted a = attrs_of s n" "policy_keys s n \<subseteq> dom (permitted a)"
      using quiet(2)[OF Some] by (auto simp: overlay_changes_def)
    have "discovery_attrs s n ++ permitted a = attrs_of s n ++ permitted a"
      using eq(2) by (auto simp: fun_eq_iff discovery_attrs_def restrict_map_def map_add_def split: option.split)
    then show ?thesis
      using update_policy_state_effect(1)[OF assms(2), of s n] Some eq(1)
      by (simp add: u_def UpdatePolicyDevices_state policy_attrs_def)
  next
    case None
    then have "n \<notin> mkeys P \<or> n \<notin> mkeys (allocatable s)"
      by (auto simp: matched_def restrict_map_def mkeys_iff split: if_splits)
    then have "policy_keys s n = {}"
      using quiet(1)[of n] policy_keys_none[of n s] assms(1) by (auto simp: manager_inv_def)
    then have "discovery_attrs s n = attrs_of s n" by (simp add: discovery_attrs_def restrict_map_def)
    then show ?thesis
      using update_policy_state_effect(1)[OF assms(2), of s n] None
      by (simp add: u_def UpdatePolicyDevices_state policy_attrs_def)
  qed
  moreover have "advertised u \<subseteq> advertised s"
    using update_policy_state_inv(3)[OF assms(2,1)] set_unchanged[OF quiet(3)]
      update_policy_state_effect(4)[OF assms(2), of s]
    by (auto simp: u_def UpdatePolicyDevices_state advertised_eq same_frame_def)
  ultimately show ?thesis
    using UpdatePolicyDevices_quiet[OF assms(3), of cb w] by (auto simp: u_def UpdatePolicyDevices_state)
qed

theorem UpdatePolicyDevices_quiet_sound_witness:
  "UpdatePolicyDevices None (example_manager\<lparr>policyAttrKeys := [(''vf0'', [])]\<rparr>) [(''vf0'', [])] () =
     ((Ok (), snd (fst (UpdatePolicyDevices None (example_manager\<lparr>policyAttrKeys := [(''vf0'', [])]\<rparr>)
        [(''vf0'', [])] ()))), ())"
proof -
  have "wf_policies [(''vf0'', [])]" by (simp add: wf_policies_def)
  moreover have "\<not> fst (update_policy_state (example_manager\<lparr>policyAttrKeys := [(''vf0'', [])]\<rparr>) [(''vf0'', [])])"
    by (simp add: update_policy_state_def example_manager_def example_device_def mhas_def
        advertised_set_changed_def apply_policy_device_def)
  ultimately show ?thesis
    using UpdatePolicyDevices_quiet_sound[OF example_manager_inv, of "[(''vf0'', [])]" "[(''vf0'', [])]" None "()"]
    by blast
qed

lemma repeat_unchanged:
  fixes s P Q
  assumes inv: "manager_inv s" and wf: "wf_policies P" "wf_policies Q" and sub: "mkeys P \<subseteq> mkeys (allocatable s)"
    and eq: "map_of Q = map_of P"
  defines "u \<equiv> snd (update_policy_state s P)"
  shows "\<not> fst (update_policy_state u Q)"
proof -
  note i = update_policy_state_inv[OF wf(1) inv, folded u_def]
    and e = update_policy_state_effect[OF wf(1), of s, folded u_def]
  have alloc: "mkeys (allocatable u) = mkeys (allocatable s)" using e(4) by (simp add: same_frame_def)
  have keys: "mkeys (policyAttrKeys u) = mkeys Q" using i(3) sub eq by (auto simp: mkeys_dom)
  have "\<not> overlay_changes u n a" if "matched u Q n = Some a" for n a
  proof -
    have "matched s P n = Some a" using that eq by (simp add: matched_def alloc)
    then have "policy_attrs s P n = permitted a" by (simp add: policy_attrs_def)
    then show ?thesis using e(1)[of n] i(4)[of n]
      by (simp add: overlay_changes_def) (simp add: map_add_def fun_eq_iff split: option.split)
  qed
  then show ?thesis
    using keys set_same[OF wf(2) i(1)] by (auto simp: changed_iff[OF wf(2)])
qed

text \<open>Reconciling again with the same policies settles: when every matched device was discovered, a
  second update with the same devices neither calls the callback nor changes an attribute or the
  advertised set, so a periodic resync does not republish the slice forever.\<close>

theorem UpdatePolicyDevices_idempotent:
  fixes s P cb w cb' w'
  assumes "manager_inv s" "wf_policies P" "mkeys P \<subseteq> mkeys (allocatable s)"
  defines "u \<equiv> snd (fst (UpdatePolicyDevices cb s P w))"
  defines "v \<equiv> snd (fst (UpdatePolicyDevices cb' u P w'))"
  shows "UpdatePolicyDevices cb' u P w' = ((Ok (), v), w') \<and> attrs_of v = attrs_of u \<and> advertised v = advertised u"
proof -
  have u: "u = snd (update_policy_state s P)" by (simp add: u_def UpdatePolicyDevices_state)
  have q: "\<not> fst (update_policy_state u P)" unfolding u by (rule repeat_unchanged[OF assms(1,2,2,3)]) simp
  note i = update_policy_state_inv[OF assms(2,1), folded u]
    and i2 = update_policy_state_inv[OF assms(2) update_policy_state_inv(1)[OF assms(2,1)], folded u]
  have alloc: "mkeys (allocatable u) = mkeys (allocatable s)"
    using update_policy_state_effect(4)[OF assms(2), of s] by (simp add: u same_frame_def)
  have v: "v = snd (update_policy_state u P)" by (simp add: v_def UpdatePolicyDevices_state)
  have "mkeys (allocatable v) = mkeys (allocatable u)"
    using update_policy_state_effect(4)[OF assms(2), of u] by (simp add: v same_frame_def)
  then have "advertised v = advertised u" using i(3) i2(3) by (simp add: advertised_eq alloc v)
  moreover have "attrs_of v n = attrs_of u n" for n
    using update_policy_state_effect(1)[OF assms(2), of s n] update_policy_state_effect(1)[OF assms(2), of u n] i(2)
    by (simp add: u[symmetric] v[symmetric] policy_attrs_def matched_def alloc)
  ultimately show ?thesis using UpdatePolicyDevices_quiet[OF q, of cb' w'] v by auto
qed

theorem UpdatePolicyDevices_idempotent_witness:
  "fst (fst (UpdatePolicyDevices None (snd (fst (UpdatePolicyDevices None example_manager
     [(''vf0'', [(''x'', str_attr ''y'')])] ()))) [(''vf0'', [(''x'', str_attr ''y'')])] ())) = Ok ()"
proof -
  have inv: "manager_inv example_manager" using example_manager_inv[of "[]"] by (simp add: example_manager_def)
  have "wf_policies [(''vf0'', [(''x'', str_attr ''y'')])]"
    "mkeys [(''vf0'', [(''x'', str_attr ''y'')])] \<subseteq> mkeys (allocatable example_manager)"
    by (simp_all add: wf_policies_def example_manager_def)
  from UpdatePolicyDevices_idempotent[OF inv this, of None None "()" "()"] show ?thesis by (metis fst_conv)
qed

text \<open>C35. A republish that fails is not made up for: the manager keeps the new policy state, so the
  retry of the same update (the controller requeues after the error) finds no change and returns
  without calling the callback. The published resources stay those of before the update.\<close>

theorem UpdatePolicyDevices_lost_republish:
  fixes s P e w w'
  assumes "manager_inv s" "wf_policies P" "mkeys P \<subseteq> mkeys (allocatable s)"
    and "UpdatePolicyDevices (Some callback) s P w = ((Err e, u), w')"
  shows "\<exists>v. UpdatePolicyDevices (Some callback) u P w' = ((Ok (), v), w')"
proof -
  have "u = snd (update_policy_state s P)"
    using UpdatePolicyDevices_state[of "Some callback" s P w] assms(4) by simp
  then have "\<not> fst (update_policy_state u P)" using repeat_unchanged[OF assms(1,2,2,3)] by simp
  from UpdatePolicyDevices_quiet[OF this, of "Some callback" w'] show ?thesis by blast
qed

text \<open>A callback that always fails and counts its calls.\<close>

definition failing_callback :: "Manager \<Rightarrow> nat \<Rightarrow> unit res \<times> nat" where
  "failing_callback s w = (Err (External ''publish failed''), Suc w)"

theorem UpdatePolicyDevices_lost_republish_witness:
  "\<exists>e u v. UpdatePolicyDevices (Some failing_callback) example_manager [(''vf0'', [])] 0 = ((Err e, u), 1) \<and>
     UpdatePolicyDevices (Some failing_callback) u [(''vf0'', [])] 1 = ((Ok (), v), 1)"
proof -
  have inv: "manager_inv example_manager" using example_manager_inv[of "[]"] by (simp add: example_manager_def)
  have wf: "wf_policies [(''vf0'', [])]" "mkeys [(''vf0'', [])] \<subseteq> mkeys (allocatable example_manager)"
    by (simp_all add: wf_policies_def example_manager_def)
  obtain e u where r: "UpdatePolicyDevices (Some failing_callback) example_manager [(''vf0'', [])] 0 = ((Err e, u), 1)"
    by (simp add: UpdatePolicyDevices_def update_policy_state_def example_manager_def example_device_def mhas_def
        advertised_set_changed_def apply_policy_device_def failing_callback_def)
  from UpdatePolicyDevices_lost_republish[OF inv wf r] r show ?thesis by blast
qed

text \<open>C34. Devices that lose their policy are not always withdrawn from the published resources: when
  the devices that stop matching carried no policy attributes, the update unadvertises them but
  reports no change, so the callback is not called. Here for the removal of all policies.\<close>

theorem UpdatePolicyDevices_unadvertise_unpublished:
  fixes s cb w
  assumes "manager_inv s" "\<forall>n. policy_keys s n = {}"
  shows "\<exists>u. UpdatePolicyDevices cb s [] w = ((Ok (), u), w) \<and> advertised u = {}"
proof -
  have nil: "wf_policies []" by (simp add: wf_policies_def)
  define t where "t = snd (clear_unmatched [] False s (map fst (policyAttrKeys s)))"
  have "mkeys (policyAttrKeys t) = {}" using cleared_state(3)[where s = s and P = "[]"] by (simp add: t_def)
  then have "policyAttrKeys t = []" by (simp add: mkeys_def)
  then have "\<not> advertised_set_changed [] t" by (simp add: advertised_set_changed_def)
  then have "\<not> fst (update_policy_state s [])"
    using assms(2) by (auto simp: changed_iff[OF nil] matched_def t_def)
  from UpdatePolicyDevices_quiet[OF this, of cb w] update_policy_state_inv(3)[OF nil assms(1)]
  show ?thesis by (auto simp: advertised_eq)
qed

theorem UpdatePolicyDevices_unadvertise_unpublished_witness:
  "advertised (example_manager\<lparr>policyAttrKeys := [(''vf0'', [])]\<rparr>) = {''vf0''} \<and>
   (\<exists>u. UpdatePolicyDevices (Some failing_callback) (example_manager\<lparr>policyAttrKeys := [(''vf0'', [])]\<rparr>) [] 0 =
      ((Ok (), u), 0) \<and> advertised u = {})"
proof -
  define s where "s = example_manager\<lparr>policyAttrKeys := [(''vf0'', [])]\<rparr>"
  have "manager_inv s" "\<forall>n. policy_keys s n = {}"
    using example_manager_inv[of "[(''vf0'', [])]"] by (simp_all add: s_def policy_keys_def)
  from UpdatePolicyDevices_unadvertise_unpublished[OF this] show ?thesis
    unfolding s_def[symmetric] by (simp add: advertised_eq s_def example_manager_def)
qed

end
