(* ===== verification/Discovery.thy ===== *)
theory Discovery
  imports DriverBinding PolicyState
begin

text \<open>
  Device discovery (\<^verbatim>\<open>pkg/devicestate/discovery.go\<close>) and the constructor of the device-state manager
  (\<^verbatim>\<open>NewManager\<close> of \<^verbatim>\<open>pkg/devicestate/state.go\<close>): which PCI devices become physical functions, which
  attributes their virtual functions get, and that the manager starts in its invariant.
\<close>

section \<open>Discovery\<close>

record PFInfo =
  pf_PciAddress :: string
  pf_NetName :: string
  pf_VendorID :: string
  pf_DeviceID :: string
  pf_Address :: string
  pf_EswitchMode :: string
  pf_PCIeRoot :: string
  pf_LinkType :: string
  pf_NumaNode :: string

text \<open>One round of the loop over the PCI devices; \<open>None\<close> is a device that is skipped.\<close>

definition discover_pf :: "'w os \<Rightarrow> 'w \<Rightarrow> pci_device \<Rightarrow> PFInfo option" where
  "discover_pf os w device =
     (case ParseInt 16 (pci_ClassID device) of
        None \<Rightarrow> None
      | Some devClass \<Rightarrow>
          if devClass \<noteq> NetClass then None
          else if IsSriovVF os (pci_Address device) w then None
          else let pfNetName = TryGetPFInterfaceName os (pci_Address device) w in
            if pfNetName = [] then None
            else Some \<lparr>pf_PciAddress = pci_Address device, pf_NetName = pfNetName,
                   pf_VendorID = pci_VendorID device, pf_DeviceID = pci_ProductID device,
                   pf_Address = pci_Address device,
                   pf_EswitchMode = GetNicSriovMode os (pci_Address device) w,
                   pf_PCIeRoot = (case GetPCIeRoot os (pci_Address device) w of Ok r \<Rightarrow> r | _ \<Rightarrow> []),
                   pf_LinkType = (case GetLinkType os (pci_Address device) w of Ok l \<Rightarrow> l | _ \<Rightarrow> LinkTypeUnknown),
                   pf_NumaNode = (case GetNumaNode os (pci_Address device) w of Ok n \<Rightarrow> n | _ \<Rightarrow> ''-1'')\<rparr>)"

definition device_name :: "string \<Rightarrow> string" where
  "device_name pciAddress = ReplaceAll (ReplaceAll pciAddress (CHR '':'') ''-'') (CHR ''.'') ''-''"

definition vf_attributes :: "PFInfo \<Rightarrow> int \<Rightarrow> bool \<Rightarrow> VFInfo \<Rightarrow> attributes" where
  "vf_attributes pfInfo numaNodeInt rdmaCapable vfInfo =
     [(AttributeVendorID, str_attr (pf_VendorID pfInfo)),
      (AttributeDeviceID, str_attr (vfi_DeviceID vfInfo)),
      (AttributePFDeviceID, str_attr (pf_DeviceID pfInfo)),
      (AttributePciAddress, str_attr (vfi_PciAddress vfInfo)),
      (AttributeMultusDeviceID, str_attr (vfi_PciAddress vfInfo)),
      (AttributePFName, str_attr (pf_NetName pfInfo)),
      (AttributeEswitchMode, str_attr (pf_EswitchMode pfInfo)),
      (AttributeVFID, int_attr (vfi_VFID vfInfo)),
      (AttributePCIeRoot, str_attr (pf_PCIeRoot pfInfo)),
      (AttributePfPciAddress, str_attr (pf_PciAddress pfInfo)),
      (AttributeStandardPciAddress, str_attr (vfi_PciAddress vfInfo)),
      (AttributeLinkType, str_attr (pf_LinkType pfInfo)),
      (AttributeRDMACapable, bool_attr rdmaCapable),
      (AttributeNUMANode, int_attr numaNodeInt)]"

definition vf_device :: "'w os \<Rightarrow> 'w \<Rightarrow> PFInfo \<Rightarrow> int \<Rightarrow> VFInfo \<Rightarrow> Device" where
  "vf_device os w pfInfo numaNodeInt vfInfo =
     \<lparr>dev_Name = device_name (vfi_PciAddress vfInfo),
      dev_Attributes = vf_attributes pfInfo numaNodeInt (VerifyRDMACapability os (vfi_PciAddress vfInfo) w) vfInfo\<rparr>"

text \<open>The loop over the physical functions; the first failing list of VFs ends the discovery.\<close>

fun discover_vfs :: "'w os \<Rightarrow> 'w \<Rightarrow> AllocatableDevices \<Rightarrow> PFInfo list \<Rightarrow> AllocatableDevices res" where
  "discover_vfs os w resourceList [] = Ok resourceList"
| "discover_vfs os w resourceList (pfInfo # pfList) =
     bind_res (wrap_err ''error getting VF list: %v'' (GetVFList os (pf_Address pfInfo) w)) (\<lambda>vfList.
       let numaNodeInt = (case ParseInt 10 (pf_NumaNode pfInfo) of Some n \<Rightarrow> n | None \<Rightarrow> -1) in
       discover_vfs os w
         (foldl (\<lambda>acc vfInfo. let d = vf_device os w pfInfo numaNodeInt vfInfo in mput acc (dev_Name d) d)
            resourceList vfList) pfList)"

definition DiscoverSriovDevices :: "'w os \<Rightarrow> 'w \<Rightarrow> AllocatableDevices res" where
  "DiscoverSriovDevices os w =
     bind_res (wrap_err ''error getting PCI info: %v'' (PCI os w)) (\<lambda>devices.
       if length devices = 0 then Err (Errorf ''could not retrieve PCI devices'' [])
       else discover_vfs os w [] (List.map_filter (discover_pf os w) devices))"

section \<open>The manager's constructor\<close>

text \<open>The flags of \<^verbatim>\<open>pkg/types/config.go\<close>, without those of the Kubernetes client and of logging. A nil
  configuration, nil flags or a nil CDI handler are \<open>None\<close> or \<open>False\<close>.\<close>

record Flags =
  fl_NodeName :: string
  fl_Namespace :: string
  fl_CdiRoot :: string
  fl_KubeletRegistrarDirectoryPath :: string
  fl_KubeletPluginsDirectoryPath :: string
  fl_HealthcheckPort :: int
  fl_MetricsBindAddress :: string
  fl_DefaultInterfacePrefix :: string
  fl_ConfigurationMode :: string
  fl_EnableDeviceMetadata :: bool

definition NewManager :: "'w os \<Rightarrow> Flags option option \<Rightarrow> bool \<Rightarrow> 'w \<Rightarrow> Manager res" where
  "NewManager os config has_cdi w =
     (case config of
        None \<Rightarrow> Err (Errorf ''config must not be nil'' [])
      | Some None \<Rightarrow> Err (Errorf ''config flags must not be nil'' [])
      | Some (Some flags) \<Rightarrow>
          if \<not> has_cdi then Err (Errorf ''cdi handler must not be nil'' [])
          else bind_res (normalizeConfigurationMode (fl_ConfigurationMode flags)) (\<lambda>mode.
            bind_res (wrap_err ''error enumerating all possible devices: %v'' (DiscoverSriovDevices os w)) (\<lambda>devices.
              Ok \<lparr>defaultInterfacePrefix = fl_DefaultInterfacePrefix flags, allocatable = devices,
                  policyAttrKeys = [], configurationMode = mode, iommuAvailable = IsIommufdAvailable os w\<rparr>)))"

section \<open>Lemmas\<close>

text \<open>A device as discovery makes it: named after its PCI address, with exactly the reserved attributes.\<close>

definition discovered_device :: "string \<Rightarrow> Device \<Rightarrow> bool" where
  "discovered_device name d \<longleftrightarrow> dev_Name d = name \<and> wf_map (dev_Attributes d) \<and>
     mkeys (dev_Attributes d) = {k. is_reserved k} \<and>
     (\<exists>addr. name = device_name addr \<and> map_of (dev_Attributes d) AttributePciAddress = Some (str_attr addr) \<and>
        map_of (dev_Attributes d) AttributeMultusDeviceID = Some (str_attr addr) \<and>
        map_of (dev_Attributes d) AttributeStandardPciAddress = Some (str_attr addr))"

lemma vf_attributes_keys: "map fst (vf_attributes pf nn rc vf) = ReservedAttributes"
  by (simp add: vf_attributes_def ReservedAttributes_def)

lemma ReservedAttributes_distinct: "distinct ReservedAttributes"
  by (simp add: ReservedAttributes_def attribute_defs)

lemma vf_device_discovered: "discovered_device (dev_Name (vf_device os w pf nn vf)) (vf_device os w pf nn vf)"
proof -
  define m where "m = vf_attributes pf nn (VerifyRDMACapability os (vfi_PciAddress vf) w) vf"
  have wf: "wf_map m" using ReservedAttributes_distinct by (simp add: wf_map_def m_def vf_attributes_keys)
  have keys: "mkeys m = {k. is_reserved k}"
    by (simp add: mkeys_eq_map_fst m_def vf_attributes_keys is_reserved_def)
  have "(AttributePciAddress, str_attr (vfi_PciAddress vf)) \<in> set m"
    "(AttributeMultusDeviceID, str_attr (vfi_PciAddress vf)) \<in> set m"
    "(AttributeStandardPciAddress, str_attr (vfi_PciAddress vf)) \<in> set m"
    by (simp_all add: m_def vf_attributes_def)
  then show ?thesis
    using wf keys by (auto simp: discovered_device_def vf_device_def m_def[symmetric] map_of_in_set)
qed

definition all_discovered :: "AllocatableDevices \<Rightarrow> bool" where
  "all_discovered devs \<longleftrightarrow> wf_map devs \<and> (\<forall>n d. map_of devs n = Some d \<longrightarrow> discovered_device n d)"

lemma all_discovered_mput:
  "all_discovered devs \<Longrightarrow> discovered_device (dev_Name d) d \<Longrightarrow> all_discovered (mput devs (dev_Name d) d)"
  by (simp add: all_discovered_def)

lemma all_discovered_foldl:
  assumes "\<And>x. discovered_device (dev_Name (f x)) (f x)"
  shows "all_discovered devs \<Longrightarrow> all_discovered (foldl (\<lambda>acc x. let d = f x in mput acc (dev_Name d) d) devs xs)"
proof (induction xs arbitrary: devs)
  case (Cons x xs)
  then show ?case using all_discovered_mput[OF Cons.prems assms[of x]] by (simp add: Let_def)
qed simp

lemma discover_vfs_inv:
  "all_discovered acc \<Longrightarrow> discover_vfs os w acc pfs = Ok devs \<Longrightarrow> all_discovered devs"
proof (induction pfs arbitrary: acc)
  case (Cons pf pfs)
  define f where "f = vf_device os w pf (case ParseInt 10 (pf_NumaNode pf) of Some n \<Rightarrow> n | None \<Rightarrow> -1)"
  obtain vfs where "discover_vfs os w (foldl (\<lambda>acc x. let d = f x in mput acc (dev_Name d) d) acc vfs) pfs = Ok devs"
    using Cons.prems(2) by (auto simp: f_def Let_def)
  moreover have "discovered_device (dev_Name (f x)) (f x)" for x unfolding f_def by (rule vf_device_discovered)
  ultimately show ?case using Cons.IH all_discovered_foldl[of f, OF _ Cons.prems(1)] by blast
qed simp

lemma DiscoverSriovDevices_inv:
  assumes "DiscoverSriovDevices os w = Ok devs"
  shows "wf_map devs" "map_of devs n = Some d \<Longrightarrow> discovered_device n d"
proof -
  obtain pfs where "discover_vfs os w [] pfs = Ok devs"
    using assms by (auto simp: DiscoverSriovDevices_def split: if_splits)
  moreover have "all_discovered []" by (simp add: all_discovered_def)
  ultimately have "all_discovered devs" using discover_vfs_inv[of "[]" os w pfs devs] by simp
  then show "wf_map devs" "map_of devs n = Some d \<Longrightarrow> discovered_device n d" by (simp_all add: all_discovered_def)
qed

text \<open>What the constructor establishes; the start-up of the process builds on it.\<close>

lemma NewManager_ready:
  assumes "NewManager os config has_cdi w = Ok s"
  shows "manager_inv s \<and> advertised s = {} \<and> (isStandaloneMode s \<noteq> isMultusMode s) \<and>
    (\<forall>n d. GetAllocatableDeviceByName s n = Some d \<longrightarrow> discovered_device n d)"
proof -
  obtain devs where devs: "DiscoverSriovDevices os w = Ok devs" "allocatable s = devs" "policyAttrKeys s = []"
    and mode: "configurationMode s = ConfigurationModeStandalone \<or> configurationMode s = ConfigurationModeMultus"
    using assms by (auto simp: NewManager_def normalizeConfigurationMode_def split: option.splits if_splits)
  note inv = DiscoverSriovDevices_inv[OF devs(1)]
  have "is_reserved k" if "k \<in> dom (discovery_attrs s n)" for n k
  proof -
    from that obtain d v where d: "map_of devs n = Some d" "map_of (dev_Attributes d) k = Some v"
      by (auto simp: discovery_attrs_def attrs_of_def devs(2) restrict_map_def split: option.splits if_splits)
    then have "k \<in> mkeys (dev_Attributes d)" by (auto simp: mkeys_iff)
    then show ?thesis using inv(2)[OF d(1)] by (auto simp: discovered_device_def)
  qed
  then have "manager_inv s" using inv(1) by (simp add: manager_inv_def devs(2,3))
  moreover have "advertised s = {}" by (simp add: advertised_eq devs(3))
  moreover have "isStandaloneMode s \<noteq> isMultusMode s"
    using mode by (auto simp: isStandaloneMode_def isMultusMode_def ConfigurationModeStandalone_def ConfigurationModeMultus_def)
  ultimately show ?thesis using inv(2) by (simp add: GetAllocatableDeviceByName_def devs(2))
qed

section \<open>Properties\<close>

text \<open>C30. Discovery gives every device exactly the attributes the driver reserves: whenever it succeeds, each
  device is named after its PCI address, its three address attributes agree, and its attribute keys
  are the reserved ones, so the protection of reserved keys protects all of discovery and nothing
  else. The manager therefore starts in its invariant, with nothing advertised.\<close>

theorem NewManager_establishes_inv:
  assumes "NewManager os config has_cdi w = Ok s"
  shows "manager_inv s \<and> advertised s = {} \<and> (isStandaloneMode s \<noteq> isMultusMode s) \<and>
    (\<forall>n d. GetAllocatableDeviceByName s n = Some d \<longrightarrow> discovered_device n d)"
  using assms by (rule NewManager_ready)

text \<open>A host with one physical function that has one virtual function.\<close>

definition pf_os :: "'w os" where
  "pf_os = \<lparr>os_RootDir = [], os_IsNotExist = (\<lambda>e. True),
     os_Lstat = (\<lambda>p w. Err (External ''absent'')), os_Stat = (\<lambda>p w. Err (External ''absent'')),
     os_Readlink = (\<lambda>p w. Ok ''../0000:01:00.1''), os_EvalSymlinks = (\<lambda>p w. Err (External ''absent'')),
     os_ReadFile = (\<lambda>p w. Err (External ''absent'')), os_ReadDir = (\<lambda>p w. Ok [''virtfn0'']),
     os_WriteFile = (\<lambda>p x w. (Ok (), w)), os_modprobe = (\<lambda>m w. (Ok (), w)),
     net_GetUplinkRepresentor = (\<lambda>p w. Ok ''eth0''), net_ErrRepresentorNotFound = (\<lambda>e. False),
     net_EswitchMode = (\<lambda>p w. Ok ''switchdev''), rdma_DevicesForPcidev = (\<lambda>p w. []), rdma_CharDevices = (\<lambda>p w. []),
     pci_RootAttribute = (\<lambda>p w. Ok (Some ''pci0000:00'')),
     ghw_PCI = (\<lambda>w. Ok [\<lparr>pci_Address = ''0000:01:00.0'', pci_ClassID = ''02'', pci_VendorID = ''8086'', pci_ProductID = ''1572''\<rparr>])\<rparr>"

abbreviation pf_flags :: Flags where
  "pf_flags \<equiv> \<lparr>fl_NodeName = ''node'', fl_Namespace = ''dra-driver-sriov'', fl_CdiRoot = ''/var/run/cdi'',
     fl_KubeletRegistrarDirectoryPath = ''/var/lib/kubelet/plugins_registry'',
     fl_KubeletPluginsDirectoryPath = ''/var/lib/kubelet/plugins'', fl_HealthcheckPort = -1, fl_MetricsBindAddress = ''0'',
     fl_DefaultInterfacePrefix = ''vfnet'', fl_ConfigurationMode = [], fl_EnableDeviceMetadata = False\<rparr>"

lemma pf_discovers: "\<exists>d. DiscoverSriovDevices pf_os w = Ok [(''0000-01-00-1'', d)]"
proof -
  have "filepath_Base ''../0000:01:00.1'' = ''0000:01:00.1''"
    using filepath_Base_abs[of "''0000:01:00.1''" "''..''"] by (simp add: is_name_def)
  moreover have "ParseInt 16 ''02'' = Some NetClass" "Atoi ''0'' = Some 0"
    by (simp_all add: ParseInt_def Atoi_def digit_val_def in_int64_def NetClass_def Let_def)
  ultimately show ?thesis
    by (simp add: DiscoverSriovDevices_def PCI_def pf_os_def discover_pf_def IsSriovVF_def TryGetPFInterfaceName_def
        GetVFList_def vf_entry_def map_filter_def HasPrefix_def TrimPrefix_def vf_device_def device_name_def ReplaceAll_def Let_def)
qed

theorem NewManager_establishes_inv_witness:
  "\<exists>s d. NewManager pf_os (Some (Some pf_flags)) True () = Ok s \<and> manager_inv s \<and>
     GetAllocatableDeviceByName s ''0000-01-00-1'' = Some d \<and>
     map_of (dev_Attributes d) AttributePciAddress = map_of (dev_Attributes d) AttributeStandardPciAddress"
proof -
  obtain d where d: "DiscoverSriovDevices pf_os () = Ok [(''0000-01-00-1'', d)]" using pf_discovers[of "()"] by blast
  then obtain s where s: "NewManager pf_os (Some (Some pf_flags)) True () = Ok s" "allocatable s = [(''0000-01-00-1'', d)]"
    by (simp add: NewManager_def normalizeConfigurationMode_def)
  have "GetAllocatableDeviceByName s ''0000-01-00-1'' = Some d" by (simp add: GetAllocatableDeviceByName_def s(2))
  moreover from this NewManager_establishes_inv[OF s(1)] have "manager_inv s" "discovered_device ''0000-01-00-1'' d" by blast+
  ultimately show ?thesis using s(1) by (force simp: discovered_device_def)
qed

text \<open>A PCI address in the canonical form of the kernel, domain:bus:device.function.\<close>

definition is_bdf :: "string \<Rightarrow> bool" where
  "is_bdf s \<longleftrightarrow> length s = 12 \<and>
     list_all (\<lambda>i. if i = 4 \<or> i = 7 then s ! i = CHR '':'' else if i = 10 then s ! i = CHR ''.''
       else s ! i \<noteq> CHR '':'' \<and> s ! i \<noteq> CHR ''.'' \<and> s ! i \<noteq> CHR ''-'') [0..<12]"

text \<open>Two virtual functions never share a device name: replacing colons and dots by dashes is injective on
  PCI addresses in canonical form, so no device overwrites another in the list of devices.\<close>

theorem device_name_inj:
  assumes "is_bdf a" "is_bdf b" "device_name a = device_name b"
  shows "a = b"
proof (rule nth_equalityI)
  define dash where "dash c = (if c = CHR '':'' \<or> c = CHR ''.'' then CHR ''-'' else c)" for c
  have dn: "device_name s = map dash s" for s
    by (simp add: device_name_def ReplaceAll_char dash_def)
  show len: "length a = length b" using assms by (simp add: is_bdf_def)
  fix i assume il: "i < length a"
  have "map dash a ! i = map dash b ! i" using assms(3) by (simp only: dn)
  then have eq: "dash (a ! i) = dash (b ! i)" using il len by simp
  have i: "i \<in> set [0..<12]" using assms(1) il by (simp add: is_bdf_def)
  have at: "is_bdf s \<Longrightarrow> (if i = 4 \<or> i = 7 then s ! i = CHR '':'' else if i = 10 then s ! i = CHR ''.''
      else s ! i \<noteq> CHR '':'' \<and> s ! i \<noteq> CHR ''.'' \<and> s ! i \<noteq> CHR ''-'')" for s
    using i unfolding is_bdf_def list_all_iff by blast
  show "a ! i = b ! i"
    using at[OF assms(1)] at[OF assms(2)] eq by (cases "i = 4 \<or> i = 7"; cases "i = 10") (simp_all add: dash_def)
qed

theorem device_name_inj_witness:
  "is_bdf ''0000:01:00.1'' \<and> is_bdf ''0000:01:00.2'' \<and> device_name ''0000:01:00.1'' \<noteq> device_name ''0000:01:00.2''"
proof -
  have b: "is_bdf ''0000:01:00.1''" "is_bdf ''0000:01:00.2''" by (simp_all add: is_bdf_def upt_rec)
  with device_name_inj[OF b] show ?thesis by auto
qed

end
