(* ===== verification/DeviceInfo.thy ===== *)
theory DeviceInfo
  imports Discovery
begin

text \<open>
  The device-info files of \<^verbatim>\<open>pkg/devicestate/deviceinfo.go\<close> for the MULTUS mode: which prepared devices
  get one, what it holds, and the clean-up. The file store is the interface \<^verbatim>\<open>DeviceInfoStore\<close>, whose
  default implementation only delegates to the NAD library; it is the argument \<open>dis\<close>.
\<close>

section \<open>Operations\<close>

record NadDeviceInfo =
  di_PciAddress :: string
  di_RdmaDevice :: string

record 'w DeviceInfoStore =
  CleanDeviceInfoForDP :: "string \<Rightarrow> string \<Rightarrow> 'w \<Rightarrow> unit res \<times> 'w"
  SaveDeviceInfoForDP :: "string \<Rightarrow> string \<Rightarrow> NadDeviceInfo \<Rightarrow> 'w \<Rightarrow> unit res \<times> 'w"

definition getStringDeviceAttribute :: "attributes \<Rightarrow> QualifiedName \<Rightarrow> string option" where
  "getStringDeviceAttribute attributes key =
     (case mget attributes key of
        None \<Rightarrow> None
      | Some attr \<Rightarrow> (case StringValue attr of None \<Rightarrow> None | Some v \<Rightarrow> if v = [] then None else Some v))"

text \<open>The resource name and device ID, empty without eligibility, and the eligibility.\<close>

definition extractMultusDeviceInfoAttrs :: "attributes \<Rightarrow> string \<times> string \<times> bool" where
  "extractMultusDeviceInfoAttrs attributes =
     (case (getStringDeviceAttribute attributes AttributeMultusResourceName,
            getStringDeviceAttribute attributes AttributeMultusDeviceID) of
        (Some resourceName, Some deviceID) \<Rightarrow> (resourceName, deviceID, True)
      | _ \<Rightarrow> ([], [], False))"

definition saveDeviceInfoForPreparedDevice :: "'w os \<Rightarrow> 'w DeviceInfoStore \<Rightarrow> PreparedDevice \<Rightarrow> 'w \<Rightarrow> unit res \<times> 'w" where
  "saveDeviceInfoForPreparedDevice os dis p w =
     (if pd_PciAddress p = [] then (Err (Errorf ''failed to save device-info for device %q: PCI address is empty'' []), w)
      else let rdmaDevices = GetRDMADevicesForPCI os (pd_PciAddress p) w;
               devInfo = \<lparr>di_PciAddress = pd_PciAddress p,
                          di_RdmaDevice = (if length rdmaDevices > 0 then Join rdmaDevices '','' else [])\<rparr>
           in case CleanDeviceInfoForDP dis (pd_MultusResourceName p) (pd_MultusDeviceID p) w of
                (Err err, w1) \<Rightarrow> (Err (Errorf ''failed to clean stale device-info for device %q (resourceName=%q, deviceID=%q): %w'' [err]), w1)
              | (Panic x, w1) \<Rightarrow> (Panic x, w1)
              | (Ok _, w1) \<Rightarrow>
                  (case SaveDeviceInfoForDP dis (pd_MultusResourceName p) (pd_MultusDeviceID p) devInfo w1 of
                     (Err err, w2) \<Rightarrow> (Err (Errorf ''failed to save device-info for device %q (resourceName=%q, deviceID=%q): %w'' [err]), w2)
                   | (Panic x, w2) \<Rightarrow> (Panic x, w2)
                   | (Ok _, w2) \<Rightarrow> (Ok (), w2)))"

fun sync_infos :: "'w os \<Rightarrow> 'w DeviceInfoStore \<Rightarrow> error list \<Rightarrow> PreparedDevices \<Rightarrow> 'w \<Rightarrow> error list res \<times> 'w" where
  "sync_infos os dis errs [] w = (Ok errs, w)"
| "sync_infos os dis errs (None # ps) w = sync_infos os dis (errs @ [Errorf ''prepared device is nil'' []]) ps w"
| "sync_infos os dis errs (Some p # ps) w =
     (if pd_MultusResourceName p = [] \<or> pd_MultusDeviceID p = [] then sync_infos os dis errs ps w
      else case saveDeviceInfoForPreparedDevice os dis p w of
          (Err err, w') \<Rightarrow> sync_infos os dis (errs @ [err]) ps w'
        | (Panic x, w') \<Rightarrow> (Panic x, w')
        | (Ok _, w') \<Rightarrow> sync_infos os dis errs ps w')"

fun clean_infos :: "'w DeviceInfoStore \<Rightarrow> error list \<Rightarrow> PreparedDevices \<Rightarrow> 'w \<Rightarrow> error list res \<times> 'w" where
  "clean_infos dis errs [] w = (Ok errs, w)"
| "clean_infos dis errs (None # ps) w = clean_infos dis (errs @ [Errorf ''prepared device is nil'' []]) ps w"
| "clean_infos dis errs (Some p # ps) w =
     (if pd_MultusResourceName p = [] \<or> pd_MultusDeviceID p = [] then clean_infos dis errs ps w
      else case CleanDeviceInfoForDP dis (pd_MultusResourceName p) (pd_MultusDeviceID p) w of
          (Err err, w') \<Rightarrow> clean_infos dis (errs @ [Errorf ''failed to clean device-info for device %q (resourceName=%q, deviceID=%q): %w'' [err]]) ps w'
        | (Panic x, w') \<Rightarrow> (Panic x, w')
        | (Ok _, w') \<Rightarrow> clean_infos dis errs ps w')"

definition join_errors :: "error list \<Rightarrow> unit res" where
  "join_errors errs = (if length errs > 0 then Err (Joined errs) else Ok ())"

definition syncDeviceInfoFilesForPreparedDevices ::
    "'w os \<Rightarrow> 'w DeviceInfoStore \<Rightarrow> PreparedDevices \<Rightarrow> 'w \<Rightarrow> unit res \<times> 'w" where
  "syncDeviceInfoFilesForPreparedDevices os dis preparedDevices w =
     bind_io (sync_infos os dis [] preparedDevices w) (\<lambda>errs w'. (join_errors errs, w'))"

definition cleanDeviceInfoFilesForPreparedDevices ::
    "'w DeviceInfoStore \<Rightarrow> PreparedDevices \<Rightarrow> 'w \<Rightarrow> unit res \<times> 'w" where
  "cleanDeviceInfoFilesForPreparedDevices dis preparedDevices w =
     bind_io (clean_infos dis [] preparedDevices w) (\<lambda>errs w'. (join_errors errs, w'))"

definition syncDeviceInfoFilesForPreparedDevicesIfNeeded ::
    "'w os \<Rightarrow> 'w DeviceInfoStore \<Rightarrow> Manager \<Rightarrow> PreparedDevices \<Rightarrow> 'w \<Rightarrow> unit res \<times> 'w" where
  "syncDeviceInfoFilesForPreparedDevicesIfNeeded os dis s preparedDevices w =
     (if \<not> isMultusMode s then (Ok (), w) else syncDeviceInfoFilesForPreparedDevices os dis preparedDevices w)"

definition cleanDeviceInfoFilesForPreparedDevicesIfNeeded ::
    "'w DeviceInfoStore \<Rightarrow> Manager \<Rightarrow> PreparedDevices \<Rightarrow> 'w \<Rightarrow> unit res \<times> 'w" where
  "cleanDeviceInfoFilesForPreparedDevicesIfNeeded dis s preparedDevices w =
     (if \<not> isMultusMode s then (Ok (), w) else cleanDeviceInfoFilesForPreparedDevices dis preparedDevices w)"

end
