(* ===== verification/Cdi.thy ===== *)
theory Cdi
  imports Api
begin

text \<open>
  The CDI handler of \<^verbatim>\<open>pkg/cdi/cdi.go\<close>: it writes one spec file per claim and one per pod and names the
  devices in them. The spec cache and the naming functions are those of the CDI library and the
  argument \<open>cdi\<close>.
\<close>

section \<open>Specs and the library\<close>

record CdiDevice =
  cdev_Name :: string
  cdev_ContainerEdits :: ContainerEdits

record CdiSpec =
  spec_Version :: string
  spec_Kind :: string
  spec_Devices :: "CdiDevice list"

record 'w cdi_cache =
  cdi_MinimumRequiredVersion :: "CdiSpec \<Rightarrow> string res"
  cdi_GenerateTransientSpecName :: "string \<Rightarrow> string \<Rightarrow> string \<Rightarrow> string"
  cdi_GenerateNameForTransientSpec :: "CdiSpec \<Rightarrow> string \<Rightarrow> string res"
  cdi_QualifiedName :: "string \<Rightarrow> string \<Rightarrow> string \<Rightarrow> string"
  cdi_WriteSpec :: "CdiSpec \<Rightarrow> string \<Rightarrow> 'w \<Rightarrow> unit res \<times> 'w"
  cdi_RemoveSpec :: "string \<Rightarrow> 'w \<Rightarrow> unit res \<times> 'w"

definition cdiVendor :: string where
  "cdiVendor = DriverName"

definition cdiClass :: string where
  "cdiClass = ''vf''"

definition cdiKind :: string where
  "cdiKind = cdiVendor @ ''/'' @ cdiClass"

definition cdiCommonDeviceName :: string where
  "cdiCommonDeviceName = ''dra-driver-sriov''"

section \<open>The handler\<close>

text \<open>The last steps of all three writers: ask for the version, set it, write.\<close>

definition write_versioned :: "'w cdi_cache \<Rightarrow> CdiSpec \<Rightarrow> string \<Rightarrow> 'w \<Rightarrow> unit res \<times> 'w" where
  "write_versioned cdi spec specName w =
     (case cdi_MinimumRequiredVersion cdi spec of
        Err err \<Rightarrow> (Err (Errorf ''failed to get minimum required CDI spec version: %v'' [err]), w)
      | Panic p \<Rightarrow> (Panic p, w)
      | Ok minVersion \<Rightarrow> cdi_WriteSpec cdi (spec\<lparr>spec_Version := minVersion\<rparr>) specName w)"

definition CreateCommonSpecFile :: "'w cdi_cache \<Rightarrow> string \<Rightarrow> 'w \<Rightarrow> unit res \<times> 'w" where
  "CreateCommonSpecFile cdi NODE_NAME w =
     (let spec = \<lparr>spec_Version = [], spec_Kind = cdiKind, spec_Devices = [\<lparr>cdev_Name = cdiCommonDeviceName,
            cdev_ContainerEdits = \<lparr>ce_Env = [''KUBERNETES_NODE_NAME='' @ NODE_NAME,
              ''DRA_RESOURCE_DRIVER_NAME='' @ DriverName], ce_DeviceNodes = []\<rparr>\<rparr>]\<rparr> in
      case cdi_MinimumRequiredVersion cdi spec of
        Err err \<Rightarrow> (Err (Errorf ''failed to get minimum required CDI spec version: %v'' [err]), w)
      | Panic p \<Rightarrow> (Panic p, w)
      | Ok minVersion \<Rightarrow>
          let spec' = spec\<lparr>spec_Version := minVersion\<rparr> in
          case cdi_GenerateNameForTransientSpec cdi spec' cdiCommonDeviceName of
            Err err \<Rightarrow> (Err (Errorf ''failed to generate Spec name: %w'' [err]), w)
          | Panic p \<Rightarrow> (Panic p, w)
          | Ok specName \<Rightarrow> cdi_WriteSpec cdi spec' specName w)"

definition claim_device_name :: "string \<Rightarrow> string \<Rightarrow> string" where
  "claim_device_name claimUID device = claimUID @ ''-'' @ device"

text \<open>The loop over the prepared devices; a nil entry is dereferenced.\<close>

fun claim_devices :: "string \<Rightarrow> CdiDevice list \<Rightarrow> PreparedDevices \<Rightarrow> CdiDevice list res" where
  "claim_devices claimUID acc [] = Ok acc"
| "claim_devices claimUID acc (None # devices) = Panic ''invalid memory address or nil pointer dereference''"
| "claim_devices claimUID acc (Some device # devices) =
     claim_devices claimUID (acc @ [\<lparr>cdev_Name = claim_device_name claimUID (pd_DeviceName device),
       cdev_ContainerEdits = pd_ContainerEdits device\<rparr>]) devices"

definition CreateClaimSpecFile :: "'w cdi_cache \<Rightarrow> PreparedDevices \<Rightarrow> 'w \<Rightarrow> unit res \<times> 'w" where
  "CreateClaimSpecFile cdi preparedDevices w =
     (case preparedDevices of
        [] \<Rightarrow> (Panic ''index out of range [0] with length 0'', w)
      | None # _ \<Rightarrow> (Panic ''invalid memory address or nil pointer dereference'', w)
      | Some first # _ \<Rightarrow>
          let claimUID = no_UID (pd_Claim first);
              specName = cdi_GenerateTransientSpecName cdi cdiVendor cdiClass claimUID
          in case claim_devices claimUID [] preparedDevices of
               Ok devices \<Rightarrow> write_versioned cdi \<lparr>spec_Version = [], spec_Kind = cdiKind, spec_Devices = devices\<rparr> specName w
             | Err e \<Rightarrow> (Err e, w)
             | Panic p \<Rightarrow> (Panic p, w))"

definition CreateGlobalPodSpecFile :: "'w cdi_cache \<Rightarrow> string \<Rightarrow> string list \<Rightarrow> 'w \<Rightarrow> unit res \<times> 'w" where
  "CreateGlobalPodSpecFile cdi podUID pciAddresses w =
     (let envs = [''SRIOVNETWORK_PCI_ADDRESSES='' @ Join pciAddresses '',''];
          specName = cdi_GenerateTransientSpecName cdi cdiVendor cdiClass podUID
      in write_versioned cdi \<lparr>spec_Version = [], spec_Kind = cdiKind, spec_Devices =
           [\<lparr>cdev_Name = podUID, cdev_ContainerEdits = \<lparr>ce_Env = envs, ce_DeviceNodes = []\<rparr>\<rparr>]\<rparr> specName w)"

definition DeleteSpecFile :: "'w cdi_cache \<Rightarrow> string \<Rightarrow> 'w \<Rightarrow> unit res \<times> 'w" where
  "DeleteSpecFile cdi uid w = cdi_RemoveSpec cdi (cdi_GenerateTransientSpecName cdi cdiVendor cdiClass uid) w"

definition GetClaimDevices :: "'w cdi_cache \<Rightarrow> string \<Rightarrow> string \<Rightarrow> string" where
  "GetClaimDevices cdi claimUID device = cdi_QualifiedName cdi cdiVendor cdiClass (claim_device_name claimUID device)"

definition GetPodSpecName :: "'w cdi_cache \<Rightarrow> string \<Rightarrow> string" where
  "GetPodSpecName cdi podUID = cdi_QualifiedName cdi cdiVendor cdiClass podUID"

section \<open>Lemmas\<close>

lemma claim_devices_eq:
  "claim_devices u acc (map Some ds) = Ok (acc @ map (\<lambda>d. \<lparr>cdev_Name = claim_device_name u (pd_DeviceName d),
     cdev_ContainerEdits = pd_ContainerEdits d\<rparr>) ds)"
  by (induction ds arbitrary: acc) simp_all

text \<open>The spec file content of a claim.\<close>

definition claim_spec :: "string \<Rightarrow> PreparedDevice list \<Rightarrow> CdiSpec" where
  "claim_spec v ds = \<lparr>spec_Version = v, spec_Kind = cdiKind, spec_Devices =
     map (\<lambda>d. \<lparr>cdev_Name = claim_device_name (no_UID (pd_Claim (hd ds))) (pd_DeviceName d),
       cdev_ContainerEdits = pd_ContainerEdits d\<rparr>) ds\<rparr>"

lemma CreateClaimSpecFile_eq:
  assumes "ds \<noteq> []"
  shows "CreateClaimSpecFile cdi (map Some ds) w =
    (case cdi_MinimumRequiredVersion cdi (claim_spec [] ds) of
       Ok v \<Rightarrow> cdi_WriteSpec cdi (claim_spec v ds) (cdi_GenerateTransientSpecName cdi cdiVendor cdiClass (no_UID (pd_Claim (hd ds)))) w
     | Err e \<Rightarrow> (Err (Errorf ''failed to get minimum required CDI spec version: %v'' [e]), w)
     | Panic p \<Rightarrow> (Panic p, w))"
proof -
  obtain d ds' where ds: "ds = d # ds'" using assms by (cases ds) auto
  have "claim_devices (no_UID (pd_Claim d)) [] (map Some ds) = Ok (spec_Devices (claim_spec [] ds))"
    by (simp add: claim_devices_eq claim_spec_def ds del: claim_devices.simps list.simps)
  then show ?thesis
    by (simp add: CreateClaimSpecFile_def ds claim_spec_def write_versioned_def Let_def split: res.split)
qed

end
