(* ===== verification/ClaimStatus.thy ===== *)
theory ClaimStatus
  imports Api
begin

text \<open>
  The list \<^verbatim>\<open>ResourceClaim.status.devices\<close> that every driver of a claim shares
  (\<^verbatim>\<open>pkg/types/claimstatus.go\<close>): the key of an entry, the in-place upsert and the merge of one
  driver's entries into a refetched list. The locale \<open>keyed_upsert\<close> is the contract of an upsert on
  a list that the API server reads as a map; the merge lemmas follow from it.
\<close>

section \<open>Definitions\<close>

record deviceStatusKey =
  k_driver :: string
  k_pool :: string
  k_device :: string
  k_shareID :: string

definition keyOf :: "AllocatedDeviceStatus \<Rightarrow> deviceStatusKey" where
  "keyOf status =
     \<lparr>k_driver = ads_Driver status, k_pool = ads_Pool status, k_device = ads_Device status,
      k_shareID = (case ads_ShareID status of None \<Rightarrow> [] | Some s \<Rightarrow> s)\<rparr>"

fun UpsertDeviceStatus ::
  "AllocatedDeviceStatus list \<Rightarrow> AllocatedDeviceStatus \<Rightarrow> AllocatedDeviceStatus list" where
  "UpsertDeviceStatus [] status = [status]"
| "UpsertDeviceStatus (x # xs) status =
     (if keyOf x = keyOf status then status # xs else x # UpsertDeviceStatus xs status)"

fun merge_own ::
  "string \<Rightarrow> AllocatedDeviceStatus list \<Rightarrow> AllocatedDeviceStatus list \<Rightarrow> AllocatedDeviceStatus list" where
  "merge_own driverName merged [] = merged"
| "merge_own driverName merged (status # desired) =
     (if ads_Driver status \<noteq> driverName then merge_own driverName merged desired
      else merge_own driverName (UpsertDeviceStatus merged status) desired)"

definition MergeDeviceStatuses ::
  "AllocatedDeviceStatus list \<Rightarrow> AllocatedDeviceStatus list \<Rightarrow> string \<Rightarrow> AllocatedDeviceStatus list" where
  "MergeDeviceStatuses latest desired driverName =
     merge_own driverName (filter (\<lambda>status. ads_Driver status \<noteq> driverName) latest) desired"

text \<open>The list as the API server reads it: a map from keys to entries.\<close>

definition status_map :: "AllocatedDeviceStatus list \<Rightarrow> deviceStatusKey \<rightharpoonup> AllocatedDeviceStatus" where
  "status_map l = map_of (map (\<lambda>s. (keyOf s, s)) l)"

definition owned_by :: "string \<Rightarrow> AllocatedDeviceStatus list \<Rightarrow> AllocatedDeviceStatus list" where
  "owned_by d l = filter (\<lambda>s. ads_Driver s = d) l"

definition foreign_to :: "string \<Rightarrow> AllocatedDeviceStatus list \<Rightarrow> AllocatedDeviceStatus list" where
  "foreign_to d l = filter (\<lambda>s. ads_Driver s \<noteq> d) l"

section \<open>The contract of an upsert\<close>

locale keyed_upsert =
  fixes key :: "'a \<Rightarrow> 'k"
    and upsert :: "'a list \<Rightarrow> 'a \<Rightarrow> 'a list"
  assumes lookup_upsert:
      "map_of (map (\<lambda>x. (key x, x)) (upsert xs x)) = (map_of (map (\<lambda>x. (key x, x)) xs))(key x \<mapsto> x)"
    and distinct_upsert: "distinct (map key xs) \<Longrightarrow> distinct (map key (upsert xs x))"
    and frame_upsert: "\<not> P x \<Longrightarrow> (\<And>y. key y = key x \<Longrightarrow> \<not> P y) \<Longrightarrow> filter P (upsert xs x) = filter P xs"
begin

lemma lookup_upsert_all:
  "map_of (map (\<lambda>x. (key x, x)) (foldl upsert xs ys)) =
   map_of (map (\<lambda>x. (key x, x)) xs) ++ map_of (map (\<lambda>x. (key x, x)) (rev ys))"
  by (induction ys arbitrary: xs) (auto simp: lookup_upsert map_add_def fun_eq_iff split: option.splits)

lemma distinct_upsert_all: "distinct (map key xs) \<Longrightarrow> distinct (map key (foldl upsert xs ys))"
  by (induction ys arbitrary: xs) (auto simp: distinct_upsert)

lemma frame_upsert_all:
  assumes "\<forall>x \<in> set ys. \<forall>y. key y = key x \<longrightarrow> \<not> P y"
  shows "filter P (foldl upsert xs ys) = filter P xs"
  using assms by (induction ys arbitrary: xs) (auto simp: frame_upsert)

end

lemma UpsertDeviceStatus_lookup:
  "map_of (map (\<lambda>s. (keyOf s, s)) (UpsertDeviceStatus l status)) =
   (map_of (map (\<lambda>s. (keyOf s, s)) l))(keyOf status \<mapsto> status)"
  by (induction l status rule: UpsertDeviceStatus.induct) auto

lemma UpsertDeviceStatus_keys:
  "map keyOf (UpsertDeviceStatus l status) =
   (if keyOf status \<in> keyOf ` set l then map keyOf l else map keyOf l @ [keyOf status])"
  by (induction l status rule: UpsertDeviceStatus.induct) auto

lemma UpsertDeviceStatus_frame:
  "\<not> P status \<Longrightarrow> (\<And>y. keyOf y = keyOf status \<Longrightarrow> \<not> P y) \<Longrightarrow>
   filter P (UpsertDeviceStatus l status) = filter P l"
  by (induction l status rule: UpsertDeviceStatus.induct) auto

interpretation status_list: keyed_upsert keyOf UpsertDeviceStatus
proof (standard, goal_cases)
  case (1 xs x)
  show ?case by (rule UpsertDeviceStatus_lookup)
next
  case (2 xs x)
  then show ?case by (auto simp: UpsertDeviceStatus_keys)
next
  case (3 P x xs)
  then show ?case by (rule UpsertDeviceStatus_frame)
qed

section \<open>Facts on the merge\<close>

lemma merge_own_foldl: "merge_own d merged desired = foldl UpsertDeviceStatus merged (owned_by d desired)"
  by (induction d merged desired rule: merge_own.induct) (simp_all add: owned_by_def)

lemma MergeDeviceStatuses_foldl:
  "MergeDeviceStatuses latest desired d = foldl UpsertDeviceStatus (foreign_to d latest) (owned_by d desired)"
  by (simp add: MergeDeviceStatuses_def merge_own_foldl foreign_to_def)

lemma keyOf_driver: "keyOf x = keyOf y \<Longrightarrow> ads_Driver x = ads_Driver y"
  by (simp add: keyOf_def)

lemma k_driver_keyOf [simp]: "k_driver (keyOf s) = ads_Driver s"
  by (simp add: keyOf_def)

lemma owned_by_set: "s \<in> set (owned_by d l) \<longleftrightarrow> s \<in> set l \<and> ads_Driver s = d"
  by (auto simp: owned_by_def)

lemma status_map_SomeD: "status_map l k = Some s \<Longrightarrow> keyOf s = k"
  by (auto simp: status_map_def dest: map_of_SomeD)

lemma status_map_foldl:
  "status_map (foldl UpsertDeviceStatus l ds) = status_map l ++ status_map (rev ds)"
  unfolding status_map_def by (rule status_list.lookup_upsert_all)

lemma status_map_filter:
  "status_map (filter (\<lambda>s. P (ads_Driver s)) l) k = (if P (k_driver k) then status_map l k else None)"
  by (induction l) (auto simp: status_map_def)

lemma status_map_foreign:
  "status_map (foreign_to d l) k = (if k_driver k = d then None else status_map l k)"
  unfolding foreign_to_def by (subst status_map_filter[where P = "\<lambda>x. x \<noteq> d"]) simp

lemma status_map_owned_rev:
  "status_map (rev (owned_by d l)) k = (if k_driver k = d then status_map (rev l) k else None)"
  unfolding owned_by_def rev_filter by (subst status_map_filter[where P = "\<lambda>x. x = d"]) simp

lemma status_map_merge:
  "status_map (MergeDeviceStatuses latest desired d) k =
   (if k_driver k = d then status_map (rev desired) k else status_map latest k)"
  by (auto simp: MergeDeviceStatuses_foldl status_map_foldl status_map_foreign status_map_owned_rev
      map_add_def split: option.splits)

lemma owned_keys: "k \<in> keyOf ` set (owned_by d l) \<longleftrightarrow> k_driver k = d \<and> status_map l k \<noteq> None"
  by (force simp: owned_by_def status_map_def map_of_eq_None_iff image_iff)

lemma owned_keys_merge: "keyOf ` set (owned_by d (MergeDeviceStatuses latest desired d)) = keyOf ` set (owned_by d desired)"
proof -
  have "status_map (rev l) k = None \<longleftrightarrow> status_map l k = None" for l k by (simp add: status_map_def map_of_eq_None_iff image_iff)
  then show ?thesis by (intro set_eqI) (simp add: owned_keys status_map_merge del: not_None_eq)
qed

lemma foreign_merge: "foreign_to d (MergeDeviceStatuses latest desired d) = foreign_to d latest"
proof -
  have "\<forall>x \<in> set (owned_by d desired). \<forall>y. keyOf y = keyOf x \<longrightarrow> \<not> ads_Driver y \<noteq> d"
    by (auto simp: owned_by_set dest: keyOf_driver)
  then have "filter (\<lambda>s. ads_Driver s \<noteq> d) (foldl UpsertDeviceStatus (foreign_to d latest) (owned_by d desired))
      = filter (\<lambda>s. ads_Driver s \<noteq> d) (foreign_to d latest)"
    by (rule status_list.frame_upsert_all)
  then show ?thesis by (simp add: MergeDeviceStatuses_foldl foreign_to_def)
qed

section \<open>Properties\<close>

text \<open>\<^verbatim>\<open>UpsertDeviceStatus\<close> refines a map update: read as the API server reads it, the list after
  the upsert is the list before with the status stored at its key, whatever the list holds.\<close>

theorem UpsertDeviceStatus_refines_update:
  "status_map (UpsertDeviceStatus l status) = (status_map l)(keyOf status \<mapsto> status)"
  unfolding status_map_def by (rule status_list.lookup_upsert)

text \<open>\<^verbatim>\<open>UpsertDeviceStatus\<close> keeps the keys of \<^verbatim>\<open>status.devices\<close> unique and never reorders or drops
  a key: a known key stays at its position, a new one goes last.\<close>

theorem UpsertDeviceStatus_keys_unique:
  assumes "distinct (map keyOf l)"
  shows "distinct (map keyOf (UpsertDeviceStatus l status)) \<and>
    map keyOf (UpsertDeviceStatus l status) =
      (if keyOf status \<in> keyOf ` set l then map keyOf l else map keyOf l @ [keyOf status])"
  using assms status_list.distinct_upsert UpsertDeviceStatus_keys by blast

text \<open>\<^verbatim>\<open>MergeDeviceStatuses\<close> never touches another driver's status: the entries of the other
  drivers in the merged list are those of the latest list, unchanged and in their order.\<close>

theorem MergeDeviceStatuses_preserves_foreign:
  "filter (\<lambda>s. ads_Driver s \<noteq> d) (MergeDeviceStatuses latest desired d) =
   filter (\<lambda>s. ads_Driver s \<noteq> d) latest"
  using foreign_merge by (simp add: foreign_to_def)

text \<open>C18. \<^verbatim>\<open>MergeDeviceStatuses\<close> as a map: at a key of this driver the merged list holds the last
  desired entry with that key (and nothing of the latest list), at every other key the latest entry.\<close>

theorem MergeDeviceStatuses_lookup:
  "status_map (MergeDeviceStatuses latest desired d) k =
   (if k_driver k = d then status_map (rev desired) k else status_map latest k)"
  by (rule status_map_merge)

text \<open>The merged list never carries a key twice when the latest list does not, even if the
  desired list repeats keys, so the API server does not reject it as invalid.\<close>

theorem MergeDeviceStatuses_keys_unique:
  assumes "distinct (map keyOf latest)"
  shows "distinct (map keyOf (MergeDeviceStatuses latest desired d))"
  unfolding MergeDeviceStatuses_foldl
  by (rule status_list.distinct_upsert_all)
     (use assms in \<open>simp add: foreign_to_def distinct_map_filter\<close>)

text \<open>Two drivers that merge their entries into the same list do not disturb each other: in
  either order the API server reads the same map.\<close>

theorem MergeDeviceStatuses_commute:
  assumes "d1 \<noteq> d2"
  shows "status_map (MergeDeviceStatuses (MergeDeviceStatuses l des1 d1) des2 d2) =
         status_map (MergeDeviceStatuses (MergeDeviceStatuses l des2 d2) des1 d1)"
  using assms by (auto simp: fun_eq_iff status_map_merge)

section \<open>Witnesses\<close>

definition example_status :: "string \<Rightarrow> string \<Rightarrow> string \<Rightarrow> AllocatedDeviceStatus" where
  "example_status drv dev data = \<lparr>ads_Driver = drv, ads_Pool = ''node1'', ads_Device = dev,
     ads_ShareID = None, ads_Data = Some data, ads_NetworkData = None\<rparr>"

theorem UpsertDeviceStatus_keys_unique_witness:
  "distinct (map keyOf [example_status DriverName ''vf0'' ''a'', example_status ''other'' ''vf0'' ''b'']) \<and>
   length (UpsertDeviceStatus [example_status DriverName ''vf0'' ''a'', example_status ''other'' ''vf0'' ''b'']
     (example_status DriverName ''vf0'' ''c'')) = 2"
  using UpsertDeviceStatus_keys_unique
    [of "[example_status DriverName ''vf0'' ''a'', example_status ''other'' ''vf0'' ''b'']"
        "example_status DriverName ''vf0'' ''c''"]
  by (simp add: example_status_def keyOf_def DriverName_def)

theorem MergeDeviceStatuses_keys_unique_witness:
  "distinct (map keyOf (MergeDeviceStatuses [example_status ''other'' ''vf0'' ''b'']
     [example_status DriverName ''vf0'' ''a'', example_status DriverName ''vf0'' ''c''] DriverName))"
  by (rule MergeDeviceStatuses_keys_unique) (simp add: example_status_def keyOf_def)

theorem MergeDeviceStatuses_commute_witness:
  "status_map (MergeDeviceStatuses (MergeDeviceStatuses [] [example_status ''d1'' ''x'' ''a''] ''d1'')
     [example_status ''d2'' ''y'' ''b''] ''d2'') =
   status_map (MergeDeviceStatuses (MergeDeviceStatuses [] [example_status ''d2'' ''y'' ''b''] ''d2'')
     [example_status ''d1'' ''x'' ''a''] ''d1'')"
  by (rule MergeDeviceStatuses_commute) simp

end
