(* ===== verification/Prepare.thy ===== *)
theory Prepare
  imports DeviceInfo Cdi OpaqueConfig ClaimStatus
begin

text \<open>
  Preparing and unpreparing the devices of a claim (\<^verbatim>\<open>pkg/devicestate/state.go\<close>): configuration, driver
  binding, container edits, device-info files and CDI specs, with the roll-back of every step that can
  fail. The environment \<open>env\<close> collects the operating system, the CDI cache, the device-info store, the
  API server's network attachment definitions, the configuration decoder and the JSON library.
\<close>

section \<open>Environment\<close>

record 'w env =
  env_os :: "'w os"
  env_cdi :: "'w cdi_cache"
  env_dis :: "'w DeviceInfoStore"
  env_nad :: "string \<Rightarrow> string \<Rightarrow> 'w \<Rightarrow> string res"  \<comment> \<open>namespace, name, and the raw configuration\<close>
  env_decode :: decoder
  env_json :: json_codec
  env_config_json :: "VfConfig \<Rightarrow> string res"

section \<open>Attributes\<close>

definition cloneDeviceAttributes :: "attributes \<Rightarrow> attributes option" where
  "cloneDeviceAttributes attrs = (if length attrs = 0 then None else Some (mput_all [] attrs))"

definition buildMetadataAttributes :: "attributes \<Rightarrow> string \<Rightarrow> attributes option" where
  "buildMetadataAttributes attrs ifName =
     (let metadataAttributes = cloneDeviceAttributes attrs in
      if ifName = [] then metadataAttributes
      else let m = (case metadataAttributes of None \<Rightarrow> [] | Some m \<Rightarrow> m)
           in Some (mput m AttributeInterfaceName (str_attr ifName)))"

text \<open>The dereference of the string value of the PCI address attribute.\<close>

definition pci_address :: "Device \<Rightarrow> string res" where
  "pci_address d = (case mget (dev_Attributes d) AttributePciAddress of
       Some a \<Rightarrow> (case StringValue a of Some v \<Rightarrow> Ok v
         | None \<Rightarrow> Panic ''invalid memory address or nil pointer dereference'')
     | None \<Rightarrow> Panic ''invalid memory address or nil pointer dereference'')"

section \<open>RDMA and VFIO\<close>

definition char_node :: "string \<Rightarrow> string \<Rightarrow> DeviceNode" where
  "char_node path hostPath = \<lparr>dn_Path = path, dn_HostPath = hostPath, dn_Type = ''c''\<rparr>"

text \<open>The environment variable of one RDMA character device, when its kind is known.\<close>

definition rdma_env :: "string \<Rightarrow> string \<Rightarrow> string list" where
  "rdma_env devicePrefix charDev =
     (let base = filepath_Base charDev in
      if HasPrefix base ''uverbs'' then [''SRIOVNETWORK_'' @ devicePrefix @ ''_RDMA_UVERB='' @ charDev]
      else if HasPrefix base ''umad'' then [''SRIOVNETWORK_'' @ devicePrefix @ ''_RDMA_UMAD='' @ charDev]
      else if HasPrefix base ''issm'' then [''SRIOVNETWORK_'' @ devicePrefix @ ''_RDMA_ISSM='' @ charDev]
      else if base = ''rdma_cm'' then [''SRIOVNETWORK_'' @ devicePrefix @ ''_RDMA_CM='' @ charDev]
      else [])"

definition handleRDMADevice :: "'w os \<Rightarrow> Device \<Rightarrow> string \<Rightarrow> string \<Rightarrow> 'w \<Rightarrow> (DeviceNode list \<times> string list) res" where
  "handleRDMADevice os deviceInfo pciAddress deviceName w =
     (if (case mget (dev_Attributes deviceInfo) AttributeRDMACapable of
            None \<Rightarrow> True | Some a \<Rightarrow> BoolValue a \<noteq> Some True)
      then Ok ([], [])
      else let rdmaDevices = GetRDMADevicesForPCI os pciAddress w in
        (case rdmaDevices of
           [] \<Rightarrow> Ok ([], [])
         | [rdmaDevice] \<Rightarrow>
             bind_res (GetRDMACharDevices os rdmaDevice w) (\<lambda>charDevices.
               if length charDevices = 0
               then Err (Errorf ''no RDMA character devices found for RDMA device %s (PCI: %s)'' [])
               else let devicePrefix = ReplaceAll deviceName (CHR ''-'') ''_'' in
                 Ok (map (\<lambda>charDev. char_node charDev charDev) charDevices,
                     concat (map (rdma_env devicePrefix) charDevices) @
                       [''SRIOVNETWORK_'' @ devicePrefix @ ''_RDMA_DEVICE='' @ rdmaDevice]))
         | _ \<Rightarrow> Err (Errorf ''expected exactly one RDMA device for PCI address %s, but found %d: %v'' [])))"

text \<open>The block for devices bound to \<^verbatim>\<open>vfio-pci\<close>: device nodes and environment variable.\<close>

definition vfio_edits :: "'w os \<Rightarrow> Manager \<Rightarrow> VfConfig \<Rightarrow> string \<Rightarrow> string \<Rightarrow> 'w \<Rightarrow> (DeviceNode list \<times> string list) res" where
  "vfio_edits os s config pciAddress deviceName w =
     (if vf_Driver config = ''vfio-pci'' then
        bind_res (wrap_err ''error getting VFIO device file for device %s: %w'' (GetVFIODeviceFile os pciAddress w))
          (\<lambda>(devFileHost, devFileContainer).
            let nodes = [char_node devFileContainer devFileHost, char_node ''/dev/vfio/vfio'' ''/dev/vfio/vfio''];
                envs = [''SRIOVNETWORK_'' @ ReplaceAll deviceName (CHR ''-'') ''_'' @ ''_VFIO_DEVICE='' @ devFileContainer]
            in if iommuAvailable s then
                 bind_res (wrap_err ''error getting VFIO cdev for device %s: %w'' (GetVFIOCdevPath os pciAddress w))
                   (\<lambda>cdevPath. Ok (nodes @ (if cdevPath \<noteq> [] then [char_node cdevPath cdevPath] else []) @
                      [char_node ''/dev/iommu'' ''/dev/iommu''], envs))
               else Ok (nodes, envs))
      else Ok ([], []))"

text \<open>Everything between the driver binding and the prepared device: vhost modules, device nodes and
  environment variables.\<close>

definition container_edits :: "'w os \<Rightarrow> Manager \<Rightarrow> VfConfig \<Rightarrow> Device \<Rightarrow> string \<Rightarrow> string \<Rightarrow> 'w \<Rightarrow> ContainerEdits res \<times> 'w" where
  "container_edits os s config deviceInfo pciAddress deviceName w =
     bind_io (if vf_AddVhostMount config
              then (let (r, w') = EnsureVhostModulesLoaded os w
                    in (wrap_err ''failed to ensure vhost modules are loaded: %w'' r, w'))
              else (Ok (), w)) (\<lambda>_ w1.
       (bind_res (vfio_edits os s config pciAddress deviceName w1) (\<lambda>(vfioNodes, vfioEnvs).
        bind_res (wrap_err ''error handling RDMA device: %w'' (handleRDMADevice os deviceInfo pciAddress deviceName w1))
          (\<lambda>(rdmaNodes, rdmaEnvs).
          Ok \<lparr>ce_Env = [''SRIOVNETWORK_VF_DEVICE_'' @ ReplaceAll deviceName (CHR ''-'') ''_'' @ ''='' @ pciAddress,
                        ''SRIOVNETWORK_NET_ATTACH_DEF_NAME='' @ vf_NetAttachDefName config] @ vfioEnvs @ rdmaEnvs,
              ce_DeviceNodes = vfioNodes @
                (if vf_AddVhostMount config
                 then [char_node ''/dev/vhost-net'' ''/dev/vhost-net'', char_node ''/dev/net/tun'' ''/dev/net/tun'']
                 else []) @ rdmaNodes\<rparr>)), w1))"

section \<open>One device\<close>

definition getNetAttachDefRawConfig :: "'w env \<Rightarrow> string \<Rightarrow> string \<Rightarrow> 'w \<Rightarrow> string res" where
  "getNetAttachDefRawConfig env namespace netAttachDefName w =
     wrap_err ''error getting net attach def for net attach def %s/%s: %w'' (env_nad env namespace netAttachDefName w)"

definition netconf_for :: "'w env \<Rightarrow> Manager \<Rightarrow> ResourceClaim \<Rightarrow> VfConfig \<Rightarrow> string \<Rightarrow> 'w \<Rightarrow> string res" where
  "netconf_for env s claim config pciAddress w =
     (if isStandaloneMode s then
        let netAttachDefNamespace =
              (if vf_NetAttachDefNamespace config \<noteq> [] then vf_NetAttachDefNamespace config else claim_Namespace claim)
        in bind_res (wrap_err ''error getting net attach def raw config: %w''
               (getNetAttachDefRawConfig env netAttachDefNamespace (vf_NetAttachDefName config) w))
             (\<lambda>raw. wrap_err ''error converting net attach def config to sriov-cni format: %w''
               (AddDeviceIDToNetConf (env_json env) raw pciAddress))
      else Ok [])"

definition restoreDriverOnError :: "'w os \<Rightarrow> VfConfig \<Rightarrow> string \<Rightarrow> string \<Rightarrow> error \<Rightarrow> 'w \<Rightarrow> 'a res \<times> 'w" where
  "restoreDriverOnError os config pciAddress originalDriver cause w =
     (if vf_Driver config = [] then (Err cause, w)
      else case RestoreDeviceDriver os pciAddress originalDriver w of
          (Err restoreErr, w') \<Rightarrow>
            (Err (Errorf ''%w; additionally failed to restore original driver for device %s: %v'' [cause, restoreErr]), w')
        | (Panic p, w') \<Rightarrow> (Panic p, w')
        | (Ok _, w') \<Rightarrow> (Err cause, w'))"

text \<open>The prepared device and the next interface index.\<close>

text \<open>The prepared device, with the interface name that is configured or generated.\<close>

definition new_prepared_device :: "'w env \<Rightarrow> Manager \<Rightarrow> nat \<Rightarrow> ResourceClaim \<Rightarrow> VfConfig \<Rightarrow> DeviceRequestAllocationResult \<Rightarrow> Device \<Rightarrow>
    string \<Rightarrow> string \<Rightarrow> string \<Rightarrow> string \<Rightarrow> ContainerEdits \<Rightarrow> string \<Rightarrow> (PreparedDevice \<times> nat) res" where
  [simp]: "new_prepared_device env s ifNameIndex claim config result deviceInfo multusResourceName multusDeviceID pciAddress
     netAttachDefRawConfig edits originalDriver =
     (let generate = (isStandaloneMode s \<and> vf_IfName config = []);
          ifName = (if generate then defaultInterfacePrefix s @ Itoa ifNameIndex else vf_IfName config);
          ifNameIndex' = (if generate then Suc ifNameIndex else ifNameIndex)
      in (case claim_ReservedFor claim of
            [] \<Rightarrow> Panic ''index out of range [0] with length 0''
          | podUID # _ \<Rightarrow>
              Ok (\<lparr>pd_RequestNames = [r_Request result], pd_PoolName = r_Pool result,
                pd_DeviceName = r_Device result,
                pd_CdiDeviceIds = [GetClaimDevices (env_cdi env) (claim_UID claim) (r_Device result),
                                   GetPodSpecName (env_cdi env) podUID],
                pd_Claim = \<lparr>no_Name = claim_Name claim, no_Namespace = claim_Namespace claim, no_UID = claim_UID claim\<rparr>,
                pd_ContainerEdits = edits, pd_Config = Some config, pd_IfName = ifName,
                pd_PciAddress = pciAddress, pd_MultusDeviceID = multusDeviceID,
                pd_MultusResourceName = multusResourceName,
                pd_DeviceAttributes = buildMetadataAttributes (dev_Attributes deviceInfo) ifName,
                pd_NetworkDeviceData = None, pd_PodUID = podUID,
                pd_NetAttachDefConfig = netAttachDefRawConfig, pd_OriginalDriver = originalDriver\<rparr>,
               ifNameIndex')))"

definition applyConfigOnDevice :: "'w env \<Rightarrow> Manager \<Rightarrow> nat \<Rightarrow> ResourceClaim \<Rightarrow> VfConfig \<Rightarrow>
    DeviceRequestAllocationResult \<Rightarrow> 'w \<Rightarrow> (PreparedDevice \<times> nat) res \<times> 'w" where
  "applyConfigOnDevice env s ifNameIndex claim config result w =
     (case mget (allocatable s) (r_Device result) of
        None \<Rightarrow> (Err (Errorf ''device %s not found in allocatable devices'' []), w)
      | Some deviceInfo \<Rightarrow>
          let (multusResourceName, multusDeviceID, _) =
                (if isMultusMode s then extractMultusDeviceInfoAttrs (dev_Attributes deviceInfo) else ([], [], False))
          in case pci_address deviceInfo of
               Err e \<Rightarrow> (Err e, w)
             | Panic p \<Rightarrow> (Panic p, w)
             | Ok pciAddress \<Rightarrow>
          (case netconf_for env s claim config pciAddress w of
               Err e \<Rightarrow> (Err e, w)
             | Panic p \<Rightarrow> (Panic p, w)
             | Ok netAttachDefRawConfig \<Rightarrow>
          (case BindDeviceDriver (env_os env) pciAddress config w of
               (Err err, w1) \<Rightarrow> (Err (Errorf ''error binding device %s to driver: %w'' [err]), w1)
             | (Panic p, w1) \<Rightarrow> (Panic p, w1)
             | (Ok originalDriver, w1) \<Rightarrow>
          (case container_edits (env_os env) s config deviceInfo pciAddress (r_Device result) w1 of
               (Err cause, w2) \<Rightarrow> restoreDriverOnError (env_os env) config pciAddress originalDriver cause w2
             | (Panic p, w2) \<Rightarrow> (Panic p, w2)
             | (Ok edits, w2) \<Rightarrow>
                 (new_prepared_device env s ifNameIndex claim config result deviceInfo multusResourceName multusDeviceID pciAddress
                    netAttachDefRawConfig edits originalDriver, w2)))))"

section \<open>All devices of a claim\<close>

fun unprepareDevices :: "'w os \<Rightarrow> PreparedDevices \<Rightarrow> 'w \<Rightarrow> unit res \<times> 'w" where
  "unprepareDevices os [] w = (Ok (), w)"
| "unprepareDevices os (None # preparedDevices) w = unprepareDevices os preparedDevices w"
| "unprepareDevices os (Some p # preparedDevices) w =
     (case pd_Config p of
        None \<Rightarrow> unprepareDevices os preparedDevices w
      | Some config \<Rightarrow>
          if vf_Driver config \<noteq> [] then
            (case RestoreDeviceDriver os (pd_PciAddress p) (pd_OriginalDriver p) w of
               (Err err, w') \<Rightarrow> (Err (Errorf ''failed to restore original driver for device %s: %w'' [err]), w')
             | (Panic x, w') \<Rightarrow> (Panic x, w')
             | (Ok _, w') \<Rightarrow> unprepareDevices os preparedDevices w')
          else unprepareDevices os preparedDevices w)"

definition config_for :: "(string, VfConfig) gomap \<Rightarrow> string \<Rightarrow> VfConfig" where
  "config_for resultsConfig request =
     (case mget resultsConfig request of Some c \<Rightarrow> c
      | None \<Rightarrow> (case mget resultsConfig [] of Some c \<Rightarrow> c | None \<Rightarrow> DefaultVfConfig))"

definition device_status :: "'w env \<Rightarrow> VfConfig \<Rightarrow> DeviceRequestAllocationResult \<Rightarrow> AllocatedDeviceStatus" where
  "device_status env config result =
     \<lparr>ads_Driver = r_Driver result, ads_Pool = r_Pool result, ads_Device = r_Device result, ads_ShareID = r_ShareID result,
      ads_Data = Some (case env_config_json env config of Ok raw \<Rightarrow> raw | _ \<Rightarrow> ''{}''), ads_NetworkData = None\<rparr>"

text \<open>The loop over the allocation results. It returns the outcome, the interface index and the claim,
  whose status it updates in place as it goes.\<close>

fun prepare_results :: "'w env \<Rightarrow> Manager \<Rightarrow> (string, VfConfig) gomap \<Rightarrow> nat \<Rightarrow> ResourceClaim \<Rightarrow>
    PreparedDevice list \<Rightarrow> DeviceRequestAllocationResult list \<Rightarrow> 'w \<Rightarrow>
    (PreparedDevice list res \<times> nat \<times> ResourceClaim) \<times> 'w" where
  "prepare_results env s resultsConfig idx claim preparedDevices [] w = ((Ok preparedDevices, idx, claim), w)"
| "prepare_results env s resultsConfig idx claim preparedDevices (result # results) w =
     (if r_Driver result \<noteq> DriverName then prepare_results env s resultsConfig idx claim preparedDevices results w
      else let config = Normalize (config_for resultsConfig (r_Request result)) in
        (case applyConfigOnDevice env s idx claim config result w of
           (Err err, w1) \<Rightarrow>
             (case unprepareDevices (env_os env) (map Some preparedDevices) w1 of
                (Err rollbackErr, w2) \<Rightarrow>
                  ((Err (Errorf ''error applying config on device: %v; rollback failed: %v'' [err, rollbackErr]), idx, claim), w2)
              | (Panic p, w2) \<Rightarrow> ((Panic p, idx, claim), w2)
              | (Ok _, w2) \<Rightarrow> ((Err (Errorf ''error applying config on device: %v'' [err]), idx, claim), w2))
         | (Panic p, w1) \<Rightarrow> ((Panic p, idx, claim), w1)
         | (Ok (preparedDevice, idx'), w1) \<Rightarrow>
             prepare_results env s resultsConfig idx'
               (claim\<lparr>claim_Devices := UpsertDeviceStatus (claim_Devices claim) (device_status env config result)\<rparr>)
               (preparedDevices @ [preparedDevice]) results w1))"

definition prepareDevices :: "'w env \<Rightarrow> Manager \<Rightarrow> nat \<Rightarrow> ResourceClaim \<Rightarrow> (string, VfConfig) gomap \<Rightarrow> 'w \<Rightarrow>
    (PreparedDevice list res \<times> nat \<times> ResourceClaim) \<times> 'w" where
  "prepareDevices env s ifNameIndex claim resultsConfig w =
     (case claim_Allocation claim of
        None \<Rightarrow> ((Panic ''invalid memory address or nil pointer dereference'', ifNameIndex, claim), w)
      | Some allocation \<Rightarrow> prepare_results env s resultsConfig ifNameIndex claim [] (al_Results allocation) w)"

text \<open>The clean-up after a failed device-info or CDI step.\<close>

definition rollback_prepared :: "'w env \<Rightarrow> Manager \<Rightarrow> string \<Rightarrow> error \<Rightarrow> PreparedDevices \<Rightarrow> 'w \<Rightarrow> 'a res \<times> 'w" where
  "rollback_prepared env s cleanup_msg err preparedDevices w =
     (case cleanDeviceInfoFilesForPreparedDevicesIfNeeded (env_dis env) s preparedDevices w of
        (Panic p, w1) \<Rightarrow> (Panic p, w1)
      | (r1, w1) \<Rightarrow>
          let errs1 = [err] @ (case r1 of Err e \<Rightarrow> [Errorf cleanup_msg [e]] | _ \<Rightarrow> []) in
          (case unprepareDevices (env_os env) preparedDevices w1 of
             (Panic p, w2) \<Rightarrow> (Panic p, w2)
           | (r2, w2) \<Rightarrow> (Err (Joined (errs1 @ (case r2 of Err e \<Rightarrow> [Errorf ''rollback failed: %w'' [e]] | _ \<Rightarrow> []))), w2)))"

definition PrepareDevicesForClaim :: "'w env \<Rightarrow> Manager \<Rightarrow> nat \<Rightarrow> ResourceClaim \<Rightarrow> 'w \<Rightarrow>
    (PreparedDevice list res \<times> nat \<times> ResourceClaim) \<times> 'w" where
  "PrepareDevicesForClaim env s ifNameIndex claim w =
     (case claim_Allocation claim of
        None \<Rightarrow> ((Panic ''invalid memory address or nil pointer dereference'', ifNameIndex, claim), w)
      | Some allocation \<Rightarrow>
     (case getMapOfOpaqueDeviceConfigForDevice (env_decode env) (al_Config allocation) of
        Err err \<Rightarrow> ((Err (Errorf ''error creating map of opaque device config for device: %v'' [err]), ifNameIndex, claim), w)
      | Panic p \<Rightarrow> ((Panic p, ifNameIndex, claim), w)
      | Ok resultsConfig \<Rightarrow>
     (case prepareDevices env s ifNameIndex claim resultsConfig w of
        ((Err err, idx, claim'), w1) \<Rightarrow> ((Err (Errorf ''prepare failed: %v'' [err]), idx, claim'), w1)
      | ((Panic p, idx, claim'), w1) \<Rightarrow> ((Panic p, idx, claim'), w1)
      | ((Ok preparedDevices, idx, claim'), w1) \<Rightarrow>
          if length preparedDevices = 0 then ((Err (Errorf ''no prepared devices found for claim'' []), idx, claim'), w1)
          else
     (case syncDeviceInfoFilesForPreparedDevicesIfNeeded (env_os env) (env_dis env) s (map Some preparedDevices) w1 of
        (Err err, w2) \<Rightarrow>
          (let (r, w3) = rollback_prepared env s ''cleanup after device-info sync failure failed: %w''
                 (Errorf ''unable to create device-info files for claim: %v'' [err]) (map Some preparedDevices) w2
           in ((r, idx, claim'), w3))
      | (Panic p, w2) \<Rightarrow> ((Panic p, idx, claim'), w2)
      | (Ok _, w2) \<Rightarrow>
     (case CreateClaimSpecFile (env_cdi env) (map Some preparedDevices) w2 of
        (Err err, w3) \<Rightarrow>
          (let (r, w4) = rollback_prepared env s ''cleanup after CDI spec failure failed: %w''
                 (Errorf ''unable to create CDI spec file for claim: %v'' [err]) (map Some preparedDevices) w3
           in ((r, idx, claim'), w4))
      | (Panic p, w3) \<Rightarrow> ((Panic p, idx, claim'), w3)
      | (Ok _, w3) \<Rightarrow> ((Ok preparedDevices, idx, claim'), w3))))))"

section \<open>Unprepare\<close>

text \<open>One step of \<^verbatim>\<open>Unprepare\<close>: run, and collect the error under a message.\<close>

definition collect :: "string \<Rightarrow> ('w \<Rightarrow> unit res \<times> 'w) \<Rightarrow> error list \<Rightarrow> 'w \<Rightarrow> error list res \<times> 'w" where
  "collect msg step errs w = (case step w of
      (Ok _, w') \<Rightarrow> (Ok errs, w') | (Err e, w') \<Rightarrow> (Ok (errs @ [Errorf msg [e]]), w') | (Panic p, w') \<Rightarrow> (Panic p, w'))"

definition Unprepare :: "'w env \<Rightarrow> Manager \<Rightarrow> string \<Rightarrow> PreparedDevices \<Rightarrow> 'w \<Rightarrow> unit res \<times> 'w" where
  "Unprepare env s claimUID preparedDevices w =
     bind_io (collect ''unable to clean device-info files for claim: %v''
       (cleanDeviceInfoFilesForPreparedDevicesIfNeeded (env_dis env) s preparedDevices) [] w) (\<lambda>errs1 w1.
     bind_io (collect ''unprepare failed: %v'' (unprepareDevices (env_os env) preparedDevices) errs1 w1) (\<lambda>errs2 w2.
     bind_io (collect ''unable to delete CDI spec file for PodUID: %v'' (DeleteSpecFile (env_cdi env) claimUID) errs2 w2) (\<lambda>errs3 w3.
     bind_io (case preparedDevices of
         Some p # _ \<Rightarrow> collect ''unable to delete CDI spec file for PodUID: %v'' (DeleteSpecFile (env_cdi env) (pd_PodUID p)) errs3 w3
       | _ \<Rightarrow> (Ok errs3, w3)) (\<lambda>errs4 w4. (join_errors errs4, w4)))))"

end
