(* ===== verification/StatusRetry.thy ===== *)
theory StatusRetry
  imports ClaimStatus
begin

text \<open>
  \<^verbatim>\<open>UpdateClaimStatusWithRetry\<close> of \<^verbatim>\<open>pkg/types/statusretry.go\<close>: the write of a claim's status with a
  retry loop that refetches and merges on a conflict. What lies outside the repository is an argument:
  the classification of API errors (\<^verbatim>\<open>apierrors\<close>), the claim client, and the loop of
  \<^verbatim>\<open>wait.ExponentialBackoffWithContext\<close>, whose documented behaviour is the relation \<open>backoff_run\<close>.
\<close>

section \<open>Definitions\<close>

record apierrors =
  IsConflict :: "error \<Rightarrow> bool"
  IsInvalid :: "error \<Rightarrow> bool"
  IsForbidden :: "error \<Rightarrow> bool"
  IsNotFound :: "error \<Rightarrow> bool"

definition IsPermanentStatusUpdateError :: "apierrors \<Rightarrow> error \<Rightarrow> bool" where
  "IsPermanentStatusUpdateError ae err = (IsInvalid ae err \<or> IsForbidden ae err \<or> IsNotFound ae err)"

text \<open>\<^verbatim>\<open>ResourceClaimStatusClient\<close>: both calls can change the world (the API server).\<close>

record 'w claim_client =
  UpdateStatus :: "ResourceClaim \<Rightarrow> 'w \<Rightarrow> (error + ResourceClaim) \<times> 'w"
  GetClaim :: "string \<Rightarrow> 'w \<Rightarrow> (error + ResourceClaim) \<times> 'w"

text \<open>The variables the condition closure captures: the claim to write, the last API error, the world.\<close>

type_synonym 'w retry_state = "ResourceClaim \<times> error option \<times> 'w"

type_synonym 's condition = "'s \<Rightarrow> (bool \<times> error option) \<times> 's"

definition replaced_error :: error where
  "replaced_error = Errorf ''claim %s was replaced (UID %s is now %s): %w'' [External ''NotFound'']"

definition retry_condition ::
  "apierrors \<Rightarrow> 'w claim_client \<Rightarrow> string \<Rightarrow> AllocatedDeviceStatus list \<Rightarrow> 'w retry_state condition" where
  "retry_condition ae claims driverName desired st =
     (let (claim, lastErr, w) = st in
      case UpdateStatus claims claim w of
        (Inr _, w) \<Rightarrow> ((True, None), (claim, lastErr, w))
      | (Inl updateErr, w) \<Rightarrow>
          if IsConflict ae updateErr then
            (case GetClaim claims (claim_Name claim) w of
               (Inl fetchErr, w) \<Rightarrow>
                 if IsPermanentStatusUpdateError ae fetchErr
                 then ((False, Some fetchErr), (claim, Some fetchErr, w))
                 else ((False, None), (claim, Some fetchErr, w))
             | (Inr freshClaim, w) \<Rightarrow>
                 if claim_UID freshClaim \<noteq> claim_UID claim
                 then ((False, Some replaced_error), (claim, Some replaced_error, w))
                 else ((False, None),
                   (freshClaim\<lparr>claim_Devices :=
                      MergeDeviceStatuses (claim_Devices freshClaim) desired driverName\<rparr>,
                    Some updateErr, w)))
          else if IsPermanentStatusUpdateError ae updateErr
          then ((False, Some updateErr), (claim, Some updateErr, w))
          else ((False, None), (claim, Some updateErr, w)))"

definition UpdateClaimStatusWithRetry ::
  "apierrors \<Rightarrow> ('w retry_state condition \<Rightarrow> 'w retry_state \<Rightarrow> error option \<times> 'w retry_state) \<Rightarrow>
   ('w \<Rightarrow> error option) \<Rightarrow> 'w claim_client \<Rightarrow> ResourceClaim \<Rightarrow> string \<Rightarrow> 'w \<Rightarrow> error option \<times> 'w" where
  "UpdateClaimStatusWithRetry ae backoff ctxErr claims claim driverName w =
     (let desired = claim_Devices claim;
          (err, (_, lastErr, w')) =
            backoff (retry_condition ae claims driverName desired) (claim, None, w)
      in ((if err \<noteq> None \<and> lastErr \<noteq> None \<and> ctxErr w' = None then lastErr else err), w'))"

section \<open>The documented behaviour of the backoff loop\<close>

text \<open>The loop checks the condition at most \<open>n\<close> times. It ends without an error when the condition is
  done, with the condition's error when it fails, and otherwise with an error of its own (attempts
  used up, context cancelled) at some point between two checks.\<close>

inductive backoff_run :: "'s condition \<Rightarrow> nat \<Rightarrow> 's \<Rightarrow> error option \<times> 's \<Rightarrow> bool"
  for cond :: "'s condition" where
  stopped: "backoff_run cond n s (Some e, s)"
| finished: "cond s = ((True, None), s') \<Longrightarrow> backoff_run cond (Suc n) s (None, s')"
| failed: "cond s = ((b, Some e), s') \<Longrightarrow> backoff_run cond (Suc n) s (Some e, s')"
| again: "cond s = ((False, None), s') \<Longrightarrow> backoff_run cond n s' r \<Longrightarrow> backoff_run cond (Suc n) s r"

text \<open>The loop with a context that is never cancelled, for a given number of steps.\<close>

fun run_steps :: "nat \<Rightarrow> 's condition \<Rightarrow> 's \<Rightarrow> error option \<times> 's" where
  "run_steps 0 cond s = (Some (External ''timed out waiting for the condition''), s)"
| "run_steps (Suc n) cond s =
     (case cond s of
        ((ok, Some e), s') \<Rightarrow> (Some e, s')
      | ((True, None), s') \<Rightarrow> (None, s')
      | ((False, None), s') \<Rightarrow> run_steps n cond s')"

text \<open>A client that records the claims it is asked to write, to state what the loop submits.\<close>

definition logging :: "'w claim_client \<Rightarrow> ('w \<times> ResourceClaim list) claim_client" where
  "logging cl = \<lparr>
     UpdateStatus = (\<lambda>c (w, log). let (r, w') = UpdateStatus cl c w in (r, (w', log @ [c]))),
     GetClaim = (\<lambda>n (w, log). let (r, w') = GetClaim cl n w in (r, (w', log)))\<rparr>"

section \<open>The documented behaviour of the API server\<close>

text \<open>What the API server stored, as a list of versions of claims, the latest last; a version is marked when this driver
  wrote it. The history is an observation of the world: other drivers append to it during every call.\<close>

type_synonym history = "(bool \<times> ResourceClaim) list"

definition is_object :: "string \<Rightarrow> string \<Rightarrow> ResourceClaim \<Rightarrow> bool" where
  "is_object ns n c \<longleftrightarrow> claim_Namespace c = ns \<and> claim_Name c = n"

definition current :: "history \<Rightarrow> string \<Rightarrow> string \<Rightarrow> ResourceClaim option" where
  "current h ns n = (case filter (is_object ns n) (map snd h) of [] \<Rightarrow> None | xs \<Rightarrow> Some (last xs))"

definition others_write :: "history \<Rightarrow> history \<Rightarrow> bool" where
  "others_write h h' \<longleftrightarrow> (\<exists>new. h' = h @ new \<and> (\<forall>v \<in> set new. \<not> fst v))"

text \<open>The client of a namespace. Resource versions differ. A write of a status is stored only when the claim it was made from
  is the current version, and replaces this version; a write that returns without an error is stored (one that returns
  an error may be stored as well, when the answer is lost). A read returns some stored version of the claim.\<close>

definition client_documented :: "('w \<Rightarrow> history) \<Rightarrow> string \<Rightarrow> 'w claim_client \<Rightarrow> bool" where
  "client_documented hist ns cl \<longleftrightarrow> (\<forall>w. distinct (map (claim_ResourceVersion \<circ> snd) (hist w))) \<and>
     (\<forall>c w r w'. UpdateStatus cl c w = (r, w') \<longrightarrow>
        (others_write (hist w) (hist w') \<and> (\<exists>e. r = Inl e)) \<or>
        (\<exists>h x old. others_write (hist w) h \<and> hist w' = h @ [(True, x)] \<and> current h (claim_Namespace c) (claim_Name c) = Some old \<and>
           claim_ResourceVersion old = claim_ResourceVersion c \<and> is_object (claim_Namespace c) (claim_Name c) x \<and>
           claim_UID x = claim_UID old \<and> claim_Devices x = claim_Devices c)) \<and>
     (\<forall>n w r w'. GetClaim cl n w = (r, w') \<longrightarrow> others_write (hist w) (hist w') \<and>
        (\<forall>c. r = Inr c \<longrightarrow> c \<in> snd ` set (hist w') \<and> is_object ns n c))"

text \<open>A claim object that was made from a stored version by changing statuses of the driver \<open>d\<close> only.\<close>

definition edited :: "string \<Rightarrow> history \<Rightarrow> ResourceClaim \<Rightarrow> bool" where
  "edited d h c \<longleftrightarrow> (\<exists>c0 \<in> snd ` set h. claim_ResourceVersion c0 = claim_ResourceVersion c \<and>
     is_object (claim_Namespace c) (claim_Name c) c0 \<and> claim_UID c0 = claim_UID c \<and>
     foreign_to d (claim_Devices c0) = foreign_to d (claim_Devices c))"

text \<open>What this driver appends to a history satisfies \<open>P\<close>, given the history before the write and the version written.\<close>

definition own_writes :: "(history \<Rightarrow> ResourceClaim \<Rightarrow> bool) \<Rightarrow> history \<Rightarrow> history \<Rightarrow> bool" where
  "own_writes P h h' \<longleftrightarrow> (\<exists>new. h' = h @ new \<and> (\<forall>before x after. new = before @ (True, x) # after \<longrightarrow> P (h @ before) x))"

text \<open>A version \<open>x\<close> with the statuses of \<open>claim\<close> that are of driver \<open>d\<close>, which loses nothing of the version it replaces.\<close>

definition merged_write :: "string \<Rightarrow> ResourceClaim \<Rightarrow> history \<Rightarrow> ResourceClaim \<Rightarrow> bool" where
  "merged_write d claim h x \<longleftrightarrow> is_object (claim_Namespace claim) (claim_Name claim) x \<and>
     (\<exists>old. current h (claim_Namespace claim) (claim_Name claim) = Some old \<and> claim_UID old = claim_UID claim \<and>
        claim_UID x = claim_UID claim \<and> foreign_to d (claim_Devices x) = foreign_to d (claim_Devices old) \<and>
        (claim_Devices x = claim_Devices claim \<or> claim_Devices x = MergeDeviceStatuses (claim_Devices old) (claim_Devices claim) d))"

section \<open>Lemmas\<close>

lemma run_steps_documented: "backoff_run cond n s (run_steps n cond s)"
proof (induction n arbitrary: s)
  case 0
  show ?case by (simp add: backoff_run.stopped)
next
  case (Suc n)
  obtain ok e s' where c: "cond s = ((ok, e), s')" by (metis prod.exhaust)
  show ?case
  proof (cases e)
    case (Some x)
    with c show ?thesis by (cases ok) (simp_all add: backoff_run.failed)
  next
    case None
    with c Suc show ?thesis by (cases ok) (auto intro: backoff_run.intros)
  qed
qed

text \<open>Histories.\<close>

lemma others_write_refl [simp]: "others_write h h"
  by (simp add: others_write_def)

lemma own_writes_refl [simp]: "own_writes P h h"
  by (simp add: own_writes_def)

lemma others_own: "others_write h h' \<Longrightarrow> own_writes P h h'"
  unfolding others_write_def own_writes_def by fastforce

lemma own_writes_trans:
  assumes "own_writes P h h1" "own_writes P h1 h2" shows "own_writes P h h2"
proof -
  obtain n1 n2 where n: "h1 = h @ n1" "h2 = h @ n1 @ n2" "\<And>b x a. n1 = b @ (True, x) # a \<Longrightarrow> P (h @ b) x"
    "\<And>b x a. n2 = b @ (True, x) # a \<Longrightarrow> P (h @ n1 @ b) x" using assms by (auto simp: own_writes_def)
  have "P (h @ b) x" if eq: "n1 @ n2 = b @ (True, x) # a" for b x a
  proof -
    consider us where "n1 = b @ us" "us @ n2 = (True, x) # a" | us where "b = n1 @ us" "n2 = us @ (True, x) # a"
      using eq by (auto simp: append_eq_append_conv2)
    then show ?thesis
    proof cases
      case (1 us)
      then show ?thesis using n(3)[of b x] n(4)[of "[]" x a] by (cases us) auto
    next
      case (2 us)
      then show ?thesis using n(4)[of us x a] by simp
    qed
  qed
  then show ?thesis unfolding own_writes_def n(2) by blast
qed

lemma own_writes_snoc: "others_write h h1 \<Longrightarrow> P h1 x \<Longrightarrow> own_writes P h (h1 @ [(True, x)])"
  by (rule own_writes_trans[OF others_own, of _ h1]) (auto simp: own_writes_def Cons_eq_append_conv)

lemma own_writes_mono: "own_writes P h h' \<Longrightarrow> (\<And>b x. P (h @ b) x \<Longrightarrow> Q (h @ b) x) \<Longrightarrow> own_writes Q h h'"
  unfolding own_writes_def by blast

lemma own_writes_extends: "own_writes P h h' \<Longrightarrow> \<exists>new. h' = h @ new"
  by (auto simp: own_writes_def)

lemma others_write_extends: "others_write h h' \<Longrightarrow> \<exists>new. h' = h @ new \<and> filter fst new = []"
  by (auto simp: others_write_def filter_empty_conv)

lemma current_stored: "current h ns n = Some c \<Longrightarrow> c \<in> snd ` set h \<and> is_object ns n c"
proof -
  assume "current h ns n = Some c"
  then have "c = last (filter (is_object ns n) (map snd h))" "filter (is_object ns n) (map snd h) \<noteq> []"
    by (auto simp: current_def split: list.splits)
  then have "c \<in> set (filter (is_object ns n) (map snd h))" by (metis last_in_set)
  then show ?thesis by auto
qed

lemma version_unique:
  "distinct (map (claim_ResourceVersion \<circ> snd) h) \<Longrightarrow> c \<in> snd ` set h \<Longrightarrow> c' \<in> snd ` set h \<Longrightarrow>
    claim_ResourceVersion c = claim_ResourceVersion c' \<Longrightarrow> c = c'"
  by (auto simp: distinct_map inj_on_def)

lemma edited_extend: "edited d h c \<Longrightarrow> edited d (h @ new) c"
  by (auto simp: edited_def)

lemma client_documentedD:
  assumes "client_documented hist ns cl"
  shows "distinct (map (claim_ResourceVersion \<circ> snd) (hist w))"
    "UpdateStatus cl c w = (r, w') \<Longrightarrow> (others_write (hist w) (hist w') \<and> (\<exists>e. r = Inl e)) \<or>
      (\<exists>h x old. others_write (hist w) h \<and> hist w' = h @ [(True, x)] \<and> current h (claim_Namespace c) (claim_Name c) = Some old \<and>
         claim_ResourceVersion old = claim_ResourceVersion c \<and> is_object (claim_Namespace c) (claim_Name c) x \<and>
         claim_UID x = claim_UID old \<and> claim_Devices x = claim_Devices c)"
    "GetClaim cl n w = (r', w') \<Longrightarrow> others_write (hist w) (hist w') \<and> (\<forall>c. r' = Inr c \<longrightarrow> c \<in> snd ` set (hist w') \<and> is_object ns n c)"
  using assms unfolding client_documented_def by blast+

text \<open>The claim that the loop holds: the caller's object, or a version merged with the caller's statuses.\<close>

definition pending_claim :: "string \<Rightarrow> ResourceClaim \<Rightarrow> history \<Rightarrow> ResourceClaim \<Rightarrow> bool" where
  "pending_claim d claim h c \<longleftrightarrow> edited d h c \<and> is_object (claim_Namespace claim) (claim_Name claim) c \<and> claim_UID c = claim_UID claim \<and>
     (claim_Devices c = claim_Devices claim \<or> (\<exists>c0 \<in> snd ` set h. claim_ResourceVersion c0 = claim_ResourceVersion c \<and>
        claim_Devices c = MergeDeviceStatuses (claim_Devices c0) (claim_Devices claim) d))"

lemma pending_extend: "pending_claim d claim h c \<Longrightarrow> pending_claim d claim (h @ new) c"
  by (auto simp: pending_claim_def intro: edited_extend)

lemma pending_refetched:
  assumes "fresh \<in> snd ` set h" "is_object (claim_Namespace claim) (claim_Name claim) fresh" "claim_UID fresh = claim_UID claim"
  shows "pending_claim d claim h (fresh\<lparr>claim_Devices := MergeDeviceStatuses (claim_Devices fresh) (claim_Devices claim) d\<rparr>)"
  using assms by (auto simp: pending_claim_def edited_def is_object_def foreign_merge)

text \<open>A stored write of a pending claim replaces the very version the claim was made from.\<close>

lemma pending_stored:
  assumes doc: "client_documented hist ns cl" and pend: "pending_claim d claim (hist w) c" and st: "UpdateStatus cl c w = (r, w')"
  shows "own_writes (merged_write d claim) (hist w) (hist w')" "\<exists>new. hist w' = hist w @ new \<and> length (filter fst new) \<le> 1"
    "r = Inr y \<Longrightarrow> \<exists>new. hist w' = hist w @ new \<and> new \<noteq> [] \<and> fst (last new)"
proof -
  have "own_writes (merged_write d claim) (hist w) (hist w') \<and> (\<exists>new. hist w' = hist w @ new \<and> length (filter fst new) \<le> 1) \<and>
    (r = Inr y \<longrightarrow> (\<exists>new. hist w' = hist w @ new \<and> new \<noteq> [] \<and> fst (last new)))"
    using client_documentedD(2)[OF doc st]
  proof (elim disjE conjE exE)
    fix e assume "others_write (hist w) (hist w')" "r = Inl e"
    then show ?thesis using others_own others_write_extends[of "hist w" "hist w'"] by fastforce
  next
    fix h x old
    assume h: "others_write (hist w) h" "hist w' = h @ [(True, x)]" "current h (claim_Namespace c) (claim_Name c) = Some old"
      "claim_ResourceVersion old = claim_ResourceVersion c" "is_object (claim_Namespace c) (claim_Name c) x"
      "claim_UID x = claim_UID old" "claim_Devices x = claim_Devices c"
    obtain new where new: "h = hist w @ new" "filter fst new = []" using others_write_extends[OF h(1)] by blast
    have d: "distinct (map (claim_ResourceVersion \<circ> snd) h)" using client_documentedD(1)[OF doc, of w'] h(2) by simp
    have p: "pending_claim d claim h c" using pending_extend[OF pend] new(1) by simp
    have obj: "claim_Namespace c = claim_Namespace claim" "claim_Name c = claim_Name claim" "claim_UID c = claim_UID claim"
      using p by (simp_all add: pending_claim_def is_object_def)
    have same: "c0 = old" if "c0 \<in> snd ` set h" "claim_ResourceVersion c0 = claim_ResourceVersion c" for c0
      using version_unique[OF d that(1)] current_stored[OF h(3)] that(2) h(4) by simp
    then have "claim_UID old = claim_UID claim" "foreign_to d (claim_Devices old) = foreign_to d (claim_Devices c)"
      "claim_Devices c = claim_Devices claim \<or> claim_Devices c = MergeDeviceStatuses (claim_Devices old) (claim_Devices claim) d"
      using p obj unfolding pending_claim_def edited_def by metis+
    then have "merged_write d claim h x" using h(3,5-7) obj by (auto simp: merged_write_def)
    then have "own_writes (merged_write d claim) (hist w) (hist w')" unfolding h(2) by (rule own_writes_snoc[OF h(1)])
    then show ?thesis using h(2) new by (auto intro!: exI[of _ "new @ [(True, x)]"])
  qed
  then show "own_writes (merged_write d claim) (hist w) (hist w')" "\<exists>new. hist w' = hist w @ new \<and> length (filter fst new) \<le> 1"
    "r = Inr y \<Longrightarrow> \<exists>new. hist w' = hist w @ new \<and> new \<noteq> [] \<and> fst (last new)" by blast+
qed

text \<open>One check of the condition.\<close>

lemma retry_condition_step:
  assumes doc: "client_documented hist (claim_Namespace claim) cl" and pend: "pending_claim d claim (hist w) c"
    and run: "retry_condition ae cl d (claim_Devices claim) (c, le, w) = ((ok, e), (c', le', w'))"
  shows "own_writes (merged_write d claim) (hist w) (hist w')" "pending_claim d claim (hist w') c'"
    "\<exists>new. hist w' = hist w @ new \<and> length (filter fst new) \<le> 1"
    "ok \<Longrightarrow> \<exists>new. hist w' = hist w @ new \<and> new \<noteq> [] \<and> fst (last new)"
proof -
  obtain r w1 where u: "UpdateStatus cl c w = (r, w1)" by (metis prod.exhaust)
  note U = pending_stored[OF doc pend u]
  obtain new1 where new1: "hist w1 = hist w @ new1" "length (filter fst new1) \<le> 1" using U(2) by blast
  have p1: "pending_claim d claim (hist w1) c" using pending_extend[OF pend] new1(1) by simp
  have nm: "claim_Name c = claim_Name claim" "claim_UID c = claim_UID claim" using pend by (simp_all add: pending_claim_def is_object_def)
  consider (same) "w' = w1" "c' = c" "ok \<longrightarrow> (\<exists>y. r = Inr y)"
    | (fetched) r2 where "GetClaim cl (claim_Name c) w1 = (r2, w')" "\<not> ok"
        "c' = c \<or> (\<exists>fresh. r2 = Inr fresh \<and> claim_UID fresh = claim_UID c \<and>
           c' = fresh\<lparr>claim_Devices := MergeDeviceStatuses (claim_Devices fresh) (claim_Devices claim) d\<rparr>)"
    using run u by (auto simp: retry_condition_def Let_def split: prod.splits sum.splits if_splits)
  then have "own_writes (merged_write d claim) (hist w) (hist w') \<and> pending_claim d claim (hist w') c' \<and>
      (\<exists>new. hist w' = hist w @ new \<and> length (filter fst new) \<le> 1) \<and> (ok \<longrightarrow> (\<exists>new. hist w' = hist w @ new \<and> new \<noteq> [] \<and> fst (last new)))"
  proof cases
    case same
    then show ?thesis using U p1 new1 by blast
  next
    case (fetched r2)
    note G = client_documentedD(3)[OF doc fetched(1)]
    obtain new2 where new2: "hist w' = hist w1 @ new2" "filter fst new2 = []" using others_write_extends[of "hist w1" "hist w'"] G by blast
    have "pending_claim d claim (hist w') c'" using fetched(3)
    proof
      assume "\<exists>fresh. r2 = Inr fresh \<and> claim_UID fresh = claim_UID c \<and>
        c' = fresh\<lparr>claim_Devices := MergeDeviceStatuses (claim_Devices fresh) (claim_Devices claim) d\<rparr>"
      then show ?thesis using G nm by (auto intro!: pending_refetched)
    qed (use pending_extend[OF p1] new2(1) in simp)
    moreover have "own_writes (merged_write d claim) (hist w) (hist w')" using own_writes_trans[OF U(1) others_own] G by blast
    ultimately show ?thesis using new1 new2 fetched(2) by (auto intro!: exI[of _ "new1 @ new2"])
  qed
  then show "own_writes (merged_write d claim) (hist w) (hist w')" "pending_claim d claim (hist w') c'"
    "\<exists>new. hist w' = hist w @ new \<and> length (filter fst new) \<le> 1"
    "ok \<Longrightarrow> \<exists>new. hist w' = hist w @ new \<and> new \<noteq> [] \<and> fst (last new)" by blast+
qed

lemma retry_loop_writes:
  assumes doc: "client_documented hist (claim_Namespace claim) cl"
    and "backoff_run (retry_condition ae cl d (claim_Devices claim)) n (c, le, w) (err, (c', le', w'))" "pending_claim d claim (hist w) c"
  shows "own_writes (merged_write d claim) (hist w) (hist w') \<and> (\<exists>new. hist w' = hist w @ new \<and> length (filter fst new) \<le> n \<and>
    (err = None \<longrightarrow> new \<noteq> [] \<and> fst (last new)))"
  using assms(2,3)
proof (induction n "(c, le, w)" "(err, (c', le', w'))" arbitrary: c le w rule: backoff_run.induct)
  case (finished n c le w)
  note S = retry_condition_step[OF doc finished.prems finished.hyps(1)]
  obtain new where new: "hist w' = hist w @ new" "length (filter fst new) \<le> 1" using S(3) by blast
  then have "new \<noteq> [] \<and> fst (last new)" using S(4) by simp
  then show ?case using S(1) new by (intro conjI exI[of _ new]) auto
next
  case (failed b e n c le w)
  note S = retry_condition_step[OF doc failed.prems failed.hyps(1)]
  obtain new where new: "hist w' = hist w @ new" "length (filter fst new) \<le> 1" using S(3) by blast
  then show ?case using S(1) failed.hyps by (intro conjI exI[of _ new]) auto
next
  case (again s' n c le w)
  obtain c1 le1 w1 where s': "s' = (c1, le1, w1)" by (metis prod.exhaust)
  note S = retry_condition_step[OF doc again.prems again.hyps(1)[unfolded s']]
  note IH = again.hyps(3)[OF s' S(2)]
  obtain n1 n2 where n: "hist w1 = hist w @ n1" "length (filter fst n1) \<le> 1" "hist w' = hist w1 @ n2" "length (filter fst n2) \<le> n"
    "err = None \<longrightarrow> n2 \<noteq> [] \<and> fst (last n2)" using S(3) IH by blast
  then show ?case using own_writes_trans[OF S(1)] IH by (auto intro!: exI[of _ "n1 @ n2"])
qed auto

lemma retry_writes:
  assumes doc: "client_documented hist (claim_Namespace claim) cl" and backoff: "\<And>cond s. backoff_run cond BackoffSteps s (backoff cond s)"
    and ed: "edited d (hist w) claim" and run: "UpdateClaimStatusWithRetry ae backoff ctxErr cl claim d w = (err, w')"
  shows "own_writes (merged_write d claim) (hist w) (hist w') \<and> (\<exists>new. hist w' = hist w @ new \<and> length (filter fst new) \<le> BackoffSteps \<and>
    (err = None \<longrightarrow> new \<noteq> [] \<and> fst (last new)))"
proof -
  obtain e c' le' where b: "backoff (retry_condition ae cl d (claim_Devices claim)) (claim, None, w) = (e, (c', le', w'))" "err = None \<longrightarrow> e = None"
    using run by (auto simp: UpdateClaimStatusWithRetry_def Let_def split: prod.splits if_splits)
  have "pending_claim d claim (hist w) claim" using ed by (simp add: pending_claim_def is_object_def)
  then show ?thesis
    using retry_loop_writes[OF doc, of ae d BackoffSteps claim None w e c' le' w'] backoff[of "retry_condition ae cl d (claim_Devices claim)" "(claim, None, w)"] b
    by auto
qed

section \<open>Properties\<close>

text \<open>A permanent error (invalid, forbidden, not found) of the status write ends the loop at once:
  one write is made and its error is returned.\<close>

theorem UpdateClaimStatusWithRetry_permanent:
  assumes "UpdateStatus cl claim w = (Inl e, w')" "\<not> IsConflict ae e" "IsPermanentStatusUpdateError ae e"
  shows "UpdateClaimStatusWithRetry ae (run_steps BackoffSteps) (\<lambda>_. None) (logging cl) claim d (w, [])
    = (Some e, (w', [claim]))"
  using assms
  by (simp add: UpdateClaimStatusWithRetry_def BackoffSteps_def eval_nat_numeral retry_condition_def
      logging_def Let_def)

text \<open>A claim deleted and recreated under its name is never written: when the refetch after a
  conflict returns another UID, the call ends with an error after the one conflicting write.\<close>

theorem UpdateClaimStatusWithRetry_replaced:
  assumes "UpdateStatus cl claim w = (Inl e, wa)" "IsConflict ae e"
    and "GetClaim cl (claim_Name claim) wa = (Inr fresh, wb)" "claim_UID fresh \<noteq> claim_UID claim"
  shows "UpdateClaimStatusWithRetry ae (run_steps BackoffSteps) (\<lambda>_. None) (logging cl) claim d (w, [])
    = (Some replaced_error, (wb, [claim]))"
  using assms
  by (simp add: UpdateClaimStatusWithRetry_def BackoffSteps_def eval_nat_numeral retry_condition_def
      logging_def Let_def)

text \<open>C2. No lost update: run against an API server with optimistic concurrency, while other drivers write claims at any time and
  as often as they like, with a claim object that was read from the server and changed in statuses of this driver only, the call
  stores at most \<open>BackoffSteps\<close> versions. Each of them replaces a current version of the same claim (same UID), has the statuses of all
  other drivers that this version has, and of this driver the caller's: it is the caller's list or the merge of the caller's statuses
  into the replaced list. When the call reports success, its version was the last to be stored.\<close>

theorem UpdateClaimStatusWithRetry_no_lost_update:
  assumes "client_documented hist (claim_Namespace claim) cl" "\<And>cond s. backoff_run cond BackoffSteps s (backoff cond s)"
    and "edited d (hist w) claim" "UpdateClaimStatusWithRetry ae backoff ctxErr cl claim d w = (err, w')"
  shows "\<exists>new. hist w' = hist w @ new \<and> length (filter fst new) \<le> BackoffSteps \<and> (err = None \<longrightarrow> new \<noteq> [] \<and> fst (last new)) \<and>
    (\<forall>before x after. new = before @ (True, x) # after \<longrightarrow>
       (\<exists>old. current (hist w @ before) (claim_Namespace claim) (claim_Name claim) = Some old \<and>
          claim_UID old = claim_UID claim \<and> claim_UID x = claim_UID claim \<and> is_object (claim_Namespace claim) (claim_Name claim) x \<and>
          foreign_to d (claim_Devices x) = foreign_to d (claim_Devices old) \<and>
          (claim_Devices x = claim_Devices claim \<or> claim_Devices x = MergeDeviceStatuses (claim_Devices old) (claim_Devices claim) d)))"
proof -
  note W = retry_writes[OF assms]
  then obtain new where new: "hist w' = hist w @ new" "length (filter fst new) \<le> BackoffSteps" "err = None \<longrightarrow> new \<noteq> [] \<and> fst (last new)" by blast
  have "merged_write d claim (hist w @ before) x" if "new = before @ (True, x) # after" for before x after
    using W that unfolding own_writes_def new(1) by blast
  then show ?thesis using new unfolding merged_write_def by blast
qed

section \<open>Witnesses\<close>

text \<open>A simulated API server: the versions it stored, numbered by their position, and what other drivers will do, one write before each
  status write. A status write is accepted only with the current version.\<close>

record server =
  srv_log :: history
  srv_writes :: "(ResourceClaim \<Rightarrow> ResourceClaim) list"

definition srv_hist :: "server \<Rightarrow> history" where
  "srv_hist s = map (\<lambda>(i, own, c). (own, c\<lparr>claim_ResourceVersion := i\<rparr>)) (enumerate 0 (srv_log s))"

definition srv_interfere :: "server \<Rightarrow> server" where
  "srv_interfere s = (case srv_writes s of [] \<Rightarrow> s
     | f # fs \<Rightarrow> s\<lparr>srv_log := srv_log s @ (if srv_log s = [] then [] else [(False, f (snd (last (srv_log s))))]), srv_writes := fs\<rparr>)"

definition server_client :: "string \<Rightarrow> server claim_client" where
  "server_client ns = \<lparr>
     UpdateStatus = (\<lambda>c s0. let s = srv_interfere s0 in
       case current (srv_hist s) (claim_Namespace c) (claim_Name c) of
         None \<Rightarrow> (Inl (External ''NotFound''), s)
       | Some old \<Rightarrow>
           if claim_ResourceVersion old = claim_ResourceVersion c
           then (let x = c\<lparr>claim_UID := claim_UID old\<rparr> in (Inr x, s\<lparr>srv_log := srv_log s @ [(True, x)]\<rparr>))
           else (Inl (External ''Conflict''), s)),
     GetClaim = (\<lambda>n s. (case current (srv_hist s) ns n of None \<Rightarrow> Inl (External ''NotFound'') | Some c \<Rightarrow> Inr c, s))\<rparr>"

definition server_errors :: apierrors where
  "server_errors = \<lparr>IsConflict = (\<lambda>e. e = External ''Conflict''), IsInvalid = (\<lambda>e. e = External ''Invalid''),
     IsForbidden = (\<lambda>e. e = External ''Forbidden''), IsNotFound = (\<lambda>e. e = External ''NotFound'')\<rparr>"

lemma srv_hist_snoc: "srv_hist (s\<lparr>srv_log := srv_log s @ [(b, c)]\<rparr>) = srv_hist s @ [(b, c\<lparr>claim_ResourceVersion := length (srv_log s)\<rparr>)]"
  by (simp add: srv_hist_def enumerate_append_eq)

lemma srv_interfere_others: "others_write (srv_hist s) (srv_hist (srv_interfere s))"
proof (cases "srv_writes s")
  case (Cons f fs)
  have w: "srv_hist (t\<lparr>srv_writes := fs\<rparr>) = srv_hist t" for t by (simp add: srv_hist_def)
  show ?thesis
  proof (cases "srv_log s = []")
    case True
    then show ?thesis using Cons by (simp add: srv_interfere_def others_write_def srv_hist_def)
  next
    case False
    then show ?thesis using srv_hist_snoc[of s False "f (snd (last (srv_log s)))"] Cons w by (simp add: srv_interfere_def others_write_def)
  qed
qed (simp add: srv_interfere_def)

lemma server_documented: "client_documented srv_hist ns (server_client ns)"
proof -
  have "map (claim_ResourceVersion \<circ> snd) (srv_hist s) = [0..<length (srv_log s)]" for s
    by (rule nth_equalityI) (simp_all add: srv_hist_def nth_enumerate_eq case_prod_beta)
  then have "distinct (map (claim_ResourceVersion \<circ> snd) (srv_hist s))" for s by simp
  moreover have "(others_write (srv_hist s) (srv_hist s') \<and> (\<exists>e. r = Inl e)) \<or>
      (\<exists>h x old. others_write (srv_hist s) h \<and> srv_hist s' = h @ [(True, x)] \<and> current h (claim_Namespace c) (claim_Name c) = Some old \<and>
         claim_ResourceVersion old = claim_ResourceVersion c \<and> is_object (claim_Namespace c) (claim_Name c) x \<and>
         claim_UID x = claim_UID old \<and> claim_Devices x = claim_Devices c)"
    if "UpdateStatus (server_client ns) c s = (r, s')" for c s r s'
    using that srv_interfere_others[of s] srv_hist_snoc[of "srv_interfere s" True]
    by (auto simp: server_client_def Let_def is_object_def split: option.splits if_splits)
  moreover have "others_write (srv_hist s) (srv_hist s') \<and> (\<forall>c. r = Inr c \<longrightarrow> c \<in> snd ` set (srv_hist s') \<and> is_object ns n c)"
    if "GetClaim (server_client ns) n s = (r, s')" for n s r s'
    using that current_stored[of "srv_hist s" ns n] by (auto simp: server_client_def split: option.splits)
  ultimately show ?thesis unfolding client_documented_def by blast
qed

definition example_claim :: ResourceClaim where
  "example_claim = \<lparr>claim_ResourceVersion = 0, claim_Name = ''c'', claim_Namespace = ''ns'',
     claim_UID = ''u1'', claim_ReservedFor = [''p1''], claim_Allocation = None,
     claim_Devices = [example_status DriverName ''vf0'' ''a'']\<rparr>"

text \<open>Another driver adds its status just before the first write.\<close>

definition example_server :: server where
  "example_server = \<lparr>srv_log = [(False, example_claim\<lparr>claim_Devices := []\<rparr>)],
     srv_writes = [\<lambda>c. c\<lparr>claim_Devices := claim_Devices c @ [example_status ''other'' ''gpu0'' ''x'']\<rparr>]\<rparr>"

theorem UpdateClaimStatusWithRetry_permanent_witness:
  "UpdateClaimStatusWithRetry server_errors (run_steps BackoffSteps) (\<lambda>_. None)
     (logging ((server_client ''ns'')\<lparr>UpdateStatus := \<lambda>c s. (Inl (External ''Invalid''), s)\<rparr>)) example_claim DriverName
     (example_server, []) = (Some (External ''Invalid''), (example_server, [example_claim]))"
  by (rule UpdateClaimStatusWithRetry_permanent)
     (simp_all add: server_errors_def IsPermanentStatusUpdateError_def)

theorem UpdateClaimStatusWithRetry_replaced_witness:
  "UpdateClaimStatusWithRetry server_errors (run_steps BackoffSteps) (\<lambda>_. None)
     (logging \<lparr>UpdateStatus = \<lambda>c s. (Inl (External ''Conflict''), s), GetClaim = \<lambda>n s. (Inr (example_claim\<lparr>claim_UID := ''u2''\<rparr>), s)\<rparr>)
     example_claim DriverName (example_server, []) = (Some replaced_error, (example_server, [example_claim]))"
  by (rule UpdateClaimStatusWithRetry_replaced
        [where e = "External ''Conflict''" and fresh = "example_claim\<lparr>claim_UID := ''u2''\<rparr>" and wa = example_server])
     (simp_all add: server_errors_def example_claim_def)

theorem UpdateClaimStatusWithRetry_no_lost_update_witness:
  "\<exists>s' x. UpdateClaimStatusWithRetry server_errors (run_steps BackoffSteps) (\<lambda>_. None) (server_client ''ns'') example_claim DriverName example_server = (None, s') \<and>
     last (srv_hist s') = (True, x) \<and> foreign_to DriverName (claim_Devices x) = [example_status ''other'' ''gpu0'' ''x'']"
proof -
  obtain err s' where run: "UpdateClaimStatusWithRetry server_errors (run_steps BackoffSteps) (\<lambda>_. None) (server_client ''ns'') example_claim DriverName example_server = (err, s')"
    by (metis prod.exhaust)
  have eval: "fst (UpdateClaimStatusWithRetry server_errors (run_steps BackoffSteps) (\<lambda>_. None) (server_client ''ns'') example_claim DriverName example_server) = None"
    "length (srv_hist (snd (UpdateClaimStatusWithRetry server_errors (run_steps BackoffSteps) (\<lambda>_. None) (server_client ''ns'') example_claim DriverName example_server))) = 3"
    "take 2 (srv_hist (snd (UpdateClaimStatusWithRetry server_errors (run_steps BackoffSteps) (\<lambda>_. None) (server_client ''ns'') example_claim DriverName example_server))) =
      [(False, example_claim\<lparr>claim_Devices := []\<rparr>),
       (False, example_claim\<lparr>claim_ResourceVersion := 1, claim_Devices := [example_status ''other'' ''gpu0'' ''x'']\<rparr>)]"
    by code_simp+
  have ed: "edited DriverName (srv_hist example_server) example_claim"
    by (simp add: edited_def srv_hist_def example_server_def example_claim_def is_object_def foreign_to_def example_status_def)
  have ns: "claim_Namespace example_claim = ''ns''" by (simp add: example_claim_def)
  obtain new where new: "srv_hist s' = srv_hist example_server @ new" "err = None \<longrightarrow> new \<noteq> [] \<and> fst (last new)"
    "\<And>before x after. new = before @ (True, x) # after \<Longrightarrow>
       \<exists>old. current (srv_hist example_server @ before) ''ns'' (claim_Name example_claim) = Some old \<and> foreign_to DriverName (claim_Devices x) = foreign_to DriverName (claim_Devices old)"
    using UpdateClaimStatusWithRetry_no_lost_update[OF server_documented run_steps_documented ed, unfolded ns, OF run] by blast
  have h: "srv_hist example_server = [(False, example_claim\<lparr>claim_Devices := []\<rparr>)]" by code_simp
  have "length new = 2" "hd new = (False, example_claim\<lparr>claim_ResourceVersion := 1, claim_Devices := [example_status ''other'' ''gpu0'' ''x'']\<rparr>)" "err = None"
    using eval new(1) run by (auto simp: h take_Cons' hd_conv_nth split: if_splits) (cases new; simp)+
  then obtain x where x: "new = [(False, example_claim\<lparr>claim_ResourceVersion := 1, claim_Devices := [example_status ''other'' ''gpu0'' ''x'']\<rparr>), (True, x)]"
    using new(2) by (cases new; cases "tl new") (auto simp: prod_eq_iff)
  from new(3)[of "[hd new]" x "[]"] have "foreign_to DriverName (claim_Devices x) = [example_status ''other'' ''gpu0'' ''x'']"
    by (auto simp: x h current_def is_object_def example_claim_def foreign_to_def example_status_def DriverName_def)
  then show ?thesis using run \<open>err = None\<close> new(1) x by auto
qed

end
