(* ===== verification/ClaimLifecycle.thy ===== *)
theory ClaimLifecycle
  imports Prepare StatusRetry
begin

text \<open>
  What preparing and unpreparing a claim does to the drivers of the devices, to the claim's status, to
  the interface names and to the CDI ids handed to the kubelet: success, roll-back of a partial
  failure, and the round trip.
\<close>

section \<open>The documented environment\<close>

text \<open>The kernel behaves as documented, and the CDI and device-info libraries, which write files of their
  own, do not bind drivers.\<close>

definition env_documented :: "'w env \<Rightarrow> ('w \<Rightarrow> string \<rightharpoonup> string) \<Rightarrow> bool" where
  "env_documented env drv \<longleftrightarrow> sysfs_documented (env_os env) drv \<and>
     (\<forall>a b w. drv (snd (CleanDeviceInfoForDP (env_dis env) a b w)) = drv w) \<and>
     (\<forall>a b i w. drv (snd (SaveDeviceInfoForDP (env_dis env) a b i w)) = drv w) \<and>
     (\<forall>spec n w. drv (snd (cdi_WriteSpec (env_cdi env) spec n w)) = drv w) \<and>
     (\<forall>n w. drv (snd (cdi_RemoveSpec (env_cdi env) n w)) = drv w)"

definition valid_driver :: "VfConfig \<Rightarrow> bool" where
  "valid_driver c \<longleftrightarrow> vf_Driver c = [] \<or> is_name (vf_Driver c)"

section \<open>Lemmas: single devices\<close>

lemma container_edits_drv:
  assumes "sysfs_documented os drv" shows "drv (snd (container_edits os s c d a n w)) = drv w"
proof -
  have "drv (snd (EnsureVhostModulesLoaded os w)) = drv w"
    by (simp add: EnsureVhostModulesLoaded_def ensure_modules_drv[OF assms] tableless_modules_def)
  then show ?thesis
    by (cases "fst (EnsureVhostModulesLoaded os w)")
       (auto simp: container_edits_def bind_io_def case_prod_beta split: res.split)
qed

lemma bind_device_drv:
  assumes "sysfs_documented os drv" "is_name a" "valid_driver c" "BindDeviceDriver os a c w = (r, w')"
  shows "vf_Driver c = [] \<Longrightarrow> r = Ok [] \<and> w' = w"
    and "r = Ok orig \<Longrightarrow> vf_Driver c \<noteq> [] \<Longrightarrow> orig = driver_name (drv w a)"
    and "r = Ok orig \<Longrightarrow> vf_Driver c \<noteq> [] \<Longrightarrow> vf_Driver c \<noteq> ''default'' \<Longrightarrow> drv w' a = Some (vf_Driver c)"
    and "d \<noteq> a \<Longrightarrow> drv w' d = drv w d"
  using bind_device_spec[OF assms(1,2) _ assms(4)] assms(3) by (auto simp: valid_driver_def)

text \<open>The steps of \<^verbatim>\<open>applyConfigOnDevice\<close> that a successful call went through.\<close>

lemma apply_Ok:
  assumes "applyConfigOnDevice env s idx claim c r w = (Ok (p, idx'), w')"
  obtains d a orig w1 edits where "mget (allocatable s) (r_Device r) = Some d" "pci_address d = Ok a"
    "BindDeviceDriver (env_os env) a c w = (Ok orig, w1)"
    "container_edits (env_os env) s c d a (r_Device r) w1 = (Ok edits, w')"
    "pd_PciAddress p = a" "pd_Config p = Some c" "pd_OriginalDriver p = orig"
    "pd_DeviceName p = r_Device r" "pd_PoolName p = r_Pool r" "pd_RequestNames p = [r_Request r]"
    "pd_Claim p = \<lparr>no_Name = claim_Name claim, no_Namespace = claim_Namespace claim, no_UID = claim_UID claim\<rparr>"
    "claim_ReservedFor claim = pd_PodUID p # tl (claim_ReservedFor claim)"
    "pd_CdiDeviceIds p = [GetClaimDevices (env_cdi env) (claim_UID claim) (r_Device r), GetPodSpecName (env_cdi env) (pd_PodUID p)]"
    "pd_IfName p = (if isStandaloneMode s \<and> vf_IfName c = [] then defaultInterfacePrefix s @ Itoa idx else vf_IfName c)"
    "idx' = (if isStandaloneMode s \<and> vf_IfName c = [] then Suc idx else idx)"
proof -
  obtain d where d: "mget (allocatable s) (r_Device r) = Some d"
    using assms by (auto simp: applyConfigOnDevice_def split: option.splits)
  obtain mr mi mb where m: "(if isMultusMode s then extractMultusDeviceInfoAttrs (dev_Attributes d) else ([], [], False)) = (mr, mi, mb)"
    by (metis prod.exhaust)
  obtain a where a: "pci_address d = Ok a"
    using assms d m by (cases "pci_address d") (simp_all add: applyConfigOnDevice_def)
  obtain nc where nc: "netconf_for env s claim c a w = Ok nc"
    using assms d m a by (cases "netconf_for env s claim c a w") (simp_all add: applyConfigOnDevice_def)
  obtain b w1 where bw: "BindDeviceDriver (env_os env) a c w = (b, w1)" by (metis prod.exhaust)
  obtain orig where b: "b = Ok orig"
    using assms d m a nc bw by (cases b) (simp_all add: applyConfigOnDevice_def)
  obtain e w2 where ew: "container_edits (env_os env) s c d a (r_Device r) w1 = (e, w2)" by (metis prod.exhaust)
  obtain edits where e: "e = Ok edits"
    using assms d m a nc bw b ew
    by (cases e) (auto simp: applyConfigOnDevice_def restoreDriverOnError_def split: if_splits prod.splits res.splits)
  obtain u us where u: "claim_ReservedFor claim = u # us"
    using assms d m a nc bw b ew e by (cases "claim_ReservedFor claim") (simp_all add: applyConfigOnDevice_def)
  have "w' = w2 \<and> pd_PciAddress p = a \<and> pd_Config p = Some c \<and> pd_OriginalDriver p = orig \<and>
      pd_DeviceName p = r_Device r \<and> pd_PoolName p = r_Pool r \<and> pd_RequestNames p = [r_Request r] \<and>
      pd_Claim p = \<lparr>no_Name = claim_Name claim, no_Namespace = claim_Namespace claim, no_UID = claim_UID claim\<rparr> \<and>
      pd_PodUID p = u \<and>
      pd_CdiDeviceIds p = [GetClaimDevices (env_cdi env) (claim_UID claim) (r_Device r), GetPodSpecName (env_cdi env) u] \<and>
      pd_IfName p = (if isStandaloneMode s \<and> vf_IfName c = [] then defaultInterfacePrefix s @ Itoa idx else vf_IfName c) \<and>
      idx' = (if isStandaloneMode s \<and> vf_IfName c = [] then Suc idx else idx)"
    using assms d m a nc bw b ew e u by (auto simp: applyConfigOnDevice_def Let_def)
  then show ?thesis using that[OF d a] bw b ew e u by simp
qed

text \<open>The failures after which the device itself is as before: not a failed bind, and not a failed restore.\<close>

definition clean_failure :: "error \<Rightarrow> bool" where
  "clean_failure e \<longleftrightarrow> (\<forall>x. e \<noteq> Errorf ''error binding device %s to driver: %w'' x) \<and>
     (\<forall>x. e \<noteq> Errorf ''%w; additionally failed to restore original driver for device %s: %v'' x)"

lemma restore_drv:
  assumes "sysfs_documented os drv" "is_name a" "is_name orig" "RestoreDeviceDriver os a orig w = (Ok (), w')"
  shows "drv w' = (drv w)(a \<mapsto> orig)"
proof -
  have "BindDriverByBusAndDevice os a orig w = (Ok (), w')"
    using assms(3,4) by (simp add: RestoreDeviceDriver_def is_name_def)
  from bind_driver_drv[OF assms(1-3) this] show ?thesis by blast
qed

lemma restore_on_error_drv:
  assumes doc: "sysfs_documented os drv" "is_name a" "is_name orig"
    and run: "restoreDriverOnError os c a orig cause w = (Err e, w')" and clean: "clean_failure e" and ne: "vf_Driver c \<noteq> []"
  shows "drv w' = (drv w)(a \<mapsto> orig)"
proof -
  have "RestoreDeviceDriver os a orig w = (Ok (), w')"
    using run clean ne by (auto simp: restoreDriverOnError_def clean_failure_def split: prod.splits res.splits)
  then show ?thesis by (rule restore_drv[OF doc])
qed

lemma apply_Err_drv:
  assumes doc: "sysfs_documented (env_os env) drv" and valid: "valid_driver c"
    and bound: "\<And>d a. mget (allocatable s) (r_Device r) = Some d \<Longrightarrow> pci_address d = Ok a \<Longrightarrow>
        is_name a \<and> (\<exists>orig. drv w a = Some orig \<and> is_name orig)"
    and run: "applyConfigOnDevice env s idx claim c r w = (Err e, w')" and clean: "clean_failure e"
  shows "drv w' = drv w"
proof (cases "\<exists>d a nc. mget (allocatable s) (r_Device r) = Some d \<and> pci_address d = Ok a \<and> netconf_for env s claim c a w = Ok nc")
  case False
  then show ?thesis
    using run by (auto simp: applyConfigOnDevice_def case_prod_beta split: option.splits res.splits)
next
  case True
  then obtain d a nc where d: "mget (allocatable s) (r_Device r) = Some d" "pci_address d = Ok a"
    "netconf_for env s claim c a w = Ok nc" by blast
  obtain orig where a: "is_name a" "drv w a = Some orig" "is_name orig" using bound[OF d(1,2)] by blast
  obtain mr mi mb where m: "(if isMultusMode s then extractMultusDeviceInfoAttrs (dev_Attributes d) else ([], [], False)) = (mr, mi, mb)"
    by (metis prod.exhaust)
  obtain b w1 where bw: "BindDeviceDriver (env_os env) a c w = (b, w1)" by (metis prod.exhaust)
  obtain saved where b: "b = Ok saved"
    using run clean d m bw by (cases b) (auto simp: applyConfigOnDevice_def clean_failure_def)
  note bd = bind_device_drv[OF doc a(1) valid bw]
  obtain ce w2 where ew: "container_edits (env_os env) s c d a (r_Device r) w1 = (ce, w2)" by (metis prod.exhaust)
  have w2: "drv w2 = drv w1" using container_edits_drv[OF doc, of s c d a "r_Device r" w1] ew by simp
  obtain cause where ce: "ce = Err cause"
    using run d m bw b ew by (cases ce) (auto simp: applyConfigOnDevice_def Let_def split: list.splits)
  have re: "restoreDriverOnError (env_os env) c a saved cause w2 = ((Err e :: (PreparedDevice \<times> nat) res), w')"
    using run d m bw b ew ce by (simp add: applyConfigOnDevice_def)
  show ?thesis
  proof (cases "vf_Driver c = []")
    case True
    then show ?thesis using re bd(1) w2 by (simp add: restoreDriverOnError_def)
  next
    case False
    have saved: "saved = orig" using bd(2)[OF b False] a(2) by (simp add: driver_name_def)
    have "drv w' = (drv w2)(a \<mapsto> orig)"
      using restore_on_error_drv[OF doc a(1) a(3) re[unfolded saved] clean False] .
    then show ?thesis using w2 bd(4) a(2) by (auto simp: fun_eq_iff)
  qed
qed

section \<open>Lemmas: all devices of a claim\<close>

definition rebound :: "PreparedDevice \<Rightarrow> bool" where
  "rebound p = (case pd_Config p of None \<Rightarrow> False | Some c \<Rightarrow> vf_Driver c \<noteq> [])"

text \<open>The prepared devices record what they had in the world \<open>w0\<close>, and no other device changed since.\<close>

definition tracked :: "('w \<Rightarrow> string \<rightharpoonup> string) \<Rightarrow> 'w \<Rightarrow> PreparedDevice list \<Rightarrow> 'w \<Rightarrow> bool" where
  "tracked drv w0 ds w \<longleftrightarrow>
     (\<forall>p \<in> set ds. is_name (pd_PciAddress p) \<and>
        (rebound p \<longrightarrow> drv w0 (pd_PciAddress p) = Some (pd_OriginalDriver p) \<and> is_name (pd_OriginalDriver p))) \<and>
     (\<forall>d. (\<forall>p \<in> set ds. rebound p \<longrightarrow> pd_PciAddress p \<noteq> d) \<longrightarrow> drv w d = drv w0 d)"

lemma unprepare_restores:
  assumes doc: "sysfs_documented os drv"
  shows "tracked drv w0 ds w \<Longrightarrow> unprepareDevices os (map Some ds) w = (Ok (), w') \<Longrightarrow> drv w' = drv w0"
proof (induction ds arbitrary: w)
  case Nil
  then show ?case by (auto simp: tracked_def fun_eq_iff)
next
  case (Cons p ds)
  show ?case
  proof (cases "rebound p")
    case False
    then have "unprepareDevices os (map Some ds) w = (Ok (), w')" "tracked drv w0 ds w"
      using Cons.prems by (auto simp: rebound_def tracked_def split: option.splits)
    then show ?thesis using Cons.IH by blast
  next
    case True
    obtain w1 where w1: "RestoreDeviceDriver os (pd_PciAddress p) (pd_OriginalDriver p) w = (Ok (), w1)"
      "unprepareDevices os (map Some ds) w1 = (Ok (), w')"
      using Cons.prems(2) True by (auto simp: rebound_def split: option.splits prod.splits res.splits)
    have p: "is_name (pd_PciAddress p)" "drv w0 (pd_PciAddress p) = Some (pd_OriginalDriver p)" "is_name (pd_OriginalDriver p)"
      using Cons.prems(1) True by (simp_all add: tracked_def)
    have "drv w1 = (drv w)(pd_PciAddress p \<mapsto> pd_OriginalDriver p)" by (rule restore_drv[OF doc p(1,3) w1(1)])
    then have "tracked drv w0 ds w1" using Cons.prems(1) p by (auto simp: tracked_def)
    then show ?thesis using Cons.IH w1(2) by blast
  qed
qed

text \<open>Rules for the loop over the allocation results: what every successful round keeps holds at the end,
  and a failing call stopped in some round, whose predecessors it tried to undo.\<close>

definition config_of :: "(string, VfConfig) gomap \<Rightarrow> DeviceRequestAllocationResult \<Rightarrow> VfConfig" where
  "config_of rc r = Normalize (config_for rc (r_Request r))"

definition with_status :: "'w env \<Rightarrow> (string, VfConfig) gomap \<Rightarrow> DeviceRequestAllocationResult \<Rightarrow> ResourceClaim \<Rightarrow> ResourceClaim" where
  "with_status env rc r claim =
     claim\<lparr>claim_Devices := UpsertDeviceStatus (claim_Devices claim) (device_status env (config_of rc r) r)\<rparr>"

lemma prepare_results_Ok:
  assumes run: "prepare_results env s rc idx claim ds rs w = ((Ok ds', idx', claim'), w')"
    and init: "I rs idx claim ds w"
    and skip: "\<And>r rs idx claim ds w. r_Driver r \<noteq> DriverName \<Longrightarrow> I (r # rs) idx claim ds w \<Longrightarrow> I rs idx claim ds w"
    and step: "\<And>r rs idx claim ds w p idx1 w1. r_Driver r = DriverName \<Longrightarrow> I (r # rs) idx claim ds w \<Longrightarrow>
        applyConfigOnDevice env s idx claim (config_of rc r) r w = (Ok (p, idx1), w1) \<Longrightarrow>
        I rs idx1 (with_status env rc r claim) (ds @ [p]) w1"
  shows "I [] idx' claim' ds' w'"
  using run init
proof (induction rs arbitrary: idx claim ds w)
  case Nil
  then show ?case by simp
next
  case (Cons r rs)
  show ?case
  proof (cases "r_Driver r = DriverName")
    case False
    then show ?thesis using Cons.IH Cons.prems skip by simp
  next
    case True
    obtain p idx1 w1 where a: "applyConfigOnDevice env s idx claim (config_of rc r) r w = (Ok (p, idx1), w1)"
      using Cons.prems(1) True by (auto simp: config_of_def Let_def split: res.splits prod.splits)
    have "prepare_results env s rc idx1 (with_status env rc r claim) (ds @ [p]) rs w1 = ((Ok ds', idx', claim'), w')"
      using Cons.prems(1) True a by (simp add: config_of_def with_status_def Let_def)
    then show ?thesis using Cons.IH step[OF True Cons.prems(2) a] by blast
  qed
qed

definition failing_round :: "'w env \<Rightarrow> Manager \<Rightarrow> (string, VfConfig) gomap \<Rightarrow>
    (DeviceRequestAllocationResult list \<Rightarrow> nat \<Rightarrow> ResourceClaim \<Rightarrow> PreparedDevice list \<Rightarrow> 'w \<Rightarrow> bool) \<Rightarrow> error \<Rightarrow> 'w \<Rightarrow> bool" where
  "failing_round env s rc I e w' \<longleftrightarrow>
     (\<exists>r rs idx0 claim0 ds0 w0 cause w1 rb. r_Driver r = DriverName \<and> I (r # rs) idx0 claim0 ds0 w0 \<and>
      applyConfigOnDevice env s idx0 claim0 (config_of rc r) r w0 = (Err cause, w1) \<and>
      unprepareDevices (env_os env) (map Some ds0) w1 = (rb, w') \<and>
      (rb = Ok () \<and> e = Errorf ''error applying config on device: %v'' [cause] \<or>
       (\<exists>x. rb = Err x \<and> e = Errorf ''error applying config on device: %v; rollback failed: %v'' [cause, x])))"

lemma prepare_results_Err:
  assumes run: "prepare_results env s rc idx claim ds rs w = ((Err e, idx', claim'), w')"
    and init: "I rs idx claim ds w"
    and skip: "\<And>r rs idx claim ds w. r_Driver r \<noteq> DriverName \<Longrightarrow> I (r # rs) idx claim ds w \<Longrightarrow> I rs idx claim ds w"
    and step: "\<And>r rs idx claim ds w p idx1 w1. r_Driver r = DriverName \<Longrightarrow> I (r # rs) idx claim ds w \<Longrightarrow>
        applyConfigOnDevice env s idx claim (config_of rc r) r w = (Ok (p, idx1), w1) \<Longrightarrow>
        I rs idx1 (with_status env rc r claim) (ds @ [p]) w1"
  shows "failing_round env s rc I e w'"
  using run init
proof (induction rs arbitrary: idx claim ds w)
  case Nil
  then show ?case by simp
next
  case (Cons r rs)
  show ?case
  proof (cases "r_Driver r = DriverName")
    case False
    then have "prepare_results env s rc idx claim ds rs w = ((Err e, idx', claim'), w')" using Cons.prems by simp
    then show ?thesis by (rule Cons.IH) (rule skip[OF False Cons.prems(2)])
  next
    case True
    obtain a w1 where a: "applyConfigOnDevice env s idx claim (config_of rc r) r w = (a, w1)" by (metis prod.exhaust)
    show ?thesis
    proof (cases a)
      case (Ok x)
      obtain p idx1 where x: "x = (p, idx1)" by (metis prod.exhaust)
      have "prepare_results env s rc idx1 (with_status env rc r claim) (ds @ [p]) rs w1 = ((Err e, idx', claim'), w')"
        using Cons.prems(1) True a Ok x by (simp add: config_of_def with_status_def Let_def)
      then show ?thesis by (rule Cons.IH) (rule step[OF True Cons.prems(2) a[unfolded Ok x]])
    next
      case (Err cause)
      obtain rb w2 where u: "unprepareDevices (env_os env) (map Some ds) w1 = (rb, w2)" by (metis prod.exhaust)
      have "w2 = w' \<and> (rb = Ok () \<and> e = Errorf ''error applying config on device: %v'' [cause] \<or>
         (\<exists>x. rb = Err x \<and> e = Errorf ''error applying config on device: %v; rollback failed: %v'' [cause, x]))"
        using Cons.prems(1) True a Err u by (cases rb) (auto simp: config_of_def Let_def)
      then show ?thesis using True Cons.prems(2) a Err u unfolding failing_round_def by blast
    next
      case (Panic x)
      then show ?thesis using Cons.prems(1) True a by (simp add: config_of_def Let_def)
    qed
  qed
qed

section \<open>Lemmas: drivers during prepare\<close>

definition own_results :: "DeviceRequestAllocationResult list \<Rightarrow> DeviceRequestAllocationResult list" where
  "own_results rs = filter (\<lambda>r. r_Driver r = DriverName) rs"

lemma own_results_simps [simp]:
  "own_results [] = []"
  "r_Driver r = DriverName \<Longrightarrow> own_results (r # rs) = r # own_results rs"
  "r_Driver r \<noteq> DriverName \<Longrightarrow> own_results (r # rs) = own_results rs"
  by (simp_all add: own_results_def)

definition result_pci :: "Manager \<Rightarrow> DeviceRequestAllocationResult \<Rightarrow> string option" where
  "result_pci s r = (case mget (allocatable s) (r_Device r) of None \<Rightarrow> None
     | Some d \<Rightarrow> (case pci_address d of Ok a \<Rightarrow> Some a | _ \<Rightarrow> None))"

lemma result_pci_Some:
  "mget (allocatable s) (r_Device r) = Some d \<Longrightarrow> pci_address d = Ok a \<Longrightarrow> result_pci s r = Some a"
  by (simp add: result_pci_def)

text \<open>The results name different devices, as far as the manager knows them, each bound to a driver.\<close>

definition bound_results :: "('w \<Rightarrow> string \<rightharpoonup> string) \<Rightarrow> Manager \<Rightarrow> DeviceRequestAllocationResult list \<Rightarrow> 'w \<Rightarrow> bool" where
  "bound_results drv s rs w \<longleftrightarrow> distinct (List.map_filter (result_pci s) (own_results rs)) \<and>
     (\<forall>r \<in> set (own_results rs). \<forall>a. result_pci s r = Some a \<longrightarrow>
        is_name a \<and> (\<exists>orig. drv w a = Some orig \<and> is_name orig))"

definition valid_configs :: "(string, VfConfig) gomap \<Rightarrow> bool" where
  "valid_configs rc \<longleftrightarrow> (\<forall>(k, c) \<in> set rc. valid_driver c)"

lemma valid_config_of: "valid_configs rc \<Longrightarrow> valid_driver (config_of rc r)"
  by (auto simp: valid_configs_def config_of_def Normalize_def config_for_def valid_driver_def DefaultVfConfig_def
      dest!: map_of_SomeD split: option.splits)

definition fresh_results :: "Manager \<Rightarrow> PreparedDevice list \<Rightarrow> DeviceRequestAllocationResult list \<Rightarrow> bool" where
  "fresh_results s ds rs \<longleftrightarrow> (\<forall>p \<in> set ds. Some (pd_PciAddress p) \<notin> set (map (result_pci s) (own_results rs)))"

lemma tracked_fresh:
  "tracked drv w0 ds w \<Longrightarrow> (\<And>p. p \<in> set ds \<Longrightarrow> pd_PciAddress p \<noteq> a) \<Longrightarrow> drv w a = drv w0 a"
  unfolding tracked_def by blast

lemma tracked_step:
  assumes doc: "sysfs_documented (env_os env) drv" and valid: "valid_driver c" and tr: "tracked drv w0 ds w"
    and bound: "\<And>a. result_pci s r = Some a \<Longrightarrow> is_name a \<and> (\<exists>orig. drv w0 a = Some orig \<and> is_name orig)"
    and fresh: "\<And>p. p \<in> set ds \<Longrightarrow> Some (pd_PciAddress p) \<noteq> result_pci s r"
    and run: "applyConfigOnDevice env s idx claim c r w = (Ok (p, idx'), w')"
  shows "tracked drv w0 (ds @ [p]) w'"
    and "result_pci s r = Some (pd_PciAddress p)" and "pd_Config p = Some c"
    and "vf_Driver c \<noteq> [] \<Longrightarrow> vf_Driver c \<noteq> ''default'' \<Longrightarrow> drv w' (pd_PciAddress p) = Some (vf_Driver c)"
    and "d \<noteq> pd_PciAddress p \<Longrightarrow> drv w' d = drv w d"
proof -
  obtain d' a orig w1 edits where A: "mget (allocatable s) (r_Device r) = Some d'" "pci_address d' = Ok a"
    "BindDeviceDriver (env_os env) a c w = (Ok orig, w1)"
    "container_edits (env_os env) s c d' a (r_Device r) w1 = (Ok edits, w')"
    "pd_PciAddress p = a" "pd_Config p = Some c" "pd_OriginalDriver p = orig"
    using run by (rule apply_Ok)
  have pci: "result_pci s r = Some a" by (rule result_pci_Some[OF A(1,2)])
  have a: "is_name a" "\<exists>orig. drv w0 a = Some orig \<and> is_name orig" using bound[OF pci] by blast+
  have w0: "drv w a = drv w0 a" using fresh pci by (intro tracked_fresh[OF tr]) auto
  note bd = bind_device_drv[OF doc a(1) valid A(3)]
  have w': "drv w' = drv w1" using container_edits_drv[OF doc, of s c d' a "r_Device r" w1] A(4) by simp
  have reb: "rebound p \<longleftrightarrow> vf_Driver c \<noteq> []" by (simp add: rebound_def A(6))
  have new: "drv w0 a = Some orig \<and> is_name orig" if "rebound p"
    using bd(2)[of orig] that a(2) w0 reb by (auto simp: driver_name_def)
  have frame: "drv w' x = drv w x" if "rebound p \<longrightarrow> x \<noteq> a" for x
    using that bd(1,4) w' reb by (cases "vf_Driver c = []") auto
  show "tracked drv w0 (ds @ [p]) w'"
    unfolding tracked_def
  proof (intro conjI ballI allI impI)
    fix q assume "q \<in> set (ds @ [p])"
    then show "is_name (pd_PciAddress q)" using tr a(1) A(5) by (auto simp: tracked_def)
  next
    fix q assume "q \<in> set (ds @ [p])" "rebound q"
    then show "drv w0 (pd_PciAddress q) = Some (pd_OriginalDriver q)" "is_name (pd_OriginalDriver q)"
      using tr new A(5,7) by (auto simp: tracked_def)
  next
    fix x assume x: "\<forall>q \<in> set (ds @ [p]). rebound q \<longrightarrow> pd_PciAddress q \<noteq> x"
    then have "drv w x = drv w0 x" using tr by (auto simp: tracked_def)
    then show "drv w' x = drv w0 x" using frame[of x] x A(5) by auto
  qed
  show "result_pci s r = Some (pd_PciAddress p)" "pd_Config p = Some c" using pci A(5,6) by simp_all
  show "drv w' (pd_PciAddress p) = Some (vf_Driver c)" if "vf_Driver c \<noteq> []" "vf_Driver c \<noteq> ''default''"
    using bd(3)[of orig] that w' A(5) by simp
  show "d \<noteq> pd_PciAddress p \<Longrightarrow> drv w' d = drv w d" using frame[of d] A(5) by auto
qed

lemma in_map_filter: "a \<in> set (List.map_filter f xs) \<longleftrightarrow> Some a \<in> f ` set xs"
  by (induction xs) (auto split: option.splits)

lemma bound_Cons:
  "r_Driver r \<noteq> DriverName \<Longrightarrow> bound_results drv s (r # rs) w = bound_results drv s rs w"
  "r_Driver r = DriverName \<Longrightarrow> bound_results drv s (r # rs) w \<Longrightarrow> bound_results drv s rs w"
  by (auto simp: bound_results_def split: option.splits)

text \<open>What the loop maintains about drivers: tracked devices, and the rest still ahead.\<close>

definition driver_inv :: "('w \<Rightarrow> string \<rightharpoonup> string) \<Rightarrow> Manager \<Rightarrow> 'w \<Rightarrow> DeviceRequestAllocationResult list \<Rightarrow>
    PreparedDevice list \<Rightarrow> 'w \<Rightarrow> bool" where
  "driver_inv drv s w0 rs ds w \<longleftrightarrow> tracked drv w0 ds w \<and> bound_results drv s rs w0 \<and> fresh_results s ds rs \<and>
     (\<forall>p \<in> set ds. \<forall>c. pd_Config p = Some c \<longrightarrow> vf_Driver c \<noteq> [] \<longrightarrow> vf_Driver c \<noteq> ''default'' \<longrightarrow>
        drv w (pd_PciAddress p) = Some (vf_Driver c))"

lemma driver_inv_skip:
  "r_Driver r \<noteq> DriverName \<Longrightarrow> driver_inv drv s w0 (r # rs) ds w \<Longrightarrow> driver_inv drv s w0 rs ds w"
  by (simp add: driver_inv_def bound_Cons fresh_results_def)

lemma driver_inv_head:
  assumes "r_Driver r = DriverName" "driver_inv drv s w0 (r # rs) ds w"
  shows "result_pci s r = Some a \<Longrightarrow> is_name a \<and> (\<exists>orig. drv w0 a = Some orig \<and> is_name orig)"
    and "p \<in> set ds \<Longrightarrow> Some (pd_PciAddress p) \<noteq> result_pci s r"
  using assms by (auto simp: driver_inv_def bound_results_def fresh_results_def)

lemma driver_inv_step:
  assumes doc: "sysfs_documented (env_os env) drv" and valid: "valid_configs rc"
    and own: "r_Driver r = DriverName" and inv: "driver_inv drv s w0 (r # rs) ds w"
    and run: "applyConfigOnDevice env s idx claim (config_of rc r) r w = (Ok (p, idx'), w')"
  shows "driver_inv drv s w0 rs (ds @ [p]) w'"
proof -
  have tr: "tracked drv w0 ds w" using inv by (simp add: driver_inv_def)
  note st = tracked_step[OF doc valid_config_of[OF valid] tr driver_inv_head[OF own inv] run]
  have b: "bound_results drv s (r # rs) w0" "fresh_results s ds (r # rs)" using inv by (simp_all add: driver_inv_def)
  have "fresh_results s (ds @ [p]) rs"
    using b own st(2) by (auto simp: fresh_results_def bound_results_def in_map_filter image_iff)
  moreover have "pd_PciAddress q \<noteq> pd_PciAddress p" if "q \<in> set ds" for q
    using driver_inv_head(2)[OF own inv that] st(2) by simp
  ultimately show ?thesis
    using inv st bound_Cons(2)[OF own b(1)] by (auto simp: driver_inv_def)
qed

section \<open>Lemmas: the claim\<close>

lemma clean_infos_drv:
  assumes "env_documented env drv" shows "drv (snd (clean_infos (env_dis env) errs ps w)) = drv w"
proof (induction ps arbitrary: errs w)
  case Nil
  then show ?case by simp
next
  case (Cons p ps)
  show ?case
  proof (cases p)
    case (Some a)
    obtain r w1 where c: "CleanDeviceInfoForDP (env_dis env) (pd_MultusResourceName a) (pd_MultusDeviceID a) w = (r, w1)" by (metis prod.exhaust)
    then have "drv w1 = drv w" using assms unfolding env_documented_def by (metis snd_conv)
    then show ?thesis using Cons.IH Some c by (cases r) simp_all
  qed (simp add: Cons.IH)
qed

lemma clean_files_drv:
  assumes "env_documented env drv" "cleanDeviceInfoFilesForPreparedDevicesIfNeeded (env_dis env) s ps w = (r, w')"
  shows "drv w' = drv w"
  using assms(2) clean_infos_drv[OF assms(1), of "[]" ps w]
  by (cases "clean_infos (env_dis env) [] ps w"; cases "fst (clean_infos (env_dis env) [] ps w)")
     (auto simp: cleanDeviceInfoFilesForPreparedDevicesIfNeeded_def cleanDeviceInfoFilesForPreparedDevices_def split: if_splits)

lemma save_info_drv:
  assumes "env_documented env drv" shows "drv (snd (saveDeviceInfoForPreparedDevice (env_os env) (env_dis env) p w)) = drv w"
proof -
  obtain r1 w1 where c: "CleanDeviceInfoForDP (env_dis env) (pd_MultusResourceName p) (pd_MultusDeviceID p) w = (r1, w1)" by (metis prod.exhaust)
  have w1: "drv w1 = drv w" using assms c unfolding env_documented_def by (metis snd_conv)
  have sv: "drv (snd (SaveDeviceInfoForDP (env_dis env) a b i w1)) = drv w1" for a b i
    using assms unfolding env_documented_def by blast
  show ?thesis
  proof (cases r1)
    case (Ok x)
    then show ?thesis
      using c w1 sv by (auto simp: saveDeviceInfoForPreparedDevice_def Let_def split: prod.split res.split) (metis snd_conv)+
  qed (use c w1 in \<open>simp_all add: saveDeviceInfoForPreparedDevice_def Let_def\<close>)
qed

lemma sync_infos_drv:
  assumes "env_documented env drv" shows "drv (snd (sync_infos (env_os env) (env_dis env) errs ps w)) = drv w"
proof (induction ps arbitrary: errs w)
  case Nil
  then show ?case by simp
next
  case (Cons p ps)
  show ?case
  proof (cases p)
    case (Some a)
    obtain r w1 where c: "saveDeviceInfoForPreparedDevice (env_os env) (env_dis env) a w = (r, w1)" by (metis prod.exhaust)
    then have "drv w1 = drv w" using save_info_drv[OF assms, of a w] by simp
    then show ?thesis using Cons.IH Some c by (cases r) simp_all
  qed (simp add: Cons.IH)
qed

lemma sync_files_drv:
  assumes "env_documented env drv" "syncDeviceInfoFilesForPreparedDevicesIfNeeded (env_os env) (env_dis env) s ps w = (r, w')"
  shows "drv w' = drv w"
  using assms(2) sync_infos_drv[OF assms(1), of "[]" ps w]
  by (cases "sync_infos (env_os env) (env_dis env) [] ps w"; cases "fst (sync_infos (env_os env) (env_dis env) [] ps w)")
     (auto simp: syncDeviceInfoFilesForPreparedDevicesIfNeeded_def syncDeviceInfoFilesForPreparedDevices_def split: if_splits)

lemma claim_spec_file_drv:
  assumes "env_documented env drv" "CreateClaimSpecFile (env_cdi env) (map Some ds) w = (r, w')" "ds \<noteq> []"
  shows "drv w' = drv w"
proof -
  have "drv (snd (cdi_WriteSpec (env_cdi env) sp n w)) = drv w" for sp n
    using assms(1) by (simp add: env_documented_def)
  then show ?thesis
    using assms(2) unfolding CreateClaimSpecFile_eq[OF assms(3)] by (auto split: res.splits) (metis snd_conv)
qed

lemma spec_delete_drv:
  "env_documented env drv \<Longrightarrow> DeleteSpecFile (env_cdi env) u w = (r, w') \<Longrightarrow> drv w' = drv w"
  unfolding env_documented_def DeleteSpecFile_def by (metis snd_conv)

lemma prepare_claim_Ok:
  assumes "PrepareDevicesForClaim env s idx claim w = ((Ok ds, idx', claim'), w')"
  obtains al rc w1 w2 where "claim_Allocation claim = Some al"
    "getMapOfOpaqueDeviceConfigForDevice (env_decode env) (al_Config al) = Ok rc"
    "prepare_results env s rc idx claim [] (al_Results al) w = ((Ok ds, idx', claim'), w1)" "ds \<noteq> []"
    "syncDeviceInfoFilesForPreparedDevicesIfNeeded (env_os env) (env_dis env) s (map Some ds) w1 = (Ok (), w2)"
    "CreateClaimSpecFile (env_cdi env) (map Some ds) w2 = (Ok (), w')"
proof -
  obtain al where al: "claim_Allocation claim = Some al"
    using assms by (cases "claim_Allocation claim") (simp_all add: PrepareDevicesForClaim_def)
  obtain rc where rc: "getMapOfOpaqueDeviceConfigForDevice (env_decode env) (al_Config al) = Ok rc"
    using assms al by (cases "getMapOfOpaqueDeviceConfigForDevice (env_decode env) (al_Config al)")
      (simp_all add: PrepareDevicesForClaim_def)
  obtain r i c w1 where p: "prepare_results env s rc idx claim [] (al_Results al) w = ((r, i, c), w1)" by (metis prod.exhaust)
  obtain ds' where r: "r = Ok ds'"
    using assms al rc p by (cases r) (simp_all add: PrepareDevicesForClaim_def prepareDevices_def)
  have ne: "ds' \<noteq> []" using assms al rc p r by (auto simp: PrepareDevicesForClaim_def prepareDevices_def)
  obtain y w2 where y: "syncDeviceInfoFilesForPreparedDevicesIfNeeded (env_os env) (env_dis env) s (map Some ds') w1 = (y, w2)"
    by (metis prod.exhaust)
  have yo: "y = Ok ()"
    using assms al rc p r ne y
    by (cases y) (auto simp: PrepareDevicesForClaim_def prepareDevices_def rollback_prepared_def Let_def split: res.splits prod.splits)
  obtain z w3 where z: "CreateClaimSpecFile (env_cdi env) (map Some ds') w2 = (z, w3)" by (metis prod.exhaust)
  have zo: "z = Ok ()"
    using assms al rc p r ne y yo z
    by (cases z) (auto simp: PrepareDevicesForClaim_def prepareDevices_def rollback_prepared_def Let_def split: res.splits prod.splits)
  have "ds' = ds \<and> i = idx' \<and> c = claim' \<and> w3 = w'"
    using assms al rc p r ne y yo z zo by (simp add: PrepareDevicesForClaim_def prepareDevices_def)
  then show ?thesis using that[OF al rc] p r ne y yo z zo by simp
qed

text \<open>Errors that report neither a failed bind nor a failed restore.\<close>

definition damage_formats :: "string list" where
  "damage_formats = [''error binding device %s to driver: %w'',
     ''%w; additionally failed to restore original driver for device %s: %v'',
     ''error applying config on device: %v; rollback failed: %v'', ''rollback failed: %w'']"

fun undamaged :: "error \<Rightarrow> bool" where
  "undamaged (Errorf f es) = (f \<notin> set damage_formats \<and> list_all undamaged es)"
| "undamaged (Joined es) = list_all undamaged es"
| "undamaged (External m) = True"

lemma undamaged_clean: "undamaged e \<Longrightarrow> clean_failure e"
  by (cases e) (auto simp: clean_failure_def damage_formats_def)

lemma with_status_frame [simp]:
  "claim_UID (with_status env rc r c) = claim_UID c" "claim_Name (with_status env rc r c) = claim_Name c"
  "claim_Namespace (with_status env rc r c) = claim_Namespace c" "claim_ReservedFor (with_status env rc r c) = claim_ReservedFor c"
  "claim_Allocation (with_status env rc r c) = claim_Allocation c"
  by (simp_all add: with_status_def)

text \<open>The prepared device and the interface index of one result, as far as they do not depend on the host.\<close>

definition generated_name :: "Manager \<Rightarrow> VfConfig \<Rightarrow> bool" where
  "generated_name s c \<longleftrightarrow> isStandaloneMode s \<and> vf_IfName c = []"

definition prepared_for :: "'w env \<Rightarrow> Manager \<Rightarrow> (string, VfConfig) gomap \<Rightarrow> ResourceClaim \<Rightarrow>
    DeviceRequestAllocationResult \<Rightarrow> PreparedDevice \<Rightarrow> bool" where
  "prepared_for env s rc claim r p \<longleftrightarrow>
     pd_DeviceName p = r_Device r \<and> pd_PoolName p = r_Pool r \<and> pd_RequestNames p = [r_Request r] \<and>
     pd_Config p = Some (config_of rc r) \<and> result_pci s r = Some (pd_PciAddress p) \<and>
     pd_Claim p = \<lparr>no_Name = claim_Name claim, no_Namespace = claim_Namespace claim, no_UID = claim_UID claim\<rparr> \<and>
     claim_ReservedFor claim = pd_PodUID p # tl (claim_ReservedFor claim) \<and>
     pd_CdiDeviceIds p = [GetClaimDevices (env_cdi env) (claim_UID claim) (r_Device r), GetPodSpecName (env_cdi env) (pd_PodUID p)] \<and>
     (\<not> generated_name s (config_of rc r) \<longrightarrow> pd_IfName p = vf_IfName (config_of rc r))"

lemma apply_prepared:
  assumes "applyConfigOnDevice env s idx claim (config_of rc r) r w = (Ok (p, idx'), w')"
  shows "prepared_for env s rc claim r p"
    "(generated_name s (config_of rc r) \<and> pd_IfName p = defaultInterfacePrefix s @ Itoa idx \<and> idx' = Suc idx) \<or>
     (\<not> generated_name s (config_of rc r) \<and> idx' = idx)"
proof -
  show "prepared_for env s rc claim r p"
    by (rule apply_Ok[OF assms]) (simp only: prepared_for_def generated_name_def result_pci_Some if_False; simp)
  show "(generated_name s (config_of rc r) \<and> pd_IfName p = defaultInterfacePrefix s @ Itoa idx \<and> idx' = Suc idx) \<or>
     (\<not> generated_name s (config_of rc r) \<and> idx' = idx)"
    by (rule apply_Ok[OF assms]) (auto simp: generated_name_def)
qed

lemma prepared_for_status: "prepared_for env s rc (with_status env rc r' c) r p = prepared_for env s rc c r p"
  by (simp add: prepared_for_def)

text \<open>The functional result of the loop.\<close>

definition all_prepared :: "'w env \<Rightarrow> Manager \<Rightarrow> (string, VfConfig) gomap \<Rightarrow> ResourceClaim \<Rightarrow>
    DeviceRequestAllocationResult list \<Rightarrow> DeviceRequestAllocationResult list \<Rightarrow> ResourceClaim \<Rightarrow> PreparedDevice list \<Rightarrow> bool" where
  "all_prepared env s rc claim0 rs0 rs claim ds \<longleftrightarrow>
     (\<exists>ahead. own_results rs0 = ahead @ own_results rs \<and> list_all2 (prepared_for env s rc claim0) ahead ds \<and>
        claim = fold (with_status env rc) ahead claim0)"

lemma fold_with_status_frame:
  "claim_UID (fold (with_status env rc) rs c) = claim_UID c" "claim_Name (fold (with_status env rc) rs c) = claim_Name c"
  "claim_Namespace (fold (with_status env rc) rs c) = claim_Namespace c"
  "claim_ReservedFor (fold (with_status env rc) rs c) = claim_ReservedFor c"
  "claim_Devices (fold (with_status env rc) rs c) =
     foldl UpsertDeviceStatus (claim_Devices c) (map (\<lambda>r. device_status env (config_of rc r) r) rs)"
  by (induction rs arbitrary: c) (simp_all add: with_status_def)

lemma prepared_for_fold: "prepared_for env s rc (fold (with_status env rc) rs c) r p = prepared_for env s rc c r p"
  by (simp add: prepared_for_def fold_with_status_frame)

lemma results_prepared:
  assumes "prepare_results env s rc idx claim [] rs w = ((Ok ds, idx', claim'), w')"
  shows "list_all2 (prepared_for env s rc claim) (own_results rs) ds"
    "claim' = fold (with_status env rc) (own_results rs) claim"
proof -
  have "all_prepared env s rc claim rs [] claim' ds"
  proof (rule prepare_results_Ok[OF assms, where I = "\<lambda>rs' i c ds w. all_prepared env s rc claim rs rs' c ds"])
    show "all_prepared env s rc claim rs rs claim []" by (simp add: all_prepared_def)
  next
    fix r rs' c ds assume "r_Driver r \<noteq> DriverName" "all_prepared env s rc claim rs (r # rs') c ds"
    then show "all_prepared env s rc claim rs rs' c ds" by (simp add: all_prepared_def)
  next
    fix r rs' i c ds w p i1 w1
    assume own: "r_Driver r = DriverName" and inv: "all_prepared env s rc claim rs (r # rs') c ds"
      and run: "applyConfigOnDevice env s i c (config_of rc r) r w = (Ok (p, i1), w1)"
    obtain ahead where a: "own_results rs = ahead @ r # own_results rs'" "list_all2 (prepared_for env s rc claim) ahead ds"
      "c = fold (with_status env rc) ahead claim"
      using inv own by (auto simp: all_prepared_def)
    have "prepared_for env s rc claim r p" using apply_prepared(1)[OF run] a(3) by (simp add: prepared_for_fold)
    then show "all_prepared env s rc claim rs rs' (with_status env rc r c) (ds @ [p])"
      using a unfolding all_prepared_def by (intro exI[of _ "ahead @ [r]"]) (simp add: list_all2_appendI)
  qed
  then show "list_all2 (prepared_for env s rc claim) (own_results rs) ds"
    "claim' = fold (with_status env rc) (own_results rs) claim" by (auto simp: all_prepared_def)
qed

lemma results_names:
  assumes "prepare_results env s rc idx claim [] rs w = ((Ok ds, idx', claim'), w')"
  shows "idx \<le> idx' \<and> map pd_IfName (filter (\<lambda>p. generated_name s (the (pd_Config p))) ds) =
     map (\<lambda>i. defaultInterfacePrefix s @ Itoa i) [idx..<idx']"
proof (rule prepare_results_Ok[OF assms, where I = "\<lambda>rs' i c ds w. idx \<le> i \<and>
    map pd_IfName (filter (\<lambda>p. generated_name s (the (pd_Config p))) ds) = map (\<lambda>i. defaultInterfacePrefix s @ Itoa i) [idx..<i]"])
  fix r and rs' :: "DeviceRequestAllocationResult list" and i c and ds :: "PreparedDevice list" and w p i1 w1
  assume inv: "idx \<le> i \<and> map pd_IfName (filter (\<lambda>p. generated_name s (the (pd_Config p))) ds) = map (\<lambda>i. defaultInterfacePrefix s @ Itoa i) [idx..<i]"
    and run: "applyConfigOnDevice env s i c (config_of rc r) r w = (Ok (p, i1), w1)"
  have "pd_Config p = Some (config_of rc r)" using apply_prepared(1)[OF run] by (simp add: prepared_for_def)
  then show "idx \<le> i1 \<and> map pd_IfName (filter (\<lambda>p. generated_name s (the (pd_Config p))) (ds @ [p])) = map (\<lambda>i. defaultInterfacePrefix s @ Itoa i) [idx..<i1]"
    using inv apply_prepared(2)[OF run] by auto
qed simp_all

lemma prepare_claim_parts:
  assumes run: "PrepareDevicesForClaim env s idx claim w = ((Ok ds, idx', claim'), w')"
    and al: "claim_Allocation claim = Some al" "getMapOfOpaqueDeviceConfigForDevice (env_decode env) (al_Config al) = Ok rc"
  obtains w1 w2 where "prepare_results env s rc idx claim [] (al_Results al) w = ((Ok ds, idx', claim'), w1)" "ds \<noteq> []"
    "syncDeviceInfoFilesForPreparedDevicesIfNeeded (env_os env) (env_dis env) s (map Some ds) w1 = (Ok (), w2)"
    "CreateClaimSpecFile (env_cdi env) (map Some ds) w2 = (Ok (), w')"
  using prepare_claim_Ok[OF run] al by (metis option.inject res.inject(1))

lemma driver_inv_init: "bound_results drv s rs w \<Longrightarrow> driver_inv drv s w rs [] w"
  by (simp add: driver_inv_def tracked_def fresh_results_def)

lemma tracked_cong: "tracked drv w0 ds w \<Longrightarrow> drv w' = drv w \<Longrightarrow> tracked drv w0 ds w'"
  by (simp add: tracked_def)

lemma claim_prepared_drv:
  assumes doc: "env_documented env drv" and valid: "valid_configs rc"
    and al: "claim_Allocation claim = Some al" "getMapOfOpaqueDeviceConfigForDevice (env_decode env) (al_Config al) = Ok rc"
    and bound: "bound_results drv s (al_Results al) w"
    and run: "PrepareDevicesForClaim env s idx claim w = ((Ok ds, idx', claim'), w')"
  shows "driver_inv drv s w [] ds w'"
proof -
  have sys: "sysfs_documented (env_os env) drv" using doc by (simp add: env_documented_def)
  obtain w1 w2 where p: "prepare_results env s rc idx claim [] (al_Results al) w = ((Ok ds, idx', claim'), w1)" "ds \<noteq> []"
    "syncDeviceInfoFilesForPreparedDevicesIfNeeded (env_os env) (env_dis env) s (map Some ds) w1 = (Ok (), w2)"
    "CreateClaimSpecFile (env_cdi env) (map Some ds) w2 = (Ok (), w')"
    using prepare_claim_parts[OF run al] .
  have "driver_inv drv s w [] ds w1"
    by (rule prepare_results_Ok[OF p(1), where I = "\<lambda>rs i c ds w'. driver_inv drv s w rs ds w'"])
       (rule driver_inv_init[OF bound], rule driver_inv_skip, assumption+, rule driver_inv_step[OF sys valid])
  then show ?thesis
    using sync_files_drv[OF doc p(3)] claim_spec_file_drv[OF doc p(4,2)] by (simp add: driver_inv_def tracked_def)
qed

lemma collect_Nil:
  "collect m step errs w = (Ok [], w') \<Longrightarrow> errs = [] \<and> step w = (Ok (), w')"
  by (auto simp: collect_def split: prod.splits res.splits)

lemma join_Ok: "join_errors errs = Ok () \<longleftrightarrow> errs = []"
  by (simp add: join_errors_def)

lemma Unprepare_Ok:
  assumes doc: "env_documented env drv" and run: "Unprepare env s u ps w = (Ok (), w')"
  obtains w1 w2 where "drv w1 = drv w" "unprepareDevices (env_os env) ps w1 = (Ok (), w2)" "drv w' = drv w2"
proof -
  obtain e1 w1 e2 w2 e3 w3 e4 w4 where u:
    "collect ''unable to clean device-info files for claim: %v'' (cleanDeviceInfoFilesForPreparedDevicesIfNeeded (env_dis env) s ps) [] w = (Ok e1, w1)"
    "collect ''unprepare failed: %v'' (unprepareDevices (env_os env) ps) e1 w1 = (Ok e2, w2)"
    "collect ''unable to delete CDI spec file for PodUID: %v'' (DeleteSpecFile (env_cdi env) u) e2 w2 = (Ok e3, w3)"
    and last0: "(case ps of Some p # _ \<Rightarrow> collect ''unable to delete CDI spec file for PodUID: %v'' (DeleteSpecFile (env_cdi env) (pd_PodUID p)) e3 w3
       | _ \<Rightarrow> (Ok e3, w3)) = (Ok e4, w4)" and je: "(join_errors e4, w4) = (Ok (), w')"
    using run unfolding Unprepare_def bind_io_eq_Ok by (elim exE conjE) (rule that)
  note last = last0[unfolded conjunct1[OF je[unfolded prod.inject, unfolded join_Ok]] conjunct2[OF je[unfolded prod.inject]]]
  have l: "e3 = [] \<and> drv w' = drv w3"
  proof (cases "\<exists>p ps'. ps = Some p # ps'")
    case True
    then obtain p ps' where "ps = Some p # ps'" by blast
    then have "collect ''unable to delete CDI spec file for PodUID: %v'' (DeleteSpecFile (env_cdi env) (pd_PodUID p)) e3 w3 = (Ok [], w')"
      using last by simp
    from collect_Nil[OF this] show ?thesis using spec_delete_drv[OF doc] by blast
  next
    case False
    then show ?thesis using last by (auto split: list.splits option.splits)
  qed
  have c3: "e2 = []" "DeleteSpecFile (env_cdi env) u w2 = (Ok (), w3)"
    using collect_Nil[OF u(3)[unfolded conjunct1[OF l]]] by simp_all
  have c2: "e1 = []" "unprepareDevices (env_os env) ps w1 = (Ok (), w2)"
    using collect_Nil[OF u(2)[unfolded c3(1)]] by simp_all
  have c1: "cleanDeviceInfoFilesForPreparedDevicesIfNeeded (env_dis env) s ps w = (Ok (), w1)"
    using collect_Nil[OF u(1)[unfolded c2(1)]] by simp
  show ?thesis
    by (rule that[OF clean_files_drv[OF doc c1] c2(2)]) (simp add: l spec_delete_drv[OF doc c3(2)])
qed

lemma rollback_prepared_drv:
  assumes doc: "env_documented env drv" and tr: "tracked drv w0 ds w"
    and run: "rollback_prepared env s m err (map Some ds) w = (Err e, w')" and e: "undamaged e"
  shows "drv w' = drv w0"
proof -
  have sys: "sysfs_documented (env_os env) drv" using doc by (simp add: env_documented_def)
  obtain r1 w1 where c: "cleanDeviceInfoFilesForPreparedDevicesIfNeeded (env_dis env) s (map Some ds) w = (r1, w1)" by (metis prod.exhaust)
  obtain r2 w2 where u: "unprepareDevices (env_os env) (map Some ds) w1 = (r2, w2)" by (metis prod.exhaust)
  have "r2 = Ok () \<and> w2 = w'"
    using run e c u by (cases r1; cases r2) (auto simp: rollback_prepared_def Let_def damage_formats_def)
  then show ?thesis using unprepare_restores[OF sys tracked_cong[OF tr clean_files_drv[OF doc c]]] u by simp
qed

lemma prepare_results_rolls_back:
  assumes sys: "sysfs_documented (env_os env) drv" and valid: "valid_configs rc" and bound: "bound_results drv s rs w"
    and run: "prepare_results env s rc idx claim [] rs w = ((Err e, idx', claim'), w')" and e: "undamaged e"
  shows "drv w' = drv w"
proof -
  have "failing_round env s rc (\<lambda>rs i c ds w'. driver_inv drv s w rs ds w') e w'"
    by (rule prepare_results_Err[OF run, where I = "\<lambda>rs i c ds w'. driver_inv drv s w rs ds w'"])
       (rule driver_inv_init[OF bound], rule driver_inv_skip, assumption+, rule driver_inv_step[OF sys valid])
  then obtain r rs0 idx0 claim0 ds0 w0 cause w1 rb where f: "r_Driver r = DriverName" "driver_inv drv s w (r # rs0) ds0 w0"
    "applyConfigOnDevice env s idx0 claim0 (config_of rc r) r w0 = (Err cause, w1)"
    "unprepareDevices (env_os env) (map Some ds0) w1 = (rb, w')"
    "rb = Ok () \<and> e = Errorf ''error applying config on device: %v'' [cause] \<or>
       (\<exists>x. rb = Err x \<and> e = Errorf ''error applying config on device: %v; rollback failed: %v'' [cause, x])"
    unfolding failing_round_def by (elim exE conjE) (rule that)
  have cause: "rb = Ok ()" "clean_failure cause"
    using f(5) e by (auto simp: damage_formats_def dest: undamaged_clean)
  have tr: "tracked drv w ds0 w0" using f(2) by (simp add: driver_inv_def)
  have "drv w1 = drv w0"
  proof (rule apply_Err_drv[OF sys valid_config_of[OF valid] _ f(3) cause(2)])
    fix d a assume "mget (allocatable s) (r_Device r) = Some d" "pci_address d = Ok a"
    then have pci: "result_pci s r = Some a" by (rule result_pci_Some)
    have "drv w0 a = drv w a" by (rule tracked_fresh[OF tr]) (use driver_inv_head(2)[OF f(1,2)] pci in auto)
    then show "is_name a \<and> (\<exists>orig. drv w0 a = Some orig \<and> is_name orig)" using driver_inv_head(1)[OF f(1,2) pci] by simp
  qed
  from unprepare_restores[OF sys tracked_cong[OF tr this] f(4)[unfolded cause(1)]] show ?thesis .
qed

lemma failed_after_results:
  assumes doc: "env_documented env drv" and tr: "tracked drv w0 ds w1"
    and run: "PrepareDevicesForClaim env s idx claim w = ((Err e, idx', claim'), w')"
    and al: "claim_Allocation claim = Some al" and rc: "getMapOfOpaqueDeviceConfigForDevice (env_decode env) (al_Config al) = Ok rc"
    and p: "prepare_results env s rc idx claim [] (al_Results al) w = ((Ok ds, i, c), w1)" and e: "undamaged e"
  shows "drv w' = drv w0"
proof (cases "ds = []")
  case True
  then show ?thesis using run al rc p tr by (auto simp: PrepareDevicesForClaim_def prepareDevices_def tracked_def fun_eq_iff)
next
  case False
  obtain y w2 where y: "syncDeviceInfoFilesForPreparedDevicesIfNeeded (env_os env) (env_dis env) s (map Some ds) w1 = (y, w2)"
    by (metis prod.exhaust)
  have tr2: "tracked drv w0 ds w2" by (rule tracked_cong[OF tr sync_files_drv[OF doc y]])
  obtain z w3 where z: "CreateClaimSpecFile (env_cdi env) (map Some ds) w2 = (z, w3)" by (metis prod.exhaust)
  have tr3: "tracked drv w0 ds w3" by (rule tracked_cong[OF tr2 claim_spec_file_drv[OF doc z False]])
  note un = PrepareDevicesForClaim_def prepareDevices_def case_prod_beta
  show ?thesis
  proof (cases y)
    case (Err x)
    have "rollback_prepared env s ''cleanup after device-info sync failure failed: %w''
        (Errorf ''unable to create device-info files for claim: %v'' [x]) (map Some ds) w2 = ((Err e :: PreparedDevice list res), w')"
      using run al rc p False y Err by (auto simp: un prod_eq_iff)
    then show ?thesis using rollback_prepared_drv[OF doc tr2 _ e] by blast
  next
    case (Panic x)
    then show ?thesis using run al rc p False y by (simp add: un)
  next
    case y': (Ok u)
    show ?thesis
    proof (cases z)
      case (Err x)
      have "rollback_prepared env s ''cleanup after CDI spec failure failed: %w''
          (Errorf ''unable to create CDI spec file for claim: %v'' [x]) (map Some ds) w3 = ((Err e :: PreparedDevice list res), w')"
        using run al rc p False y y' z Err by (auto simp: un prod_eq_iff)
      then show ?thesis using rollback_prepared_drv[OF doc tr3 _ e] by blast
    qed (use run al rc p False y y' z in \<open>simp_all add: un\<close>)
  qed
qed

lemma failed_prepare_drv:
  assumes doc: "env_documented env drv" and al: "claim_Allocation claim = Some al"
    and valid: "\<And>rc. getMapOfOpaqueDeviceConfigForDevice (env_decode env) (al_Config al) = Ok rc \<Longrightarrow> valid_configs rc"
    and bound: "bound_results drv s (al_Results al) w"
    and run: "PrepareDevicesForClaim env s idx claim w = ((Err e, idx', claim'), w')" and e: "undamaged e"
  shows "drv w' = drv w"
proof (cases "getMapOfOpaqueDeviceConfigForDevice (env_decode env) (al_Config al)")
  case (Ok rc)
  have sys: "sysfs_documented (env_os env) drv" using doc by (simp add: env_documented_def)
  note v = valid[OF Ok]
  obtain r i c w1 where p: "prepare_results env s rc idx claim [] (al_Results al) w = ((r, i, c), w1)" by (metis prod.exhaust)
  show ?thesis
  proof (cases r)
    case (Err x)
    then have "e = Errorf ''prepare failed: %v'' [x]" "w' = w1"
      using run al Ok p by (simp_all add: PrepareDevicesForClaim_def prepareDevices_def)
    then show ?thesis using prepare_results_rolls_back[OF sys v bound p[unfolded Err]] e by simp
  next
    case (Panic x)
    then show ?thesis using run al Ok p by (simp add: PrepareDevicesForClaim_def prepareDevices_def)
  next
    case r: (Ok ds)
    have "driver_inv drv s w [] ds w1"
      by (rule prepare_results_Ok[OF p[unfolded r], where I = "\<lambda>rs i c ds w'. driver_inv drv s w rs ds w'"])
         (rule driver_inv_init[OF bound], rule driver_inv_skip, assumption+, rule driver_inv_step[OF sys v])
    then have tr: "tracked drv w ds w1" by (simp add: driver_inv_def)
    show ?thesis by (rule failed_after_results[OF doc tr run al Ok p[unfolded r] e])
  qed
qed (use run al in \<open>simp_all add: PrepareDevicesForClaim_def\<close>)

section \<open>Properties\<close>

text \<open>C6. A failed prepare leaves no device behind on the wrong driver: when every device of the claim had a
  driver and the call fails with an error that reports neither a failed bind nor a failed restore, the
  binding of every device of the node is what it was before the call, whichever step failed and however
  many devices had been rebound by then.\<close>

theorem PrepareDevicesForClaim_rolls_back:
  assumes doc: "env_documented env drv" and al: "claim_Allocation claim = Some al"
    and valid: "\<And>rc. getMapOfOpaqueDeviceConfigForDevice (env_decode env) (al_Config al) = Ok rc \<Longrightarrow> valid_configs rc"
    and bound: "bound_results drv s (al_Results al) w"
    and run: "PrepareDevicesForClaim env s idx claim w = ((Err e, idx', claim'), w')" and e: "undamaged e"
  shows "drv w' = drv w"
  using assms by (rule failed_prepare_drv)

text \<open>C7. Preparing and unpreparing a claim is a round trip for the node, for a claim whose devices are different from each other and all have a
  driver before (\<open>bound_results\<close>), and whose configurations name a driver or none (\<open>valid_configs\<close>): after a successful prepare every
  device whose configuration names a driver is bound to it and no other device has changed; when the
  claim is unprepared later without error, and nothing else rebound devices in between, every device
  has the driver it had before the claim was prepared. (A device that had no driver is not covered: its restore binds the
  kernel's default driver.)\<close>

theorem prepare_unprepare_roundtrip:
  assumes "env_documented env drv" "valid_configs rc" "claim_Allocation claim = Some al"
    and "getMapOfOpaqueDeviceConfigForDevice (env_decode env) (al_Config al) = Ok rc"
    and "bound_results drv s (al_Results al) w"
    and "PrepareDevicesForClaim env s idx claim w = ((Ok ds, idx', claim'), w1)"
  shows "(\<forall>p \<in> set ds. \<forall>c. pd_Config p = Some c \<longrightarrow> vf_Driver c \<notin> {[], ''default''} \<longrightarrow>
        drv w1 (pd_PciAddress p) = Some (vf_Driver c)) \<and>
    (\<forall>a. a \<notin> pd_PciAddress ` set ds \<longrightarrow> drv w1 a = drv w a) \<and>
    (\<forall>w2 w3. drv w2 = drv w1 \<longrightarrow> Unprepare env s (claim_UID claim) (map Some ds) w2 = (Ok (), w3) \<longrightarrow> drv w3 = drv w)"
proof -
  have inv: "driver_inv drv s w [] ds w1" by (rule claim_prepared_drv[OF assms])
  then have tr: "tracked drv w ds w1" by (simp add: driver_inv_def)
  have sys: "sysfs_documented (env_os env) drv" using assms(1) by (simp add: env_documented_def)
  have restored: "drv w3 = drv w" if same: "drv w2 = drv w1" and un: "Unprepare env s (claim_UID claim) (map Some ds) w2 = (Ok (), w3)" for w2 w3
  proof -
    obtain wa wb where "drv wa = drv w2" "unprepareDevices (env_os env) (map Some ds) wa = (Ok (), wb)" "drv w3 = drv wb"
      using Unprepare_Ok[OF assms(1) un] .
    then show ?thesis using unprepare_restores[OF sys tracked_cong[OF tr]] same by metis
  qed
  have frame: "drv w1 a = drv w a" if "a \<notin> pd_PciAddress ` set ds" for a
    by (rule tracked_fresh[OF tr]) (use that in auto)
  have bound: "\<forall>p \<in> set ds. \<forall>c. pd_Config p = Some c \<longrightarrow> vf_Driver c \<notin> {[], ''default''} \<longrightarrow>
      drv w1 (pd_PciAddress p) = Some (vf_Driver c)" using inv by (simp add: driver_inv_def)
  show ?thesis by (intro conjI bound allI impI) (rule frame, assumption, rule restored, assumption+)
qed

text \<open>C21. A successful prepare returns one device per allocation result of this driver, in their order, with the
  pool, request and configuration of the result and its PCI address, and upserts one status entry per
  device into the claim. The CDI ids it hands out resolve: they are the qualified names of the devices in
  the spec file written for the claim, each followed by the id of the pod's spec.\<close>

theorem PrepareDevicesForClaim_reports:
  assumes "claim_Allocation claim = Some al"
    and "getMapOfOpaqueDeviceConfigForDevice (env_decode env) (al_Config al) = Ok rc"
    and "PrepareDevicesForClaim env s idx claim w = ((Ok ds, idx', claim'), w')"
  shows "list_all2 (prepared_for env s rc claim) (own_results (al_Results al)) ds \<and>
    claim_Devices claim' = foldl UpsertDeviceStatus (claim_Devices claim)
      (map (\<lambda>r. device_status env (config_of rc r) r) (own_results (al_Results al))) \<and>
    (\<exists>v w2. cdi_WriteSpec (env_cdi env) (claim_spec v ds)
        (cdi_GenerateTransientSpecName (env_cdi env) cdiVendor cdiClass (claim_UID claim)) w2 = (Ok (), w') \<and>
      map pd_CdiDeviceIds ds = map2 (\<lambda>d p. [cdi_QualifiedName (env_cdi env) cdiVendor cdiClass (cdev_Name d),
        GetPodSpecName (env_cdi env) (pd_PodUID p)]) (spec_Devices (claim_spec v ds)) ds)"
proof -
  obtain w1 w2 where p: "prepare_results env s rc idx claim [] (al_Results al) w = ((Ok ds, idx', claim'), w1)" "ds \<noteq> []"
    "CreateClaimSpecFile (env_cdi env) (map Some ds) w2 = (Ok (), w')"
    by (rule prepare_claim_parts[OF assms(3,1,2)])
  note res = results_prepared[OF p(1)]
  have uid: "no_UID (pd_Claim d) = claim_UID claim \<and>
      pd_CdiDeviceIds d = [GetClaimDevices (env_cdi env) (claim_UID claim) (pd_DeviceName d), GetPodSpecName (env_cdi env) (pd_PodUID d)]"
    if d: "d \<in> set ds" for d
  proof -
    obtain i where "i < length ds" "d = ds ! i" using d by (metis in_set_conv_nth)
    then have "prepared_for env s rc claim (own_results (al_Results al) ! i) d" using res(1) by (simp add: list_all2_conv_all_nth)
    then show ?thesis by (simp add: prepared_for_def)
  qed
  have hd: "no_UID (pd_Claim (hd ds)) = claim_UID claim" using uid p(2) by simp
  obtain v where "cdi_WriteSpec (env_cdi env) (claim_spec v ds)
      (cdi_GenerateTransientSpecName (env_cdi env) cdiVendor cdiClass (claim_UID claim)) w2 = (Ok (), w')"
    using p(3) unfolding CreateClaimSpecFile_eq[OF p(2)] hd by (auto split: res.splits)
  moreover have "map pd_CdiDeviceIds ds = map2 (\<lambda>d p. [cdi_QualifiedName (env_cdi env) cdiVendor cdiClass (cdev_Name d),
        GetPodSpecName (env_cdi env) (pd_PodUID p)]) (spec_Devices (claim_spec v ds)) ds"
    using uid by (auto simp: claim_spec_def hd GetClaimDevices_def intro!: nth_equalityI)
  ultimately show ?thesis using res by (auto simp: fold_with_status_frame)
qed

lemma generated_names_distinct: "distinct (map (\<lambda>i. prefix @ Itoa i) [i..<j])"
  by (simp add: distinct_map inj_on_def Itoa_inj)

text \<open>In standalone mode the devices of a claim without a configured interface name get consecutive names
  from the prefix and the running index, which the call returns for the next claim; so no two devices get
  the same generated name. Configured names are kept as they are.\<close>

theorem PrepareDevicesForClaim_names:
  assumes "PrepareDevicesForClaim env s idx claim w = ((Ok ds, idx', claim'), w')"
  defines "generated \<equiv> filter (\<lambda>p. generated_name s (the (pd_Config p))) ds"
  shows "map pd_IfName generated = map (\<lambda>i. defaultInterfacePrefix s @ Itoa i) [idx..<idx'] \<and>
    distinct (map pd_IfName generated) \<and>
    (\<forall>p \<in> set ds. \<forall>c. pd_Config p = Some c \<longrightarrow> \<not> generated_name s c \<longrightarrow> pd_IfName p = vf_IfName c)"
proof -
  obtain al :: AllocationResult and rc w1 where p: "prepare_results env s rc idx claim [] (al_Results al) w = ((Ok ds, idx', claim'), w1)"
    by (rule prepare_claim_Ok[OF assms(1)]) (rule that, assumption)
  have "pd_IfName d = vf_IfName c" if d: "d \<in> set ds" "pd_Config d = Some c" "\<not> generated_name s c" for d c
  proof -
    obtain i where "i < length ds" "d = ds ! i" using d(1) by (metis in_set_conv_nth)
    then have "prepared_for env s rc claim (own_results (al_Results al) ! i) d"
      using results_prepared(1)[OF p] by (simp add: list_all2_conv_all_nth)
    then show ?thesis using d by (simp add: prepared_for_def)
  qed
  then show ?thesis using results_names[OF p] by (simp add: generated_def generated_names_distinct)
qed

section \<open>Witnesses\<close>

text \<open>A node with two virtual functions on the simulated kernel, and libraries that write no file the kernel
  knows of. The parameters of a configuration are the driver name.\<close>

definition example_env :: "kernel env" where
  "example_env = \<lparr>env_os = sim_os,
     env_cdi = \<lparr>cdi_MinimumRequiredVersion = (\<lambda>_. Ok ''0.6.0''),
       cdi_GenerateTransientSpecName = (\<lambda>v c u. v @ ''-'' @ c @ ''_'' @ u),
       cdi_GenerateNameForTransientSpec = (\<lambda>sp u. Ok u), cdi_QualifiedName = (\<lambda>v c n. v @ ''/'' @ c @ ''='' @ n),
       cdi_WriteSpec = (\<lambda>sp n k. (Ok (), k)), cdi_RemoveSpec = (\<lambda>n k. (Ok (), k))\<rparr>,
     env_dis = \<lparr>CleanDeviceInfoForDP = (\<lambda>a b k. (Ok (), k)), SaveDeviceInfoForDP = (\<lambda>a b i k. (Ok (), k))\<rparr>,
     env_nad = (\<lambda>ns n k. Ok ''{}''), env_decode = (\<lambda>p. Inr (DecodedVf (DefaultVfConfig\<lparr>vf_Driver := p\<rparr>))),
     env_json = \<lparr>json_Unmarshal = (\<lambda>x. Ok (JObj [])), json_Marshal = (\<lambda>j. ''{}'')\<rparr>, env_config_json = (\<lambda>c. Ok ''{}'')\<rparr>"

definition node_device :: "string \<Rightarrow> Device" where
  "node_device a = \<lparr>dev_Name = [], dev_Attributes = [(AttributePciAddress, str_attr a)]\<rparr>"

definition node_manager :: Manager where
  "node_manager = \<lparr>defaultInterfacePrefix = ''vfnet'',
     allocatable = [(''vf0'', node_device ''0000:01:00.1''), (''vf1'', node_device ''0000:01:00.2'')],
     policyAttrKeys = [], configurationMode = ConfigurationModeStandalone, iommuAvailable = False\<rparr>"

definition node_result :: "string \<Rightarrow> DeviceRequestAllocationResult" where
  "node_result d = \<lparr>r_Request = d, r_Driver = DriverName, r_Pool = ''node'', r_Device = d, r_ShareID = None\<rparr>"

definition node_config :: "string \<Rightarrow> string \<Rightarrow> DeviceAllocationConfiguration" where
  "node_config d n = \<lparr>dac_Source = FromClaim, dac_Requests = [d], dac_Opaque = Some \<lparr>op_Driver = DriverName, op_Parameters = n\<rparr>\<rparr>"

text \<open>Both functions, the first bound to \<^verbatim>\<open>igbvf\<close> and the second to \<open>n\<close>.\<close>

definition node_claim :: "string \<Rightarrow> ResourceClaim" where
  "node_claim n = example_claim\<lparr>claim_Devices := [], claim_Allocation := Some
     \<lparr>al_Results = [node_result ''vf0'', node_result ''vf1''], al_Config = [node_config ''vf0'' ''igbvf'', node_config ''vf1'' n]\<rparr>\<rparr>"

definition node_kernel :: kernel where
  "node_kernel = example_kernel\<lparr>k_drivers := [''iavf'', ''igbvf'', ''vfio-pci'']\<rparr>"

abbreviation node_drv :: "kernel \<Rightarrow> string \<rightharpoonup> string" where
  "node_drv \<equiv> \<lambda>k. map_of (k_drv k)"

lemma example_env_documented: "env_documented example_env node_drv"
  using sim_documented by (simp add: env_documented_def example_env_def)

lemma node_names: "is_name ''0000:01:00.1''" "is_name ''0000:01:00.2''" "is_name ''igbvf''" "is_name ''iavf''" "is_name ''vfio-pci''"
  by (simp_all add: is_name_def)

abbreviation node_run :: "string \<Rightarrow> (PreparedDevice list res \<times> nat \<times> ResourceClaim) \<times> kernel" where
  "node_run n \<equiv> PrepareDevicesForClaim example_env node_manager 0 (node_claim n) node_kernel"

lemma node_run_eval:
  "case node_run ''igbvf'' of ((Ok ds, i, c), k) \<Rightarrow> is_ok (fst (Unprepare example_env node_manager ''u1'' (map Some ds) k)) \<and>
     map pd_PciAddress ds = [''0000:01:00.1'', ''0000:01:00.2''] \<and> i = 2 | _ \<Rightarrow> False"
  "case node_run ''vfio-pci'' of ((Err e, i, c), k) \<Rightarrow> undamaged e | _ \<Rightarrow> False"
  by code_simp+

lemma node_prepared:
  obtains ds c k k' where "node_run ''igbvf'' = ((Ok ds, 2, c), k)"
    "Unprepare example_env node_manager ''u1'' (map Some ds) k = (Ok (), k')" "map pd_PciAddress ds = [''0000:01:00.1'', ''0000:01:00.2'']"
proof -
  obtain ds c k where r: "node_run ''igbvf'' = ((Ok ds, 2, c), k)"
    and u: "is_ok (fst (Unprepare example_env node_manager ''u1'' (map Some ds) k))"
    "map pd_PciAddress ds = [''0000:01:00.1'', ''0000:01:00.2'']"
    using node_run_eval(1) by (auto split: prod.splits res.splits)
  obtain k' where k': "Unprepare example_env node_manager ''u1'' (map Some ds) k = (Ok (), k')"
    using u(1) by (cases "Unprepare example_env node_manager ''u1'' (map Some ds) k") (auto simp: is_ok_def split: res.splits)
  show ?thesis by (rule that[OF r k' u(2)])
qed

text \<open>The allocation of the claim and the configurations decoded from it.\<close>

definition node_allocation :: "string \<Rightarrow> AllocationResult" where
  "node_allocation n = the (claim_Allocation (node_claim n))"

definition node_rc :: "string \<Rightarrow> (string, VfConfig) gomap" where
  "node_rc n = [(''vf0'', DefaultVfConfig\<lparr>vf_Driver := ''igbvf''\<rparr>), (''vf1'', Override DefaultVfConfig (DefaultVfConfig\<lparr>vf_Driver := n\<rparr>))]"

lemma node_facts:
  shows node_alloc: "claim_Allocation (node_claim n) = Some (node_allocation n)"
    and node_configs: "getMapOfOpaqueDeviceConfigForDevice (env_decode example_env) (al_Config (node_allocation n)) = Ok (node_rc n)"
    and node_bound: "bound_results node_drv node_manager (al_Results (node_allocation n)) node_kernel"
    and node_valid: "is_name n \<Longrightarrow> valid_configs (node_rc n)"
  by (simp_all add: node_allocation_def node_claim_def node_rc_def getMapOfOpaqueDeviceConfigForDevice_def node_config_def
      example_env_def Override_def DefaultVfConfig_def Let_def bound_results_def own_results_def node_result_def result_pci_def
      node_manager_def node_device_def pci_address_def str_attr_def node_kernel_def node_names valid_configs_def valid_driver_def)

theorem PrepareDevicesForClaim_rolls_back_witness:
  "is_err (fst (fst (node_run ''vfio-pci''))) \<and> node_drv (snd (node_run ''vfio-pci'')) = node_drv node_kernel"
proof -
  obtain e i c k where r: "node_run ''vfio-pci'' = ((Err e, i, c), k)" "undamaged e"
    using node_run_eval(2) by (auto split: prod.splits res.splits)
  have "valid_configs rc" if "getMapOfOpaqueDeviceConfigForDevice (env_decode example_env) (al_Config (node_allocation ''vfio-pci'')) = Ok rc" for rc
    using that node_valid[OF node_names(5)] unfolding node_configs res.inject by simp
  from PrepareDevicesForClaim_rolls_back[OF example_env_documented node_alloc this node_bound r]
  have "node_drv k = node_drv node_kernel" .
  then show ?thesis unfolding r(1) by (simp add: is_err_def)
qed

theorem prepare_unprepare_roundtrip_witness:
  "\<exists>ds c k k'. node_run ''igbvf'' = ((Ok ds, 2, c), k) \<and>
     Unprepare example_env node_manager ''u1'' (map Some ds) k = (Ok (), k') \<and> node_drv k' = node_drv node_kernel"
proof -
  obtain ds c k k' where r: "node_run ''igbvf'' = ((Ok ds, 2, c), k)"
    "Unprepare example_env node_manager ''u1'' (map Some ds) k = (Ok (), k')" by (rule node_prepared)
  have u: "claim_UID (node_claim ''igbvf'') = ''u1''" by (simp add: node_claim_def example_claim_def)
  note rt = prepare_unprepare_roundtrip[OF example_env_documented node_valid[OF node_names(3)] node_alloc node_configs node_bound r(1), unfolded u]
  have "node_drv k' = node_drv node_kernel" using conjunct2[OF conjunct2[OF rt]] r(2) by blast
  then show ?thesis using r by blast
qed

theorem PrepareDevicesForClaim_reports_witness:
  "\<exists>ds i c k. node_run ''igbvf'' = ((Ok ds, i, c), k) \<and> length (claim_Devices c) = 2"
proof -
  obtain ds c k k' where r: "node_run ''igbvf'' = ((Ok ds, 2, c), k)" by (rule node_prepared)
  note rep = PrepareDevicesForClaim_reports[OF node_alloc node_configs r(1)]
  have "length (foldl UpsertDeviceStatus (claim_Devices (node_claim ''igbvf''))
      (map (\<lambda>r. device_status example_env (config_of (node_rc ''igbvf'') r) r) (own_results (al_Results (node_allocation ''igbvf''))))) = 2"
    by code_simp
  then show ?thesis using r conjunct1[OF conjunct2[OF rep]] by metis
qed

theorem PrepareDevicesForClaim_names_witness:
  "\<exists>ds c k. node_run ''igbvf'' = ((Ok ds, 2, c), k) \<and>
     map pd_IfName (filter (\<lambda>p. generated_name node_manager (the (pd_Config p))) ds) = [''vfnet0'', ''vfnet1'']"
proof -
  obtain ds c k k' where r: "node_run ''igbvf'' = ((Ok ds, 2, c), k)" by (rule node_prepared)
  have "map (\<lambda>i. defaultInterfacePrefix node_manager @ Itoa i) [0..<2] = [''vfnet0'', ''vfnet1'']" by code_simp
  then show ?thesis using PrepareDevicesForClaim_names[OF r] r by metis
qed

end
