(* ===== verification/PodManager.thy ===== *)
theory PodManager
  imports Api
begin

text \<open>
  The store of prepared devices of \<^verbatim>\<open>pkg/podmanager/podmanager.go\<close> with its checkpoint
  (\<^verbatim>\<open>pkg/types/types.go\<close>). The Go store holds slices of pointers, and \<^verbatim>\<open>UpdatePreparedDeviceNetworkData\<close>
  changes a device through a pointer the caller got earlier, so the devices live in a heap and the
  store holds references into it; a checkpoint is a snapshot of the values. The checkpoint manager is
  the kubelet's and an argument (\<open>checkpoint_manager\<close>). Every operation of the manager holds its mutex
  from start to end, so operations are atomic and any interleaving is a sequence of them.
\<close>

section \<open>State\<close>

type_synonym ref = nat

text \<open>A slice of pointers into the heap; \<open>None\<close> is a nil pointer.\<close>

type_synonym refs = "ref option list"

record PodManager =
  pm_heap :: "PreparedDevice list"
  preparedClaimsByPodUID :: "(UID, (UID, refs) gomap) gomap"

type_synonym PreparedClaims = "(UID, (UID, PreparedDevices) gomap) gomap"

record Checkpoint =
  cp_Checksum :: nat
  cp_V1 :: "PreparedClaims option"

definition NewCheckpoint :: Checkpoint where
  "NewCheckpoint = \<lparr>cp_Checksum = 0, cp_V1 = Some []\<rparr>"

definition DriverPluginCheckpointFile :: string where
  "DriverPluginCheckpointFile = ''checkpoint.json''"

record 'w checkpoint_manager =
  cm_ListCheckpoints :: "'w \<Rightarrow> string list res"
  cm_GetCheckpoint :: "string \<Rightarrow> 'w \<Rightarrow> Checkpoint res"
  cm_CreateCheckpoint :: "string \<Rightarrow> Checkpoint \<Rightarrow> 'w \<Rightarrow> unit res \<times> 'w"

section \<open>The checkpoint's own methods (pkg/types/types.go)\<close>

text \<open>The JSON library and the checksum; \<open>'b\<close> are the byte slices.\<close>

record 'b checkpoint_codec =
  json_Marshal_cp :: "Checkpoint \<Rightarrow> 'b res"
  json_Unmarshal_cp :: "'b \<Rightarrow> Checkpoint res"
  checksum_New :: "'b \<Rightarrow> nat"

definition MarshalCheckpoint :: "'b checkpoint_codec \<Rightarrow> Checkpoint \<Rightarrow> 'b res \<times> Checkpoint" where
  "MarshalCheckpoint cc cp =
     (let cp0 = cp\<lparr>cp_Checksum := 0\<rparr> in
      case json_Marshal_cp cc cp0 of
        Ok out \<Rightarrow> (let cp1 = cp0\<lparr>cp_Checksum := checksum_New cc out\<rparr> in (json_Marshal_cp cc cp1, cp1))
      | Err e \<Rightarrow> (Err e, cp0)
      | Panic p \<Rightarrow> (Panic p, cp0))"

definition UnmarshalCheckpoint :: "'b checkpoint_codec \<Rightarrow> 'b \<Rightarrow> Checkpoint res" where
  "UnmarshalCheckpoint cc data = json_Unmarshal_cp cc data"

text \<open>\<^verbatim>\<open>checksum.Verify\<close> fails when the sum of the data differs; the checkpoint itself is restored.\<close>

definition VerifyChecksum :: "'b checkpoint_codec \<Rightarrow> Checkpoint \<Rightarrow> unit res" where
  "VerifyChecksum cc cp =
     bind_res (json_Marshal_cp cc (cp\<lparr>cp_Checksum := 0\<rparr>)) (\<lambda>out.
       if cp_Checksum cp \<noteq> checksum_New cc out then Err (External ''checkpoint is corrupted'') else Ok ())"

section \<open>Heap\<close>

definition deref :: "PreparedDevice list \<Rightarrow> ref option \<Rightarrow> PreparedDevice option" where
  "deref h r = (case r of None \<Rightarrow> None | Some i \<Rightarrow> if i < length h then Some (h ! i) else None)"

definition deref_all :: "PreparedDevice list \<Rightarrow> refs \<Rightarrow> PreparedDevices" where
  "deref_all h rs = map (deref h) rs"

text \<open>Put freshly made devices on the heap and give the slice of pointers to them.\<close>

fun alloc_devices :: "PreparedDevice list \<Rightarrow> PreparedDevices \<Rightarrow> refs \<times> PreparedDevice list" where
  "alloc_devices h [] = ([], h)"
| "alloc_devices h (None # ds) = (let (rs, h') = alloc_devices h ds in (None # rs, h'))"
| "alloc_devices h (Some d # ds) = (let (rs, h') = alloc_devices (h @ [d]) ds in (Some (length h) # rs, h'))"

definition snapshot :: "PodManager \<Rightarrow> PreparedClaims" where
  "snapshot s = map (\<lambda>(pod, claims). (pod, map (\<lambda>(c, rs). (c, deref_all (pm_heap s) rs)) claims))
     (preparedClaimsByPodUID s)"

section \<open>Operations\<close>

definition syncToCheckpoint :: "'w checkpoint_manager \<Rightarrow> PodManager \<Rightarrow> 'w \<Rightarrow> unit res \<times> 'w" where
  "syncToCheckpoint cm s w =
     (let (r, w') = cm_CreateCheckpoint cm DriverPluginCheckpointFile (NewCheckpoint\<lparr>cp_V1 := Some (snapshot s)\<rparr>) w
      in (wrap_err ''unable to sync to checkpoint: %v'' r, w'))"

text \<open>The maps of a loaded checkpoint, put on an empty heap.\<close>

fun alloc_claims :: "PreparedDevice list \<Rightarrow> (UID, PreparedDevices) gomap \<Rightarrow> (UID, refs) gomap \<times> PreparedDevice list" where
  "alloc_claims h [] = ([], h)"
| "alloc_claims h ((c, ds) # cs) =
     (let (rs, h1) = alloc_devices h ds; (rest, h2) = alloc_claims h1 cs in ((c, rs) # rest, h2))"

fun alloc_pods :: "PreparedDevice list \<Rightarrow> PreparedClaims \<Rightarrow> (UID, (UID, refs) gomap) gomap \<times> PreparedDevice list" where
  "alloc_pods h [] = ([], h)"
| "alloc_pods h ((pod, cs) # ps) =
     (let (rs, h1) = alloc_claims h cs; (rest, h2) = alloc_pods h1 ps in ((pod, rs) # rest, h2))"

definition load_store :: "PreparedClaims \<Rightarrow> PodManager" where
  "load_store m = (let (ps, h) = alloc_pods [] m in \<lparr>pm_heap = h, preparedClaimsByPodUID = ps\<rparr>)"

definition newPodManager :: "'w checkpoint_manager \<Rightarrow> 'w \<Rightarrow> PodManager res \<times> 'w" where
  "newPodManager cm w =
     (case cm_ListCheckpoints cm w of
        Err e \<Rightarrow> (Err (Errorf ''unable to list checkpoints: %v'' [e]), w)
      | Panic p \<Rightarrow> (Panic p, w)
      | Ok checkpoints \<Rightarrow>
          if list_ex (\<lambda>c. c = DriverPluginCheckpointFile) checkpoints then
            (case cm_GetCheckpoint cm DriverPluginCheckpointFile w of
               Err e \<Rightarrow> (Err (Errorf ''unable to load checkpoint: %v'' [e]), w)
             | Panic p \<Rightarrow> (Panic p, w)
             | Ok checkpoint \<Rightarrow>
                 (case cp_V1 checkpoint of
                    None \<Rightarrow> (Panic ''invalid memory address or nil pointer dereference'', w)
                  | Some m \<Rightarrow> (Ok (load_store m), w)))
          else
            (case cm_CreateCheckpoint cm DriverPluginCheckpointFile NewCheckpoint w of
               (Err e, w') \<Rightarrow> (Err (Errorf ''unable to sync to checkpoint: %v'' [e]), w')
             | (Panic p, w') \<Rightarrow> (Panic p, w')
             | (Ok _, w') \<Rightarrow> (Ok \<lparr>pm_heap = [], preparedClaimsByPodUID = []\<rparr>, w')))"

text \<open>The new state is returned with the outcome: a failed checkpoint does not undo the change.\<close>

definition Set :: "'w checkpoint_manager \<Rightarrow> PodManager \<Rightarrow> UID \<Rightarrow> UID \<Rightarrow> PreparedDevices \<Rightarrow> 'w \<Rightarrow>
    (unit res \<times> PodManager) \<times> 'w" where
  "Set cm s podUID claimID preparedDevices w =
     (let (rs, h) = alloc_devices (pm_heap s) preparedDevices;
          claims = (case mget (preparedClaimsByPodUID s) podUID of None \<Rightarrow> [] | Some m \<Rightarrow> m);
          s' = s\<lparr>pm_heap := h, preparedClaimsByPodUID :=
                   mput (preparedClaimsByPodUID s) podUID (mput claims claimID rs)\<rparr>;
          (r, w') = syncToCheckpoint cm s' w
      in ((r, s'), w'))"

definition Get_refs :: "PodManager \<Rightarrow> UID \<Rightarrow> UID \<Rightarrow> refs option" where
  "Get_refs s podUID claimID =
     (case mget (preparedClaimsByPodUID s) podUID of None \<Rightarrow> None | Some podConfigs \<Rightarrow> mget podConfigs claimID)"

definition Get :: "PodManager \<Rightarrow> UID \<Rightarrow> UID \<Rightarrow> PreparedDevices option" where
  "Get s podUID claimID = map_option (deref_all (pm_heap s)) (Get_refs s podUID claimID)"

text \<open>The claims of a pod are gathered in iteration order.\<close>

definition GetDevicesByPodUID :: "PodManager \<Rightarrow> UID \<Rightarrow> refs option" where
  "GetDevicesByPodUID s podUID =
     (case mget (preparedClaimsByPodUID s) podUID of None \<Rightarrow> None
      | Some claims \<Rightarrow> Some (concat (map snd claims)))"

definition DeletePod :: "'w checkpoint_manager \<Rightarrow> PodManager \<Rightarrow> UID \<Rightarrow> 'w \<Rightarrow> (unit res \<times> PodManager) \<times> 'w" where
  "DeletePod cm s podUID w =
     (let s' = s\<lparr>preparedClaimsByPodUID := mdel (preparedClaimsByPodUID s) podUID\<rparr>;
          (r, w') = syncToCheckpoint cm s' w
      in ((r, s'), w'))"

text \<open>The first pod, in iteration order, that has the claim.\<close>

definition pod_of_claim :: "PodManager \<Rightarrow> UID \<Rightarrow> (UID \<times> refs) option" where
  "pod_of_claim s claimID =
     (case find (\<lambda>(pod, claims). mhas claims claimID) (preparedClaimsByPodUID s) of
        None \<Rightarrow> None | Some (pod, claims) \<Rightarrow> Some (pod, the (mget claims claimID)))"

definition GetByClaim :: "PodManager \<Rightarrow> NamespacedObject \<Rightarrow> PreparedDevices option" where
  "GetByClaim s claim = map_option (\<lambda>(pod, rs). deref_all (pm_heap s) rs) (pod_of_claim s (no_UID claim))"

definition UpdatePreparedDeviceNetworkData :: "'w checkpoint_manager \<Rightarrow> PodManager \<Rightarrow> ref option \<Rightarrow>
    NetworkDeviceData option \<Rightarrow> 'w \<Rightarrow> (unit res \<times> PodManager) \<times> 'w" where
  "UpdatePreparedDeviceNetworkData cm s preparedDevice networkData w =
     (case preparedDevice of
        None \<Rightarrow> ((Err (Errorf ''prepared device is nil'' []), s), w)
      | Some i \<Rightarrow>
          let s' = s\<lparr>pm_heap := (pm_heap s)[i := SetNetworkDeviceData (pm_heap s ! i) networkData]\<rparr>;
              (r, w') = syncToCheckpoint cm s' w
          in ((r, s'), w'))"

definition DeleteClaim :: "'w checkpoint_manager \<Rightarrow> PodManager \<Rightarrow> NamespacedObject \<Rightarrow> 'w \<Rightarrow>
    (unit res \<times> PodManager) \<times> 'w" where
  "DeleteClaim cm s claim w =
     (case pod_of_claim s (no_UID claim) of
        None \<Rightarrow> ((Ok (), s), w)
      | Some (uid, _) \<Rightarrow>
          let s' = s\<lparr>preparedClaimsByPodUID := mdel (preparedClaimsByPodUID s) uid\<rparr>;
              (r, w') = syncToCheckpoint cm s' w
          in ((r, s'), w'))"

section \<open>Invariant and abstract view\<close>

text \<open>The abstract store is the function \<open>Get s\<close> from pods and claims to devices. A location is a position in
  a slice; the invariant asks for well-formed maps, for references into the heap, and that no two
  locations hold the same reference.\<close>

definition loc :: "PodManager \<Rightarrow> UID \<times> UID \<times> nat \<Rightarrow> ref option" where
  "loc s l = (case l of (p, c, j) \<Rightarrow>
     (case Get_refs s p c of None \<Rightarrow> None | Some rs \<Rightarrow> if j < length rs then rs ! j else None))"

definition pm_wf :: "PodManager \<Rightarrow> bool" where
  "pm_wf s \<longleftrightarrow> wf_map (preparedClaimsByPodUID s) \<and>
     (\<forall>p cs. map_of (preparedClaimsByPodUID s) p = Some cs \<longrightarrow> wf_map cs)"

definition pm_inv :: "PodManager \<Rightarrow> bool" where
  "pm_inv s \<longleftrightarrow> pm_wf s \<and> (\<forall>l i. loc s l = Some i \<longrightarrow> i < length (pm_heap s)) \<and>
     (\<forall>l l' i. loc s l = Some i \<longrightarrow> loc s l' = Some i \<longrightarrow> l = l')"

text \<open>Places hold references from a range of the heap, and no two hold the same.\<close>

definition placed :: "nat \<Rightarrow> nat \<Rightarrow> ('l \<Rightarrow> ref option) \<Rightarrow> bool" where
  "placed lo hi f \<longleftrightarrow> (\<forall>l i. f l = Some i \<longrightarrow> lo \<le> i \<and> i < hi) \<and> (\<forall>l l' i. f l = Some i \<longrightarrow> f l' = Some i \<longrightarrow> l = l')"

definition slot :: "refs \<Rightarrow> nat \<Rightarrow> ref option" where
  "slot rs j = (if j < length rs then rs ! j else None)"

definition claim_slot :: "(UID, refs) gomap \<Rightarrow> UID \<times> nat \<Rightarrow> ref option" where
  "claim_slot cs l = Option.bind (map_of cs (fst l)) (\<lambda>rs. slot rs (snd l))"

definition pod_slot :: "(UID, (UID, refs) gomap) gomap \<Rightarrow> UID \<times> UID \<times> nat \<Rightarrow> ref option" where
  "pod_slot ps l = Option.bind (map_of ps (fst l)) (\<lambda>cs. claim_slot cs (snd l))"

text \<open>The claims of a checkpoint as the same kind of function.\<close>

definition claims_view :: "PreparedClaims \<Rightarrow> UID \<Rightarrow> UID \<rightharpoonup> PreparedDevices" where
  "claims_view m p c = Option.bind (map_of m p) (\<lambda>cs. map_of cs c)"

definition claims_wf :: "PreparedClaims \<Rightarrow> bool" where
  "claims_wf m \<longleftrightarrow> wf_map m \<and> (\<forall>p cs. map_of m p = Some cs \<longrightarrow> wf_map cs)"

section \<open>Lemmas: heap\<close>

lemma deref_all_append:
  assumes "\<And>i. Some i \<in> set rs \<Longrightarrow> i < length h"
  shows "deref_all (h @ new) rs = deref_all h rs"
  using assms by (auto simp: deref_all_def deref_def nth_append split: option.split)

text \<open>Places over two disjoint ranges make places over both.\<close>

lemma placed_merge:
  assumes "placed a b f" "placed c d g" "b \<le> c \<or> d \<le> a" "lo \<le> a" "lo \<le> c" "b \<le> hi" "d \<le> hi"
    and "\<And>l. h l = (if P l then f (u l) else g (v l))" "inj_on u {l. P l}" "inj_on v {l. \<not> P l}"
  shows "placed lo hi h"
  unfolding placed_def
proof (intro conjI allI impI)
  have range: "if P l then a \<le> i \<and> i < b else c \<le> i \<and> i < d" if "h l = Some i" for l i
    using that assms(1,2,8) by (simp add: placed_def split: if_splits)
  show "lo \<le> i" "i < hi" if "h l = Some i" for l i using range[OF that] assms(4-7) by (simp_all split: if_splits)
  fix l l' i assume i: "h l = Some i" "h l' = Some i"
  then have "P l \<longleftrightarrow> P l'" using range[of l i] range[of l' i] assms(3) by (simp split: if_splits)
  then consider "P l" "P l'" "f (u l) = Some i" "f (u l') = Some i" | "\<not> P l" "\<not> P l'" "g (v l) = Some i" "g (v l') = Some i"
    using i assms(8) by (metis (full_types))
  then show "l = l'" using assms(1,2,9,10) unfolding placed_def inj_on_def by cases blast+
qed

lemma placed_None: "placed a b (\<lambda>_. None)"
  by (simp add: placed_def)

lemma slot_mem: "Some i \<in> set rs \<longleftrightarrow> (\<exists>j. slot rs j = Some i)"
  by (auto simp: slot_def in_set_conv_nth split: if_splits)

lemma slot_Cons: "slot (r # rs) j = (if j = 0 then r else slot rs (j - 1))"
  by (cases j) (simp_all add: slot_def)

lemma claim_slot_Cons: "claim_slot ((c, rs) # cs) l = (if fst l = c then slot rs (snd l) else claim_slot cs l)"
  by (simp add: claim_slot_def)

lemma pod_slot_Cons: "pod_slot ((p, cs) # ps) l = (if fst l = p then claim_slot cs (snd l) else pod_slot ps l)"
  by (simp add: pod_slot_def)

lemma inj_on_part: "inj_on (\<lambda>j. j - 1) {j. j \<noteq> (0 :: nat)}" "inj_on (\<lambda>_. ()) {j. j = k}" "inj_on snd {l. fst l = x}" "inj_on (\<lambda>l. l) A"
  by (auto simp: inj_on_def)

lemma loc_pod_slot: "loc s = pod_slot (preparedClaimsByPodUID s)"
  by (auto simp: fun_eq_iff loc_def pod_slot_def claim_slot_def slot_def Get_refs_def split: option.split Option.bind_split)

lemma pm_inv_placed: "pm_inv s \<longleftrightarrow> pm_wf s \<and> placed 0 (length (pm_heap s)) (loc s)"
  by (simp add: pm_inv_def placed_def)

lemma loc_inj: "pm_inv s \<Longrightarrow> loc s l = Some i \<Longrightarrow> loc s l' = Some i \<Longrightarrow> l = l'"
  unfolding pm_inv_def by blast

text \<open>Allocation appends to the heap, and the new references lie in the new part.\<close>

lemma alloc_devices_spec:
  assumes "alloc_devices h ds = (rs, h')"
  shows "(\<exists>new. h' = h @ new) \<and> deref_all h' rs = ds \<and> placed (length h) (length h') (slot rs)"
  using assms
proof (induction h ds arbitrary: rs h' rule: alloc_devices.induct)
  case (1 h)
  then show ?case by (simp add: deref_all_def placed_def slot_def)
next
  case (2 h ds)
  obtain rs' where rs: "rs = None # rs'" "alloc_devices h ds = (rs', h')" using 2(2) by (auto split: prod.splits)
  note ih = 2(1)[OF rs(2)]
  have "placed (length h) (length h') (slot rs)"
    unfolding rs(1)
    by (rule placed_merge[where f = "\<lambda>_ :: unit. None" and g = "slot rs'" and P = "\<lambda>j. j = 0" and u = "\<lambda>_. ()" and v = "\<lambda>j. j - 1" and
          a = "length h" and b = "length h" and d = "length h'", OF placed_None _ _ _ _ _ _ slot_Cons inj_on_part(2,1)]) (use ih in auto)
  then show ?case using ih by (simp add: rs(1) deref_all_def deref_def)
next
  case (3 h d ds)
  obtain rs' where rs: "rs = Some (length h) # rs'" "alloc_devices (h @ [d]) ds = (rs', h')" using 3(2) by (auto split: prod.splits)
  note ih = 3(1)[OF rs(2)]
  then obtain new where new: "h' = (h @ [d]) @ new" by blast
  have "placed (length h) (Suc (length h)) (\<lambda>_ :: unit. Some (length h))" by (simp add: placed_def)
  then have "placed (length h) (length h') (slot rs)"
    unfolding rs(1)
    by (rule placed_merge[where g = "slot rs'" and P = "\<lambda>j. j = 0" and u = "\<lambda>_. ()" and v = "\<lambda>j. j - 1", OF _ _ _ _ _ _ _ slot_Cons inj_on_part(2,1)])
      (use ih new in auto)
  moreover have "deref h' (Some (length h)) = Some d" by (simp add: new deref_def nth_append)
  ultimately show ?case using ih new by (simp add: rs(1) deref_all_def)
qed

lemma deref_all_update:
  assumes "i < length h"
  shows "deref_all (h[i := d]) rs = map (\<lambda>r. if r = Some i then Some d else deref h r) rs"
  using assms by (auto simp: deref_all_def deref_def nth_list_update split: option.split)

section \<open>Lemmas: operations on the view\<close>

lemma Get_refs_mput:
  "Get_refs (s\<lparr>pm_heap := h, preparedClaimsByPodUID := mput (preparedClaimsByPodUID s) p
      (mput (case mget (preparedClaimsByPodUID s) p of None \<Rightarrow> [] | Some m \<Rightarrow> m) c rs)\<rparr>) q d =
   (if q = p \<and> d = c then Some rs else Get_refs s q d)"
  by (auto simp: Get_refs_def split: option.split)

lemma Get_refs_mdel:
  "Get_refs (s\<lparr>preparedClaimsByPodUID := mdel (preparedClaimsByPodUID s) p\<rparr>) q c = (if q = p then None else Get_refs s q c)"
  by (simp add: Get_refs_def)

lemma valid_refs:
  assumes "pm_inv s" "Get_refs s p c = Some rs" "Some i \<in> set rs"
  shows "i < length (pm_heap s)"
proof -
  obtain j where "j < length rs" "rs ! j = Some i" using assms(3) by (auto simp: in_set_conv_nth)
  then have "loc s (p, c, j) = Some i" using assms(2) by (simp add: loc_def)
  then show ?thesis using assms(1) by (auto simp: pm_inv_def)
qed

lemma Set_state:
  fixes cm s p c ds w
  assumes inv: "pm_inv s"
  defines "t \<equiv> snd (fst (Set cm s p c ds w))"
  shows "Get t = (Get s)(p := (Get s p)(c \<mapsto> ds))" and "pm_inv t"
proof -
  obtain rs h where al: "alloc_devices (pm_heap s) ds = (rs, h)" by (metis prod.exhaust)
  note spec = alloc_devices_spec[OF al]
  have t: "t = s\<lparr>pm_heap := h, preparedClaimsByPodUID := mput (preparedClaimsByPodUID s) p
      (mput (case mget (preparedClaimsByPodUID s) p of None \<Rightarrow> [] | Some m \<Rightarrow> m) c rs)\<rparr>"
    by (simp add: t_def Set_def al case_prod_beta Let_def)
  have gr: "Get_refs t q d = (if q = p \<and> d = c then Some rs else Get_refs s q d)" for q d
    unfolding t by (rule Get_refs_mput)
  have hp: "pm_heap t = h" by (simp add: t)
  obtain new where new: "h = pm_heap s @ new" using spec by blast
  have old: "deref_all h rs' = deref_all (pm_heap s) rs'" if "Get_refs s q d = Some rs'" for q d rs'
    unfolding new by (rule deref_all_append) (rule valid_refs[OF inv that])
  show "Get t = (Get s)(p := (Get s p)(c \<mapsto> ds))"
  proof (intro ext)
    fix q d
    show "Get t q d = ((Get s)(p := (Get s p)(c \<mapsto> ds))) q d"
      using spec old[of q d] by (cases "Get_refs s q d"; cases "q = p") (simp_all add: Get_def gr hp)
  qed
  have lt: "loc t l = (if fst l = p \<and> fst (snd l) = c then slot rs (snd (snd l)) else loc s l)" for l
    by (cases l) (auto simp: loc_def gr slot_def split: option.split)
  have inj: "inj_on (\<lambda>l. snd (snd l)) {l. fst l = p \<and> fst (snd l) = c}" by (auto simp: inj_on_def)
  have "placed (length (pm_heap s)) (length h) (slot rs)" "placed 0 (length (pm_heap s)) (loc s)" using spec inv by (simp_all add: pm_inv_placed)
  then have "placed 0 (length h) (loc t)"
    by (rule placed_merge[where v = "\<lambda>l. l", OF _ _ _ _ _ _ _ lt inj inj_on_part(4)]) (simp_all add: new)
  moreover have "pm_wf t" using inv unfolding pm_inv_def pm_wf_def t by (auto split: option.split)
  ultimately show "pm_inv t" by (simp add: pm_inv_placed hp)
qed

lemma mdel_state:
  fixes s p
  assumes inv: "pm_inv s"
  defines "t \<equiv> s\<lparr>preparedClaimsByPodUID := mdel (preparedClaimsByPodUID s) p\<rparr>"
  shows "Get t = (Get s)(p := Map.empty)" and "pm_inv t"
proof -
  have gr: "Get_refs t q c = (if q = p then None else Get_refs s q c)" for q c
    unfolding t_def by (rule Get_refs_mdel)
  show "Get t = (Get s)(p := Map.empty)" by (auto simp: fun_eq_iff Get_def gr) (simp_all add: t_def)
  have lt: "loc t l = (if fst l = p then None else loc s l)" for l by (cases l) (simp add: loc_def gr)
  have "pm_wf t" using inv by (auto simp: pm_inv_def pm_wf_def t_def)
  moreover have "pm_heap t = pm_heap s" by (simp add: t_def)
  ultimately show "pm_inv t"
    using inv unfolding pm_inv_def lt by (auto split: if_splits)
qed

lemma deref_all_once:
  assumes "i < length h" "j < length rs" "rs ! j = Some i" "\<And>k. k < length rs \<Longrightarrow> rs ! k = Some i \<Longrightarrow> k = j"
  shows "deref_all (h[i := d]) rs = (deref_all h rs)[j := Some d]"
proof (rule nth_equalityI)
  fix k assume "k < length (deref_all (h[i := d]) rs)"
  then have k: "k < length rs" by (simp add: deref_all_def)
  have "rs ! k = Some i \<longleftrightarrow> k = j" using assms(3,4) k by blast
  then show "deref_all (h[i := d]) rs ! k = (deref_all h rs)[j := Some d] ! k"
    unfolding deref_all_update[OF assms(1)] using k by (simp add: deref_all_def nth_list_update)
qed (simp add: deref_all_def)

lemma update_state:
  fixes s i nd
  assumes inv: "pm_inv s" and l: "loc s (p, c, j) = Some i"
  defines "t \<equiv> s\<lparr>pm_heap := (pm_heap s)[i := SetNetworkDeviceData (pm_heap s ! i) nd]\<rparr>"
  shows "Get t = (Get s)(p := (Get s p)(c := map_option (\<lambda>ds. ds[j := map_option (\<lambda>d. SetNetworkDeviceData d nd) (ds ! j)]) (Get s p c)))"
    and "pm_inv t"
proof -
  have i: "i < length (pm_heap s)" using inv l by (auto simp: pm_inv_def)
  have gr: "Get_refs t = Get_refs s" by (simp add: fun_eq_iff Get_refs_def t_def)
  have lt: "loc t = loc s" by (simp add: fun_eq_iff loc_def gr)
  then show "pm_inv t" using inv by (simp add: pm_inv_def pm_wf_def t_def)
  have only: "(q, d, k) = (p, c, j)" if "Get_refs s q d = Some rs" "k < length rs" "rs ! k = Some i" for q d rs k
    by (rule loc_inj[OF inv _ l]) (simp add: loc_def that)
  obtain rs where rs: "Get_refs s p c = Some rs" "j < length rs" "rs ! j = Some i" using l by (auto simp: loc_def split: option.splits if_splits)
  have here: "deref_all (pm_heap t) rs = (deref_all (pm_heap s) rs)[j := Some (SetNetworkDeviceData (pm_heap s ! i) nd)]"
    unfolding t_def using deref_all_once[OF i rs(2,3)] only[OF rs(1)] by simp
  have "Get t q d = Get s q d" if "\<not> (q = p \<and> d = c)" for q d
  proof (cases "Get_refs s q d")
    case (Some rs')
    then have "Some i \<notin> set rs'" using only[OF Some] that by (auto simp: in_set_conv_nth)
    then have "deref_all (pm_heap t) rs' = deref_all (pm_heap s) rs'"
      unfolding t_def using deref_all_update[OF i, of _ rs'] by (auto simp: deref_all_def)
    then show ?thesis using Some by (simp add: Get_def gr)
  qed (simp add: Get_def gr)
  then show "Get t = (Get s)(p := (Get s p)(c := map_option (\<lambda>ds. ds[j := map_option (\<lambda>d. SetNetworkDeviceData d nd) (ds ! j)]) (Get s p c)))"
    using here rs i by (auto simp: fun_eq_iff Get_def gr deref_all_def deref_def)
qed

section \<open>Lemmas: checkpoints\<close>

lemma map_of_map_val: "map_of (map (\<lambda>(k, v). (k, f v)) m) k = map_option f (map_of m k)"
  by (induction m) auto

lemma claims_wf_code [code]: "claims_wf m \<longleftrightarrow> wf_map m \<and> list_all (\<lambda>(p, cs). wf_map cs) m"
proof (cases "wf_map m")
  case True
  then show ?thesis by (auto simp: claims_wf_def list_all_iff map_of_in_set[OF True])
qed (simp add: claims_wf_def)

lemma claims_view_snapshot: "claims_view (snapshot s) = Get s"
  by (auto simp: fun_eq_iff claims_view_def snapshot_def Get_def Get_refs_def map_of_map_val
      option.map_comp split: option.split Option.bind_split)

lemma claims_wf_snapshot: "pm_inv s \<Longrightarrow> claims_wf (snapshot s)"
  by (auto simp: pm_inv_def pm_wf_def claims_wf_def snapshot_def wf_map_def map_of_map_val comp_def case_prod_beta)

lemma map_of_map_val': "map_of (map (\<lambda>p. (fst p, f (snd p))) m) k = map_option f (map_of m k)"
  by (induction m) auto

text \<open>Loading appends to the heap and gives fresh references.\<close>

lemma alloc_claims_spec:
  assumes "alloc_claims h cs = (rs, h')"
  shows "(\<exists>new. h' = h @ new) \<and> map fst rs = map fst cs \<and> (\<forall>c. map_option (deref_all h') (map_of rs c) = map_of cs c) \<and>
    placed (length h) (length h') (claim_slot rs)"
  using assms
proof (induction h cs arbitrary: rs h' rule: alloc_claims.induct)
  case (1 h)
  then show ?case by (simp add: placed_def claim_slot_def)
next
  case (2 h c0 ds cs)
  obtain r0 h1 where a1: "alloc_devices h ds = (r0, h1)" by (metis prod.exhaust)
  obtain rest where a2: "alloc_claims h1 cs = (rest, h')" and rs: "rs = (c0, r0) # rest"
    using 2(2) a1 by (auto split: prod.splits)
  note s1 = alloc_devices_spec[OF a1] and s2 = 2(1)[OF a1[symmetric] refl a2]
  obtain n1 n2 where n: "h1 = h @ n1" "h' = h1 @ n2" using s1 s2 by blast
  have "i < length h1" if "Some i \<in> set r0" for i using s1 that by (auto simp: slot_mem placed_def)
  then have "deref_all h' r0 = ds" using s1 unfolding n(2) by (subst deref_all_append) auto
  moreover have "placed (length h) (length h') (claim_slot rs)"
    unfolding rs
    by (rule placed_merge[where f = "slot r0" and g = "claim_slot rest" and P = "\<lambda>l. fst l = c0" and u = snd and v = "\<lambda>l. l",
          OF _ _ _ _ _ _ _ claim_slot_Cons inj_on_part(3,4)]) (use s1 s2 n in auto)
  ultimately show ?case using s2 n by (simp add: rs)
qed

lemma alloc_pods_spec:
  assumes "alloc_pods h ps = (rs, h')"
  shows "(\<exists>new. h' = h @ new) \<and> map fst rs = map fst ps \<and>
    (\<forall>p. rel_option (\<lambda>cr cs. map fst cr = map fst cs \<and> (\<forall>c. map_option (deref_all h') (map_of cr c) = map_of cs c))
       (map_of rs p) (map_of ps p)) \<and> placed (length h) (length h') (pod_slot rs)"
  using assms
proof (induction h ps arbitrary: rs h' rule: alloc_pods.induct)
  case (1 h)
  then show ?case by (simp add: placed_def pod_slot_def)
next
  case (2 h p0 cs ps)
  obtain r0 h1 where a1: "alloc_claims h cs = (r0, h1)" by (metis prod.exhaust)
  obtain rest where a2: "alloc_pods h1 ps = (rest, h')" and rs: "rs = (p0, r0) # rest"
    using 2(2) a1 by (auto split: prod.splits)
  note s1 = alloc_claims_spec[OF a1] and s2 = 2(1)[OF a1[symmetric] refl a2]
  obtain n1 n2 where n: "h1 = h @ n1" "h' = h1 @ n2" using s1 s2 by blast
  have "map_option (deref_all h') (map_of r0 c) = map_of cs c" for c
  proof (cases "map_of r0 c")
    case (Some r)
    have "i < length h1" if "Some i \<in> set r" for i
      using s1 that Some unfolding placed_def slot_mem by (metis (no_types, lifting) bind.bind_lunit claim_slot_def fst_conv snd_conv)
    then have "deref_all h' r = deref_all h1 r" unfolding n(2) by (rule deref_all_append)
    then show ?thesis using s1 Some by (metis option.map(2))
  qed (use s1 in \<open>metis option.map(1)\<close>)
  moreover have "placed (length h) (length h') (pod_slot rs)"
    unfolding rs
    by (rule placed_merge[where f = "claim_slot r0" and g = "pod_slot rest" and P = "\<lambda>l. fst l = p0" and u = snd and v = "\<lambda>l. l",
          OF _ _ _ _ _ _ _ pod_slot_Cons inj_on_part(3,4)]) (use s1 s2 n in auto)
  ultimately show ?case using s1 s2 n by (simp add: rs)
qed

lemma load_store_refs:
  assumes "alloc_pods [] m = (rs, h)"
  shows "Get_refs (load_store m) p c = Option.bind (map_of rs p) (\<lambda>cr. map_of cr c)"
    and "pm_heap (load_store m) = h" "preparedClaimsByPodUID (load_store m) = rs"
  using assms by (auto simp: load_store_def Get_refs_def split: option.split)

lemma load_store_view: "Get (load_store m) = claims_view m"
proof (intro ext)
  fix p c
  obtain rs h where al: "alloc_pods [] m = (rs, h)" by (metis prod.exhaust)
  note lr = load_store_refs[OF al]
  have "rel_option (\<lambda>cr cs. map fst cr = map fst cs \<and> (\<forall>c. map_option (deref_all h) (map_of cr c) = map_of cs c))
      (map_of rs p) (map_of m p)" using alloc_pods_spec[OF al] by blast
  then show "Get (load_store m) p c = claims_view m p c"
    by (cases rule: option.rel_cases) (simp_all add: Get_def lr claims_view_def)
qed

lemma load_store_inv: assumes "claims_wf m" shows "pm_inv (load_store m)"
proof -
  obtain rs h where al: "alloc_pods [] m = (rs, h)" by (metis prod.exhaust)
  note lr = load_store_refs[OF al] and sp = alloc_pods_spec[OF al]
  have wf: "wf_map cr" if "map_of rs p = Some cr" for p cr
  proof -
    have "rel_option (\<lambda>cr cs. map fst cr = map fst cs \<and> (\<forall>c. map_option (deref_all h) (map_of cr c) = map_of cs c))
      (map_of rs p) (map_of m p)" using sp by blast
    then show ?thesis using that assms by (cases rule: option.rel_cases) (auto simp: claims_wf_def wf_map_def)
  qed
  have "wf_map rs" using sp assms by (simp add: claims_wf_def wf_map_def)
  then have pw: "pm_wf (load_store m)" using wf by (simp add: pm_wf_def lr)
  have "placed 0 (length h) (loc (load_store m))" using sp by (simp add: loc_pod_slot lr)
  then show ?thesis using pw by (simp add: pm_inv_placed lr)
qed

section \<open>Sequences of operations and restarts\<close>

datatype pm_op =
    OpSet UID UID PreparedDevices
  | OpDeletePod UID
  | OpDeleteClaim NamespacedObject
  | OpUpdate ref "NetworkDeviceData option"

definition run_op :: "'w checkpoint_manager \<Rightarrow> pm_op \<Rightarrow> PodManager \<Rightarrow> 'w \<Rightarrow> (unit res \<times> PodManager) \<times> 'w" where
  "run_op cm op s w = (case op of
     OpSet p c ds \<Rightarrow> Set cm s p c ds w
   | OpDeletePod p \<Rightarrow> DeletePod cm s p w
   | OpDeleteClaim c \<Rightarrow> DeleteClaim cm s c w
   | OpUpdate i nd \<Rightarrow> UpdatePreparedDeviceNetworkData cm s (Some i) nd w)"

text \<open>A pointer a caller holds is to a device that was allocated at some time, whether it is still in the
  store or not.\<close>

definition op_valid :: "PodManager \<Rightarrow> pm_op \<Rightarrow> bool" where
  "op_valid s op = (case op of OpUpdate i nd \<Rightarrow> i < length (pm_heap s) | _ \<Rightarrow> True)"

text \<open>The states after a start and any number of operations that reported success.\<close>

inductive pm_run :: "'w checkpoint_manager \<Rightarrow> PodManager \<Rightarrow> 'w \<Rightarrow> bool" for cm where
  start: "newPodManager cm w = (Ok s, w') \<Longrightarrow> pm_run cm s w'"
| step: "pm_run cm s w \<Longrightarrow> op_valid s op \<Longrightarrow> run_op cm op s w = ((Ok (), s'), w') \<Longrightarrow> pm_run cm s' w'"

text \<open>What the kubelet documents of its checkpoint manager: a checkpoint that was created is listed and
  read back, and a checkpoint that is read has Go maps, so no repeated keys.\<close>

definition checkpointing_documented :: "'w checkpoint_manager \<Rightarrow> bool" where
  "checkpointing_documented cm \<longleftrightarrow>
     (\<forall>n cp w w'. cm_CreateCheckpoint cm n cp w = (Ok (), w') \<longrightarrow>
        (\<exists>ns. cm_ListCheckpoints cm w' = Ok ns \<and> n \<in> set ns) \<and>
        (\<exists>cp'. cm_GetCheckpoint cm n w' = Ok cp' \<and> cp_V1 cp' = cp_V1 cp)) \<and>
     (\<forall>n w cp m. cm_GetCheckpoint cm n w = Ok cp \<longrightarrow> cp_V1 cp = Some m \<longrightarrow> claims_wf m)"

lemma update_untracked:
  assumes "pm_inv s" "\<And>l. loc s l \<noteq> Some i"
  shows "Get (s\<lparr>pm_heap := (pm_heap s)[i := d]\<rparr>) = Get s" and "pm_inv (s\<lparr>pm_heap := (pm_heap s)[i := d]\<rparr>)"
proof -
  have gr: "Get_refs (s\<lparr>pm_heap := h\<rparr>) = Get_refs s" for h by (simp add: fun_eq_iff Get_refs_def)
  have "loc (s\<lparr>pm_heap := h\<rparr>) = loc s" for h by (simp add: fun_eq_iff loc_def gr)
  then show "pm_inv (s\<lparr>pm_heap := (pm_heap s)[i := d]\<rparr>)" using assms(1) by (simp add: pm_inv_def pm_wf_def)
  have "Some i \<notin> set rs" if "Get_refs s p c = Some rs" for p c rs
  proof
    assume "Some i \<in> set rs"
    then obtain j where "j < length rs" "rs ! j = Some i" by (auto simp: in_set_conv_nth)
    then have "loc s (p, c, j) = Some i" using that by (simp add: loc_def)
    then show False using assms(2) by blast
  qed
  then have eq: "deref_all ((pm_heap s)[i := d]) rs = deref_all (pm_heap s) rs" if "Get_refs s p c = Some rs" for p c rs
  proof -
    have "deref ((pm_heap s)[i := d]) r = deref (pm_heap s) r" if "r \<in> set rs" for r
      using that \<open>Get_refs s p c = Some rs \<Longrightarrow> Some i \<notin> set rs\<close> \<open>Get_refs s p c = Some rs\<close>
      by (auto simp: deref_def split: option.split) (metis nth_list_update_neq)
    then show ?thesis by (simp add: deref_all_def)
  qed
  have "Get (s\<lparr>pm_heap := (pm_heap s)[i := d]\<rparr>) p c = Get s p c" for p c
    using eq[of p c] by (cases "Get_refs s p c") (simp_all add: Get_def gr)
  then show "Get (s\<lparr>pm_heap := (pm_heap s)[i := d]\<rparr>) = Get s" by blast
qed

lemma update_inv:
  assumes "pm_inv s" shows "pm_inv (s\<lparr>pm_heap := (pm_heap s)[i := SetNetworkDeviceData (pm_heap s ! i) nd]\<rparr>)"
proof (cases "\<exists>l. loc s l = Some i")
  case True
  then obtain p c j where "loc s (p, c, j) = Some i" by auto
  then show ?thesis by (rule update_state(2)[OF assms])
next
  case False
  then show ?thesis using update_untracked(2)[OF assms] by blast
qed

lemma run_op_inv: "pm_inv s \<Longrightarrow> pm_inv (snd (fst (run_op cm op s w)))"
  using Set_state(2)[of s cm] mdel_state(2)[of s] update_inv[of s]
  by (cases op)
     (auto simp: run_op_def DeletePod_def DeleteClaim_def UpdatePreparedDeviceNetworkData_def case_prod_beta Let_def
       split: option.split)

lemma restart_after_sync:
  assumes doc: "checkpointing_documented cm" and sync: "syncToCheckpoint cm s w = (Ok (), w')"
  shows "\<exists>t. newPodManager cm w' = (Ok t, w') \<and> Get t = Get s"
proof -
  have "cm_CreateCheckpoint cm DriverPluginCheckpointFile (NewCheckpoint\<lparr>cp_V1 := Some (snapshot s)\<rparr>) w = (Ok (), w')"
    using sync by (auto simp: syncToCheckpoint_def split: prod.splits)
  then obtain ns cp' where "cm_ListCheckpoints cm w' = Ok ns" "DriverPluginCheckpointFile \<in> set ns"
    "cm_GetCheckpoint cm DriverPluginCheckpointFile w' = Ok cp'" "cp_V1 cp' = Some (snapshot s)"
    using doc[unfolded checkpointing_documented_def, THEN conjunct1, rule_format] by fastforce
  then have "newPodManager cm w' = (Ok (load_store (snapshot s)), w')"
    by (auto simp: newPodManager_def list_ex_iff)
  then show ?thesis by (auto simp: load_store_view claims_view_snapshot)
qed

lemma run_op_Ok:
  assumes "run_op cm op s w = ((Ok (), s'), w')"
  shows "syncToCheckpoint cm s' w = (Ok (), w') \<or> (s' = s \<and> w' = w)"
  using assms
  by (cases op)
     (auto simp: run_op_def Set_def DeletePod_def DeleteClaim_def UpdatePreparedDeviceNetworkData_def case_prod_beta Let_def
       prod_eq_iff split: option.splits)

lemma newPodManager_inv:
  assumes "checkpointing_documented cm" "newPodManager cm w = (Ok s, w')"
  shows "pm_inv s"
proof -
  have "pm_inv \<lparr>pm_heap = [], preparedClaimsByPodUID = []\<rparr>"
    by (auto simp: pm_inv_def pm_wf_def loc_def Get_refs_def)
  moreover have "claims_wf m" if "cm_GetCheckpoint cm n v = Ok cp" "cp_V1 cp = Some m" for n v cp m
    using assms(1) that unfolding checkpointing_documented_def by blast
  ultimately show ?thesis
    using assms(2) load_store_inv
    by (auto simp: newPodManager_def split: res.splits if_splits option.splits prod.splits)
qed

lemma pm_run_inv: "pm_run cm s w \<Longrightarrow> checkpointing_documented cm \<Longrightarrow> pm_inv s"
proof (induction rule: pm_run.induct)
  case (start w s w')
  then show ?case by (auto intro: newPodManager_inv)
next
  case (step s w op s' w')
  then show ?case using run_op_inv[of s cm op w] by simp
qed

lemma newPodManager_restart:
  assumes doc: "checkpointing_documented cm" and new: "newPodManager cm w = (Ok s, w')"
  shows "\<exists>t. newPodManager cm w' = (Ok t, w') \<and> Get t = Get s"
proof (cases "w' = w \<and> newPodManager cm w' = (Ok s, w')")
  case False
  then obtain ns where fresh: "cm_CreateCheckpoint cm DriverPluginCheckpointFile NewCheckpoint w = (Ok (), w')"
      "s = \<lparr>pm_heap = [], preparedClaimsByPodUID = []\<rparr>"
    using new by (auto simp: newPodManager_def split: res.splits if_splits option.splits prod.splits)
  then have "syncToCheckpoint cm s w = (Ok (), w')"
    by (simp add: syncToCheckpoint_def snapshot_def NewCheckpoint_def)
  then show ?thesis by (rule restart_after_sync[OF doc])
qed auto

section \<open>Properties\<close>

text \<open>A checkpoint manager that keeps the last checkpoint and can be told to fail its writes.\<close>

type_synonym memory_store = "PreparedClaims option \<times> bool"

definition memory_cm :: "memory_store checkpoint_manager" where
  "memory_cm = \<lparr>cm_ListCheckpoints = (\<lambda>w. Ok (if fst w = None then [] else [DriverPluginCheckpointFile])),
     cm_GetCheckpoint = (\<lambda>n w. case fst w of
        None \<Rightarrow> Err (External ''not found'')
      | Some m \<Rightarrow> if n = DriverPluginCheckpointFile \<and> claims_wf m then Ok (NewCheckpoint\<lparr>cp_V1 := Some m\<rparr>)
                  else Err (External ''not found'')),
     cm_CreateCheckpoint = (\<lambda>n cp w.
        if snd w \<or> n \<noteq> DriverPluginCheckpointFile then (Err (External ''disk full''), w)
        else case cp_V1 cp of None \<Rightarrow> (Err (External ''no content''), w)
          | Some m \<Rightarrow> if claims_wf m then (Ok (), (Some m, False)) else (Err (External ''not a map''), w))\<rparr>"

lemma memory_cm_documented: "checkpointing_documented memory_cm"
  by (auto simp: checkpointing_documented_def memory_cm_def NewCheckpoint_def split: option.splits if_splits)

definition example_object :: "string \<Rightarrow> NamespacedObject" where
  "example_object uid = \<lparr>no_Name = uid, no_Namespace = ''ns'', no_UID = uid\<rparr>"

definition example_prepared :: "string \<Rightarrow> string \<Rightarrow> PreparedDevice" where
  "example_prepared claim dev = \<lparr>pd_RequestNames = [''req''], pd_PoolName = ''pool'', pd_DeviceName = dev,
     pd_CdiDeviceIds = [], pd_Claim = example_object claim, pd_ContainerEdits = \<lparr>ce_Env = [], ce_DeviceNodes = []\<rparr>,
     pd_Config = Some DefaultVfConfig, pd_IfName = ''vfnet0'', pd_PciAddress = ''0000:01:00.1'',
     pd_MultusDeviceID = [], pd_MultusResourceName = [], pd_DeviceAttributes = None, pd_NetworkDeviceData = None,
     pd_PodUID = ''pod'', pd_NetAttachDefConfig = [], pd_OriginalDriver = []\<rparr>"

abbreviation empty_manager :: PodManager where
  "empty_manager \<equiv> \<lparr>pm_heap = [], preparedClaimsByPodUID = []\<rparr>"

lemma empty_manager_inv: "pm_inv empty_manager"
  by (auto simp: pm_inv_def pm_wf_def loc_def Get_refs_def)

text \<open>C4. The store refines a map from pods and claims to devices: after \<^verbatim>\<open>Set\<close> the claim maps to the devices
  given and every other claim is as before, after \<^verbatim>\<open>DeletePod\<close> the pod has no claims and every other pod is as
  before, the invariant is kept, and all this whether or not the checkpoint could be written.\<close>

theorem PodManager_refines_map:
  assumes "pm_inv s"
  shows "Get (snd (fst (Set cm s p c ds w))) = (Get s)(p := (Get s p)(c \<mapsto> ds)) \<and>
    Get (snd (fst (DeletePod cm s p w))) = (Get s)(p := Map.empty) \<and>
    pm_inv (snd (fst (Set cm s p c ds w))) \<and> pm_inv (snd (fst (DeletePod cm s p w)))"
  using Set_state[OF assms, of cm p c ds w] mdel_state[OF assms, of p]
  by (simp add: DeletePod_def case_prod_beta Let_def)

theorem PodManager_refines_map_witness:
  "Get (snd (fst (Set memory_cm empty_manager ''pod'' ''c1'' [Some (example_prepared ''c1'' ''vf0'')] (None, True)))) ''pod'' ''c1''
     = Some [Some (example_prepared ''c1'' ''vf0'')]"
  using PodManager_refines_map[OF empty_manager_inv, of memory_cm "''pod''" "''c1''" "[Some (example_prepared ''c1'' ''vf0'')]"
      "(None, True)"]
  by simp

text \<open>Network data reported for a device of a running pod reaches exactly that device: the pointer the
  caller got from the store still denotes the stored device, so the claim's entry changes at that
  position only and every other device, claim and pod is untouched.\<close>

theorem UpdatePreparedDeviceNetworkData_pinpoint:
  assumes "pm_inv s" "Get_refs s p c = Some rs" "j < length rs" "rs ! j = Some i"
  shows "Get (snd (fst (UpdatePreparedDeviceNetworkData cm s (Some i) nd w))) =
    (Get s)(p := (Get s p)(c := map_option (\<lambda>ds. ds[j := map_option (\<lambda>d. SetNetworkDeviceData d nd) (ds ! j)]) (Get s p c)))"
proof -
  have "loc s (p, c, j) = Some i" using assms by (simp add: loc_def)
  from update_state(1)[OF assms(1) this] show ?thesis
    by (simp add: UpdatePreparedDeviceNetworkData_def case_prod_beta Let_def)
qed

theorem UpdatePreparedDeviceNetworkData_pinpoint_witness:
  "Get (snd (fst (UpdatePreparedDeviceNetworkData memory_cm
     (snd (fst (Set memory_cm empty_manager ''pod'' ''c1'' [Some (example_prepared ''c1'' ''vf0'')] (None, False))))
     (Some 0) (Some \<lparr>nd_InterfaceName = ''vfnet0'', nd_IPs = [''10.0.0.2/24''], nd_HardwareAddress = []\<rparr>) (None, False)))) ''pod'' ''c1'' =
   Some [Some (SetNetworkDeviceData (example_prepared ''c1'' ''vf0'')
     (Some \<lparr>nd_InterfaceName = ''vfnet0'', nd_IPs = [''10.0.0.2/24''], nd_HardwareAddress = []\<rparr>))]"
proof -
  define s where "s = snd (fst (Set memory_cm empty_manager ''pod'' ''c1'' [Some (example_prepared ''c1'' ''vf0'')] (None, False)))"
  have inv: "pm_inv s" unfolding s_def by (rule Set_state(2)[OF empty_manager_inv])
  have g: "Get s ''pod'' ''c1'' = Some [Some (example_prepared ''c1'' ''vf0'')]"
    unfolding s_def Set_state(1)[OF empty_manager_inv] by simp
  have r: "Get_refs s ''pod'' ''c1'' = Some [Some 0]"
    by (simp add: s_def Set_def Get_refs_def case_prod_beta Let_def)
  show ?thesis
    using UpdatePreparedDeviceNetworkData_pinpoint[OF inv r, of 0 0 memory_cm
        "Some \<lparr>nd_InterfaceName = ''vfnet0'', nd_IPs = [''10.0.0.2/24''], nd_HardwareAddress = []\<rparr>" "(None, False)"] g
    unfolding s_def[symmetric] by simp
qed

text \<open>C9. A restart of the driver loses nothing: in every state that a start and any sequence of successful
  operations reach, starting again from the checkpoint succeeds and gives a store with the same
  devices for every pod and claim, including network data set through pointers.\<close>

theorem restart_recovers_store:
  assumes "checkpointing_documented cm" "pm_run cm s w"
  shows "\<exists>t. newPodManager cm w = (Ok t, w) \<and> Get t = Get s"
  using assms(2)
proof (induction rule: pm_run.induct)
  case (start w s w')
  then show ?case by (rule newPodManager_restart[OF assms(1)])
next
  case (step s w op s' w')
  from run_op_Ok[OF step.hyps(3)] show ?case
    using restart_after_sync[OF assms(1)] step.IH by blast
qed

theorem restart_recovers_store_witness:
  "\<exists>t. newPodManager memory_cm (Some (snapshot (snd (fst (Set memory_cm empty_manager ''pod'' ''c1''
       [Some (example_prepared ''c1'' ''vf0'')] (Some [], False))))), False) =
     (Ok t, (Some (snapshot (snd (fst (Set memory_cm empty_manager ''pod'' ''c1''
       [Some (example_prepared ''c1'' ''vf0'')] (Some [], False))))), False)) \<and>
     Get t ''pod'' ''c1'' = Some [Some (example_prepared ''c1'' ''vf0'')]"
proof -
  define s where "s = snd (fst (Set memory_cm empty_manager ''pod'' ''c1'' [Some (example_prepared ''c1'' ''vf0'')] (Some [], False)))"
  have inv: "pm_inv s" unfolding s_def by (rule Set_state(2)[OF empty_manager_inv])
  have "newPodManager memory_cm (None, False) = (Ok empty_manager, (Some [], False))"
    by (simp add: newPodManager_def memory_cm_def NewCheckpoint_def claims_wf_def)
  then have 0: "pm_run memory_cm empty_manager (Some [], False)" by (rule pm_run.start)
  have "run_op memory_cm (OpSet ''pod'' ''c1'' [Some (example_prepared ''c1'' ''vf0'')]) empty_manager (Some [], False) =
      ((Ok (), s), (Some (snapshot s), False))"
    using claims_wf_snapshot[OF inv]
    by (simp add: run_op_def s_def Set_def syncToCheckpoint_def memory_cm_def NewCheckpoint_def case_prod_beta Let_def)
  then have "pm_run memory_cm s (Some (snapshot s), False)"
    using pm_run.step[OF 0, of "OpSet ''pod'' ''c1'' [Some (example_prepared ''c1'' ''vf0'')]"] by (simp add: op_valid_def)
  moreover have "Get s ''pod'' ''c1'' = Some [Some (example_prepared ''c1'' ''vf0'')]"
    unfolding s_def Set_state(1)[OF empty_manager_inv] by simp
  ultimately show ?thesis
    using restart_recovers_store[OF memory_cm_documented] unfolding s_def[symmetric] by metis
qed

text \<open>\<^verbatim>\<open>DeleteClaim\<close> removes more than the claim: the pod that holds the claim is deleted with all its
  claims. A claim of the same pod that is still prepared is forgotten with it.\<close>

theorem DeleteClaim_forgets_pod:
  assumes "pm_inv s" "pod_of_claim s (no_UID claim) = Some (p, rs)"
  shows "Get (snd (fst (DeleteClaim cm s claim w))) = (Get s)(p := Map.empty)"
  using mdel_state(1)[OF assms(1)] assms(2) by (simp add: DeleteClaim_def case_prod_beta Let_def)

definition two_claims :: PodManager where
  "two_claims = \<lparr>pm_heap = [example_prepared ''c1'' ''vf0'', example_prepared ''c2'' ''vf1''],
     preparedClaimsByPodUID = [(''pod'', [(''c1'', [Some 0]), (''c2'', [Some 1])])]\<rparr>"

lemma two_claims_inv: "pm_inv two_claims"
  by (auto simp: pm_inv_def pm_wf_def two_claims_def loc_def Get_refs_def split: if_splits option.splits)

theorem DeleteClaim_forgets_pod_witness:
  "Get two_claims ''pod'' ''c2'' = Some [Some (example_prepared ''c2'' ''vf1'')] \<and>
   Get (snd (fst (DeleteClaim memory_cm two_claims (example_object ''c1'') (None, False)))) ''pod'' ''c2'' = None"
proof -
  have "pod_of_claim two_claims (no_UID (example_object ''c1'')) = Some (''pod'', [Some 0])"
    by (simp add: pod_of_claim_def two_claims_def example_object_def mhas_def)
  from DeleteClaim_forgets_pod[OF two_claims_inv this, of memory_cm "(None, False)"] show ?thesis
    by (simp add: Get_def Get_refs_def two_claims_def deref_all_def deref_def)
qed

text \<open>Checkpoints with the same maps, whatever the order of the entries, and what is documented of the JSON library: the keys of maps are
  sorted, so the output depends on the content of the maps only, and decoding gives back this content, in some order.\<close>

definition claims_content :: "PreparedClaims \<Rightarrow> UID \<rightharpoonup> (UID \<rightharpoonup> PreparedDevices)" where
  "claims_content m p = map_option map_of (map_of m p)"

definition same_content :: "Checkpoint \<Rightarrow> Checkpoint \<Rightarrow> bool" where
  "same_content cp cp' \<longleftrightarrow> cp_Checksum cp = cp_Checksum cp' \<and> map_option claims_content (cp_V1 cp) = map_option claims_content (cp_V1 cp')"

definition json_documented :: "'b checkpoint_codec \<Rightarrow> bool" where
  "json_documented cc \<longleftrightarrow> (\<forall>cp cp'. same_content cp cp' \<longrightarrow> json_Marshal_cp cc cp = json_Marshal_cp cc cp') \<and>
     (\<forall>cp out. json_Marshal_cp cc cp = Ok out \<longrightarrow> (\<exists>cp'. json_Unmarshal_cp cc out = Ok cp' \<and> same_content cp cp'))"

text \<open>C31. A checkpoint verifies itself: what \<^verbatim>\<open>MarshalCheckpoint\<close> writes decodes to a checkpoint that passes \<^verbatim>\<open>VerifyChecksum\<close>, although the
  encoding contains the checksum of another encoding and the order of the maps may have changed on the way. When the claims of the
  decoded checkpoint are replaced by others, or its checksum by another one, it is rejected, except when the encoding of the
  new content has by chance the checksum that is recorded.\<close>

theorem checkpoint_verifies:
  assumes json: "json_documented cc" and out: "fst (MarshalCheckpoint cc cp) = Ok out"
  shows "\<exists>cp' o1. UnmarshalCheckpoint cc out = Ok cp' \<and> VerifyChecksum cc cp' = Ok () \<and> json_Marshal_cp cc (cp\<lparr>cp_Checksum := 0\<rparr>) = Ok o1 \<and>
    (\<forall>V o2. json_Marshal_cp cc \<lparr>cp_Checksum = 0, cp_V1 = V\<rparr> = Ok o2 \<longrightarrow>
       (is_ok (VerifyChecksum cc (cp'\<lparr>cp_V1 := V\<rparr>)) \<longleftrightarrow> checksum_New cc o2 = checksum_New cc o1)) \<and>
    (\<forall>k. is_ok (VerifyChecksum cc (cp'\<lparr>cp_Checksum := k\<rparr>)) \<longleftrightarrow> k = checksum_New cc o1)"
proof -
  obtain o1 where o1: "json_Marshal_cp cc (cp\<lparr>cp_Checksum := 0\<rparr>) = Ok o1"
    using out by (auto simp: MarshalCheckpoint_def Let_def split: res.splits)
  have "json_Marshal_cp cc (cp\<lparr>cp_Checksum := checksum_New cc o1\<rparr>) = Ok out" using out o1 by (simp add: MarshalCheckpoint_def Let_def)
  then obtain cp' where cp': "UnmarshalCheckpoint cc out = Ok cp'" "same_content (cp\<lparr>cp_Checksum := checksum_New cc o1\<rparr>) cp'"
    using json unfolding json_documented_def UnmarshalCheckpoint_def by blast
  then have "same_content (cp'\<lparr>cp_Checksum := 0\<rparr>) (cp\<lparr>cp_Checksum := 0\<rparr>)" and k: "cp_Checksum cp' = checksum_New cc o1"
    by (simp_all add: same_content_def)
  then have enc: "json_Marshal_cp cc (cp'\<lparr>cp_Checksum := 0\<rparr>) = Ok o1" using json o1 unfolding json_documented_def by metis
  have "VerifyChecksum cc cp' = Ok ()" using enc k by (simp add: VerifyChecksum_def)
  moreover have "is_ok (VerifyChecksum cc (cp'\<lparr>cp_V1 := V\<rparr>)) \<longleftrightarrow> checksum_New cc o2 = checksum_New cc o1"
    if "json_Marshal_cp cc \<lparr>cp_Checksum = 0, cp_V1 = V\<rparr> = Ok o2" for V o2
    using that k by (cases cp') (auto simp: VerifyChecksum_def is_ok_def)
  moreover have "is_ok (VerifyChecksum cc (cp'\<lparr>cp_Checksum := j\<rparr>)) \<longleftrightarrow> j = checksum_New cc o1" for j
    using enc by (auto simp: VerifyChecksum_def is_ok_def)
  ultimately show ?thesis using cp'(1) o1 by blast
qed

text \<open>A library whose encodings are checkpoints with sorted maps; the checksum counts the claims.\<close>

definition sorted_map :: "('v \<Rightarrow> 'u) \<Rightarrow> (string, 'v) gomap \<Rightarrow> (string, 'u) gomap" where
  "sorted_map f m = map (\<lambda>k. (k, f (the (map_of m k)))) (sorted_list_of_set (fst ` set m))"

definition sorted_codec :: "Checkpoint checkpoint_codec" where
  "sorted_codec = \<lparr>json_Marshal_cp = (\<lambda>cp. Ok (cp\<lparr>cp_V1 := map_option (sorted_map (sorted_map id)) (cp_V1 cp)\<rparr>)),
     json_Unmarshal_cp = Ok, checksum_New = (\<lambda>cp. case cp_V1 cp of None \<Rightarrow> 0 | Some m \<Rightarrow> Suc (length (concat (map snd m))))\<rparr>"

lemma map_of_keys: "map_of (map (\<lambda>k. (k, g k)) ks) k = (if k \<in> set ks then Some (g k) else None)"
  by (induction ks) auto

lemma map_of_sorted_map: "map_of (sorted_map f m) k = map_option f (map_of m k)"
  by (cases "map_of m k") (auto simp: sorted_map_def map_of_keys map_of_eq_None_iff dest: map_of_SomeD intro: rev_image_eqI)

lemma sorted_map_cong:
  assumes "\<And>k. map_option f (map_of m k) = map_option f (map_of m' k)" shows "sorted_map f m = sorted_map f m'"
proof -
  have "k \<in> fst ` set m \<longleftrightarrow> k \<in> fst ` set m'" for k
    using arg_cong[OF assms[of k], of "\<lambda>y. y = None"] by (simp add: map_of_eq_None_iff)
  then have keys: "fst ` set m = fst ` set m'" by (rule set_eqI)
  have "f (the (map_of m k)) = f (the (map_of m' k))" if k: "k \<in> fst ` set m" for k
  proof -
    from k keys have "map_of m k \<noteq> None" "map_of m' k \<noteq> None" by (simp_all add: map_of_eq_None_iff)
    then obtain v v' where v: "map_of m k = Some v" "map_of m' k = Some v'" by (elim not_None_eq[THEN iffD1, THEN exE])
    then show ?thesis using assms[of k] by (simp only: v option.map option.sel option.inject)
  qed
  then show ?thesis unfolding sorted_map_def keys[symmetric] by (intro map_cong) simp_all
qed

lemma sorted_claims_cong:
  assumes "claims_content m = claims_content m'" shows "sorted_map (sorted_map id) m = sorted_map (sorted_map id) m'"
proof (rule sorted_map_cong)
  fix p
  have inner: "sorted_map id cs = sorted_map id cs'" if "map_of cs = map_of cs'" for cs cs' :: "(UID, PreparedDevices) gomap"
    by (rule sorted_map_cong) (simp only: that)
  have "map_option map_of (map_of m p) = map_option map_of (map_of m' p)" using fun_cong[OF assms, of p] unfolding claims_content_def .
  then show "map_option (sorted_map id) (map_of m p) = map_option (sorted_map id) (map_of m' p)"
    by (cases "map_of m p"; cases "map_of m' p") (simp_all, rule inner)
qed

lemma sorted_claims_content: "claims_content (sorted_map (sorted_map id) m) = claims_content m"
proof
  fix p
  have "map_of (sorted_map id cs) = map_of cs" for cs :: "(UID, PreparedDevices) gomap" by (simp add: fun_eq_iff map_of_sorted_map option.map_id)
  then show "claims_content (sorted_map (sorted_map id) m) p = claims_content m p"
    by (cases "map_of m p") (simp_all add: claims_content_def map_of_sorted_map)
qed

lemma sorted_codec_documented: "json_documented sorted_codec"
proof -
  have "json_Marshal_cp sorted_codec cp = json_Marshal_cp sorted_codec cp'" if same: "same_content cp cp'" for cp cp'
  proof -
    have "map_option (sorted_map (sorted_map id)) (cp_V1 cp) = map_option (sorted_map (sorted_map id)) (cp_V1 cp')"
    proof (cases "cp_V1 cp")
      case None
      then show ?thesis using same by (simp add: same_content_def)
    next
      case (Some m)
      then obtain m' where m': "cp_V1 cp' = Some m'" "claims_content m = claims_content m'"
        using same by (cases "cp_V1 cp'") (simp_all add: same_content_def)
      then show ?thesis using Some sorted_claims_cong[OF m'(2)] by simp
    qed
    moreover have "cp_Checksum cp = cp_Checksum cp'" using same by (simp add: same_content_def)
    ultimately show ?thesis by (cases cp; cases cp') (simp add: sorted_codec_def)
  qed
  moreover have "\<exists>cp'. json_Unmarshal_cp sorted_codec out = Ok cp' \<and> same_content cp cp'" if "json_Marshal_cp sorted_codec cp = Ok out" for cp out
    using that sorted_claims_content by (cases "cp_V1 cp") (auto simp: same_content_def sorted_codec_def)
  ultimately show ?thesis unfolding json_documented_def by blast
qed

theorem checkpoint_verifies_witness:
  "\<exists>out cp'. fst (MarshalCheckpoint sorted_codec \<lparr>cp_Checksum = 0, cp_V1 = Some (snapshot two_claims)\<rparr>) = Ok out \<and>
     UnmarshalCheckpoint sorted_codec out = Ok cp' \<and> VerifyChecksum sorted_codec cp' = Ok () \<and>
     \<not> is_ok (VerifyChecksum sorted_codec (cp'\<lparr>cp_V1 := Some []\<rparr>))"
proof -
  let ?cp = "\<lparr>cp_Checksum = 0, cp_V1 = Some (snapshot two_claims)\<rparr>"
  obtain out where out: "fst (MarshalCheckpoint sorted_codec ?cp) = Ok out" by (simp add: MarshalCheckpoint_def sorted_codec_def)
  have o1: "json_Marshal_cp sorted_codec ?cp = Ok o1 \<Longrightarrow> checksum_New sorted_codec o1 = 3" for o1
    by (auto simp: sorted_codec_def sorted_map_def snapshot_def two_claims_def)
  have o2: "json_Marshal_cp sorted_codec \<lparr>cp_Checksum = 0, cp_V1 = Some []\<rparr> = Ok \<lparr>cp_Checksum = 0, cp_V1 = Some []\<rparr>"
    "checksum_New sorted_codec \<lparr>cp_Checksum = 0, cp_V1 = Some []\<rparr> = 1" by (simp_all add: sorted_codec_def sorted_map_def)
  from checkpoint_verifies[OF sorted_codec_documented out] obtain cp' o1 where v: "UnmarshalCheckpoint sorted_codec out = Ok cp'"
    "VerifyChecksum sorted_codec cp' = Ok ()" "json_Marshal_cp sorted_codec ?cp = Ok o1"
    "\<And>V o2. json_Marshal_cp sorted_codec \<lparr>cp_Checksum = 0, cp_V1 = V\<rparr> = Ok o2 \<Longrightarrow>
       is_ok (VerifyChecksum sorted_codec (cp'\<lparr>cp_V1 := V\<rparr>)) \<longleftrightarrow> checksum_New sorted_codec o2 = checksum_New sorted_codec o1" by auto
  then show ?thesis using v(4)[OF o2(1)] o1[OF v(3)] o2(2) out by auto
qed

end
