(* ===== verification/Driver.thy ===== *)
theory Driver
  imports ClaimLifecycle PodManager
begin

text \<open>
  The kubelet's calls of the DRA plugin (\<^verbatim>\<open>pkg/driver/dra_hook.go\<close>): prepare and unprepare claims. The plugin calls the device manager of the theory \<open>Prepare\<close>, the status update of
  \<open>StatusRetry\<close> and a store of prepared devices, whose operations are the record \<open>PreparedStore\<close>; the
  contract of that store is the locale \<open>claim_store\<close>, which the pod manager meets. The API
  server is an argument.
\<close>

section \<open>Parameters and results\<close>

text \<open>The methods of \<^verbatim>\<open>PodManager\<close> that the plugin calls.\<close>

record ('s, 'w) PreparedStore =
  st_Set :: "'s \<Rightarrow> UID \<Rightarrow> UID \<Rightarrow> PreparedDevices \<Rightarrow> 'w \<Rightarrow> (unit res \<times> 's) \<times> 'w"
  st_Get :: "'s \<Rightarrow> UID \<Rightarrow> UID \<Rightarrow> PreparedDevices option"
  st_GetDevicesByPodUID :: "'s \<Rightarrow> UID \<Rightarrow> PreparedDevices option"
  st_GetByClaim :: "'s \<Rightarrow> NamespacedObject \<Rightarrow> PreparedDevices option"
  st_DeleteClaim :: "'s \<Rightarrow> NamespacedObject \<Rightarrow> 'w \<Rightarrow> (unit res \<times> 's) \<times> 'w"

text \<open>The plugin with everything it calls: the environment of the device manager, the store, the claim clients
  by namespace, the error predicates and the back-off loop. The device manager itself is passed to each call,
  because the controller changes its policy state.\<close>

record ('s, 'w) Driver =
  d_env :: "'w env"
  d_store :: "('s, 'w) PreparedStore"
  d_claims :: "string \<Rightarrow> 'w claim_client"
  d_errors :: apierrors
  d_backoff :: "'w retry_state condition \<Rightarrow> 'w retry_state \<Rightarrow> error option \<times> 'w retry_state"
  d_ctxErr :: "'w \<Rightarrow> error option"

record PrepareResult =
  pr_Devices :: "KubeletDevice list"
  pr_Err :: "error option"

definition prepare_error :: "error \<Rightarrow> PrepareResult" where
  "prepare_error e = \<lparr>pr_Devices = [], pr_Err = Some e\<rparr>"

text \<open>The loop that converts stored devices; a nil entry is dereferenced.\<close>

fun kubelet_devices :: "KubeletDevice list \<Rightarrow> PreparedDevices \<Rightarrow> KubeletDevice list res" where
  "kubelet_devices prepared [] = Ok prepared"
| "kubelet_devices prepared (None # ds) = Panic ''invalid memory address or nil pointer dereference''"
| "kubelet_devices prepared (Some d # ds) = kubelet_devices (prepared @ [ToKubeletPluginDevice d None]) ds"

section \<open>Prepare\<close>

text \<open>The result, the interface index and the store. The claim's own status is written by the status update
  only; no later step of the call reads it.\<close>

definition prepareResourceClaim :: "('s, 'w) Driver \<Rightarrow> Manager \<Rightarrow> nat \<Rightarrow> ResourceClaim \<Rightarrow> 's \<Rightarrow> 'w \<Rightarrow>
    (PrepareResult res \<times> nat \<times> 's) \<times> 'w" where
  "prepareResourceClaim d m ifNameIndex claim s w =
     (case claim_ReservedFor claim of
        [] \<Rightarrow> ((Ok (prepare_error (Errorf ''no pod info found for claim %s/%s/%s'' [])), ifNameIndex, s), w)
      | _ # _ # _ \<Rightarrow> ((Ok (prepare_error (Errorf ''multiple pods found for claim %s/%s/%s not supported'' [])), ifNameIndex, s), w)
      | [podUID] \<Rightarrow>
     (if claim_Allocation claim = None then ((Ok (prepare_error (Errorf ''claim not yet allocated'' [])), ifNameIndex, s), w)
      else
     (case st_Get (d_store d) s podUID (claim_UID claim) of
        Some preparedDevices \<Rightarrow>
          ((bind_res (kubelet_devices [] preparedDevices) (\<lambda>prepared. Ok \<lparr>pr_Devices = prepared, pr_Err = None\<rparr>), ifNameIndex, s), w)
      | None \<Rightarrow>
     (case PrepareDevicesForClaim (d_env d) m ifNameIndex claim w of
        ((Err err, idx, _), w1) \<Rightarrow> ((Ok (prepare_error (Errorf ''error preparing devices for claim %v: %w'' [err])), idx, s), w1)
      | ((Panic p, idx, _), w1) \<Rightarrow> ((Panic p, idx, s), w1)
      | ((Ok preparedDevices, idx, claim'), w1) \<Rightarrow>
          let prepared = map (\<lambda>p. ToKubeletPluginDevice p None) preparedDevices in
     (case st_Set (d_store d) s podUID (claim_UID claim) (map Some preparedDevices) w1 of
        ((Err err, s'), w2) \<Rightarrow>
          (case Unprepare (d_env d) m (claim_UID claim) (map Some preparedDevices) w2 of
             (Err cleanupErr, w3) \<Rightarrow>
               ((Ok (prepare_error (Errorf ''error setting prepared devices for pod %s into pod manager: %w; cleanup failed: %v''
                   [err, cleanupErr])), idx, s'), w3)
           | (Panic p, w3) \<Rightarrow> ((Panic p, idx, s'), w3)
           | (Ok _, w3) \<Rightarrow>
               ((Ok (prepare_error (Errorf ''error setting prepared devices for pod %s into pod manager: %w'' [err])), idx, s'), w3))
      | ((Panic p, s'), w2) \<Rightarrow> ((Panic p, idx, s'), w2)
      | ((Ok _, s'), w2) \<Rightarrow>
          let (_, w3) = UpdateClaimStatusWithRetry (d_errors d) (d_backoff d) (d_ctxErr d)
                (d_claims d (claim_Namespace claim)) claim' DriverName w2
          in ((Ok \<lparr>pr_Devices = prepared, pr_Err = None\<rparr>, idx, s'), w3))))))"

text \<open>The loop over the claims, which share the interface index.\<close>

fun prepare_claims :: "('s, 'w) Driver \<Rightarrow> Manager \<Rightarrow> nat \<Rightarrow> (UID, PrepareResult) gomap \<Rightarrow> ResourceClaim option list \<Rightarrow> 's \<Rightarrow> 'w \<Rightarrow>
    ((UID, PrepareResult) gomap res \<times> nat \<times> 's) \<times> 'w" where
  "prepare_claims d m idx result [] s w = ((Ok result, idx, s), w)"
| "prepare_claims d m idx result (None # claims) s w = ((Panic ''invalid memory address or nil pointer dereference'', idx, s), w)"
| "prepare_claims d m idx result (Some claim # claims) s w =
     (case prepareResourceClaim d m idx claim s w of
        ((Ok r, idx', s'), w') \<Rightarrow> prepare_claims d m idx' (mput result (claim_UID claim) r) claims s' w'
      | ((Err e, idx', s'), w') \<Rightarrow> ((Err e, idx', s'), w')
      | ((Panic p, idx', s'), w') \<Rightarrow> ((Panic p, idx', s'), w'))"

text \<open>The pod of the first claim that has one; empty otherwise.\<close>

fun first_pod :: "ResourceClaim option list \<Rightarrow> UID" where
  "first_pod [] = []"
| "first_pod (None # claims) = first_pod claims"
| "first_pod (Some claim # claims) = (case claim_ReservedFor claim of [] \<Rightarrow> first_pod claims | u # _ \<Rightarrow> u)"

text \<open>The PCI addresses of the pod's devices; an error for a device the manager does not know.\<close>

fun pod_addresses :: "Manager \<Rightarrow> string list \<Rightarrow> PreparedDevices \<Rightarrow> string list res" where
  "pod_addresses m pciAddresses [] = Ok pciAddresses"
| "pod_addresses m pciAddresses (None # ds) = Panic ''invalid memory address or nil pointer dereference''"
| "pod_addresses m pciAddresses (Some p # ds) =
     (case GetAllocatableDeviceByName m (pd_DeviceName p) of
        None \<Rightarrow> Err (Errorf ''device not found for device name %s'' [])
      | Some device \<Rightarrow> bind_res (pci_address device) (\<lambda>a. pod_addresses m (pciAddresses @ [a]) ds))"

section \<open>Unprepare\<close>

definition unprepareResourceClaim :: "('s, 'w) Driver \<Rightarrow> Manager \<Rightarrow> NamespacedObject \<Rightarrow> 's \<Rightarrow> 'w \<Rightarrow> (unit res \<times> 's) \<times> 'w" where
  "unprepareResourceClaim d m claim s w =
     (case st_GetByClaim (d_store d) s claim of
        None \<Rightarrow> ((Ok (), s), w)
      | Some preparedDevices \<Rightarrow>
     (case Unprepare (d_env d) m (no_UID claim) preparedDevices w of
        (Err err, w1) \<Rightarrow> ((Err (Errorf ''error unpreparing devices for claim %v: %w'' [err]), s), w1)
      | (Panic p, w1) \<Rightarrow> ((Panic p, s), w1)
      | (Ok _, w1) \<Rightarrow>
          let ((r, s'), w2) = st_DeleteClaim (d_store d) s claim w1
          in ((wrap_err ''error deleting claim %s from pod manager: %w'' r, s'), w2)))"

fun UnprepareResourceClaims :: "('s, 'w) Driver \<Rightarrow> Manager \<Rightarrow> (UID, error option) gomap \<Rightarrow> NamespacedObject list \<Rightarrow> 's \<Rightarrow> 'w \<Rightarrow>
    ((UID, error option) gomap res \<times> 's) \<times> 'w" where
  "UnprepareResourceClaims d m result [] s w = ((Ok result, s), w)"
| "UnprepareResourceClaims d m result (claim # claims) s w =
     (case unprepareResourceClaim d m claim s w of
        ((Ok _, s'), w') \<Rightarrow> UnprepareResourceClaims d m (mput result (no_UID claim) None) claims s' w'
      | ((Err e, s'), w') \<Rightarrow> UnprepareResourceClaims d m (mput result (no_UID claim) (Some e)) claims s' w'
      | ((Panic p, s'), w') \<Rightarrow> ((Panic p, s'), w'))"

fun rollback_claims :: "('s, 'w) Driver \<Rightarrow> Manager \<Rightarrow> error list \<Rightarrow> ResourceClaim option list \<Rightarrow> 's \<Rightarrow> 'w \<Rightarrow> (error list res \<times> 's) \<times> 'w" where
  "rollback_claims d m errs [] s w = ((Ok errs, s), w)"
| "rollback_claims d m errs (None # claims) s w = rollback_claims d m errs claims s w"
| "rollback_claims d m errs (Some claim # claims) s w =
     (case unprepareResourceClaim d m \<lparr>no_Name = claim_Name claim, no_Namespace = claim_Namespace claim, no_UID = claim_UID claim\<rparr> s w of
        ((Ok _, s'), w') \<Rightarrow> rollback_claims d m errs claims s' w'
      | ((Err e, s'), w') \<Rightarrow> rollback_claims d m (errs @ [Errorf ''failed to rollback claim %s: %w'' [e]]) claims s' w'
      | ((Panic p, s'), w') \<Rightarrow> ((Panic p, s'), w'))"

definition rollbackPreparedClaims :: "('s, 'w) Driver \<Rightarrow> Manager \<Rightarrow> ResourceClaim option list \<Rightarrow> 's \<Rightarrow> 'w \<Rightarrow> (unit res \<times> 's) \<times> 'w" where
  "rollbackPreparedClaims d m claims s w =
     (let ((r, s'), w') = rollback_claims d m [] claims s w in ((bind_res r join_errors, s'), w'))"

text \<open>The error branches after the claims are prepared: roll back, and report the failure of that as well.\<close>

definition rollback_with :: "('s, 'w) Driver \<Rightarrow> Manager \<Rightarrow> string \<Rightarrow> error \<Rightarrow> (UID, PrepareResult) gomap \<Rightarrow> ResourceClaim option list \<Rightarrow>
    's \<Rightarrow> 'w \<Rightarrow> (((UID, PrepareResult) gomap \<times> error option) res \<times> 's) \<times> 'w" where
  "rollback_with d m cleanup_msg baseErr result claims s w =
     (case rollbackPreparedClaims d m claims s w of
        ((Err cleanupErr, s'), w') \<Rightarrow> ((Ok (result, Some (Joined [baseErr, Errorf cleanup_msg [cleanupErr]])), s'), w')
      | ((Panic p, s'), w') \<Rightarrow> ((Panic p, s'), w')
      | ((Ok _, s'), w') \<Rightarrow> ((Ok (result, Some baseErr), s'), w'))"

text \<open>The results by claim, returned together with the error of the call.\<close>

definition PrepareResourceClaims :: "('s, 'w) Driver \<Rightarrow> Manager \<Rightarrow> ResourceClaim option list \<Rightarrow> 's \<Rightarrow> 'w \<Rightarrow>
    (((UID, PrepareResult) gomap \<times> error option) res \<times> 's) \<times> 'w" where
  "PrepareResourceClaims d m claims s w =
     (if length claims = 0 then ((Ok ([], None), s), w)
      else
     (case prepare_claims d m 0 [] claims s w of
        ((Err e, _, s1), w1) \<Rightarrow> ((Err e, s1), w1)
      | ((Panic p, _, s1), w1) \<Rightarrow> ((Panic p, s1), w1)
      | ((Ok result, _, s1), w1) \<Rightarrow>
          let podUID = first_pod claims in
          if podUID = [] then ((Ok (result, Some (Errorf ''no pod info found for prepared claims'' [])), s1), w1)
          else
     (case st_GetDevicesByPodUID (d_store d) s1 podUID of
        None \<Rightarrow> ((Ok (result, Some (Errorf ''no prepared devices found for pod %s'' [])), s1), w1)
      | Some preparedDevices \<Rightarrow>
     (case pod_addresses m [] preparedDevices of
        Err baseErr \<Rightarrow> rollback_with d m ''cleanup failed after prepare error: %w'' baseErr result claims s1 w1
      | Panic p \<Rightarrow> ((Panic p, s1), w1)
      | Ok pciAddresses \<Rightarrow>
     (case CreateGlobalPodSpecFile (env_cdi (d_env d)) podUID pciAddresses w1 of
        (Err err, w2) \<Rightarrow> rollback_with d m ''cleanup failed after global spec error: %w''
            (Errorf ''error creating global spec file for pod: %w'' [err]) result claims s1 w2
      | (Panic p, w2) \<Rightarrow> ((Panic p, s1), w2)
      | (Ok _, w2) \<Rightarrow> ((Ok (result, None), s1), w2))))))"

text \<open>The error that cancels the main context, if any.\<close>

definition HandleError :: "(error \<Rightarrow> bool) \<Rightarrow> bool \<Rightarrow> error \<Rightarrow> error option" where
  "HandleError is_recoverable has_cancel err =
     (if \<not> is_recoverable err \<and> has_cancel then Some (Errorf ''fatal background error: %w'' [err]) else None)"

section \<open>The contract of the store\<close>

text \<open>What the plugin relies on: a claim that was set can be read back and nothing else changed; a claim is found
  exactly when some pod has it; deleting a claim drops the pod that has it. The state after an operation does
  not depend on whether its checkpoint could be written.\<close>

locale claim_store =
  fixes st :: "('s, 'w) PreparedStore"
    and inv :: "'s \<Rightarrow> bool"
  assumes set_get: "inv s \<Longrightarrow>
      st_Get st (snd (fst (st_Set st s p c ds w))) = (st_Get st s)(p := (st_Get st s p)(c \<mapsto> ds))"
    and set_inv: "inv s \<Longrightarrow> inv (snd (fst (st_Set st s p c ds w)))"
    and delete_inv: "inv s \<Longrightarrow> inv (snd (fst (st_DeleteClaim st s cl w)))"
    and by_claim_None: "inv s \<Longrightarrow> st_GetByClaim st s cl = None \<Longrightarrow> st_Get st s p (no_UID cl) = None"
    and by_claim_Some: "inv s \<Longrightarrow> st_GetByClaim st s cl = Some ds \<Longrightarrow>
      \<exists>p. st_Get st s p (no_UID cl) = Some ds \<and>
        (\<forall>w. st_Get st (snd (fst (st_DeleteClaim st s cl w))) = (st_Get st s)(p := Map.empty))"
    and pod_devices: "inv s \<Longrightarrow> st_Get st s p c = Some ds \<Longrightarrow>
      \<exists>all. st_GetDevicesByPodUID st s p = Some all \<and> set ds \<subseteq> set all"
begin

lemma by_claim_unique:
  assumes "inv s" "st_Get st s p (no_UID cl) = Some ds" "\<And>q. q \<noteq> p \<Longrightarrow> st_Get st s q (no_UID cl) = None"
  shows "st_GetByClaim st s cl = Some ds"
    and "st_Get st (snd (fst (st_DeleteClaim st s cl w))) = (st_Get st s)(p := Map.empty)"
proof -
  obtain ds' where ds': "st_GetByClaim st s cl = Some ds'"
    using by_claim_None[OF assms(1), of cl p] assms(2) by (cases "st_GetByClaim st s cl") auto
  obtain q where q: "st_Get st s q (no_UID cl) = Some ds'"
    "st_Get st (snd (fst (st_DeleteClaim st s cl w))) = (st_Get st s)(q := Map.empty)"
    using by_claim_Some[OF assms(1) ds'] by blast
  then have "q = p" using assms(3)[of q] by auto
  then show "st_GetByClaim st s cl = Some ds"
    "st_Get st (snd (fst (st_DeleteClaim st s cl w))) = (st_Get st s)(p := Map.empty)" using q ds' assms(2) by simp_all
qed

end

section \<open>The pod manager meets the contract\<close>

definition pod_store :: "'w checkpoint_manager \<Rightarrow> (PodManager, 'w) PreparedStore" where
  "pod_store cm = \<lparr>st_Set = Set cm, st_Get = Get,
     st_GetDevicesByPodUID = (\<lambda>s p. map_option (deref_all (pm_heap s)) (GetDevicesByPodUID s p)),
     st_GetByClaim = GetByClaim, st_DeleteClaim = DeleteClaim cm\<rparr>"

lemma pod_of_claim_None:
  assumes "pm_inv s" "pod_of_claim s c = None" shows "Get s p c = None"
proof (cases "map_of (preparedClaimsByPodUID s) p")
  case (Some cs)
  then have "(p, cs) \<in> set (preparedClaimsByPodUID s)" by (rule map_of_SomeD)
  moreover have "find (\<lambda>(pod, claims). mhas claims c) (preparedClaimsByPodUID s) = None"
    using assms(2) by (auto simp: pod_of_claim_def split: option.splits)
  ultimately have "\<not> mhas cs c" by (auto simp: find_None_iff)
  then show ?thesis using Some by (simp add: Get_def Get_refs_def mhas_def)
qed (simp add: Get_def Get_refs_def)

lemma pod_of_claim_Some:
  assumes "pm_inv s" "pod_of_claim s c = Some (p, rs)" shows "Get s p c = Some (deref_all (pm_heap s) rs)"
proof -
  obtain cs where f: "find (\<lambda>(pod, claims). mhas claims c) (preparedClaimsByPodUID s) = Some (p, cs)" "rs = the (mget cs c)"
    using assms(2) by (auto simp: pod_of_claim_def split: option.splits)
  then have m: "(p, cs) \<in> set (preparedClaimsByPodUID s)" "mhas cs c" by (auto simp: find_Some_iff) (metis nth_mem)
  have "wf_map (preparedClaimsByPodUID s)" using assms(1) by (simp add: pm_inv_def pm_wf_def)
  then have "map_of (preparedClaimsByPodUID s) p = Some cs" using m(1) by (simp add: wf_map_def)
  then show ?thesis using m(2) f(2) by (auto simp: Get_def Get_refs_def mhas_def)
qed

lemma DeleteClaim_state:
  assumes "pm_inv s"
  shows "pm_inv (snd (fst (DeleteClaim cm s cl w)))"
    and "pod_of_claim s (no_UID cl) = Some (p, rs) \<Longrightarrow> Get (snd (fst (DeleteClaim cm s cl w))) = (Get s)(p := Map.empty)"
  using mdel_state[OF assms] assms by (auto simp: DeleteClaim_def case_prod_beta Let_def split: option.split)

interpretation pods: claim_store "pod_store cm" pm_inv for cm :: "'w checkpoint_manager"
proof unfold_locales
  fix s p c ds and w :: 'w assume inv: "pm_inv s"
  show "st_Get (pod_store cm) (snd (fst (st_Set (pod_store cm) s p c ds w))) =
      (st_Get (pod_store cm) s)(p := (st_Get (pod_store cm) s p)(c \<mapsto> ds))"
    "pm_inv (snd (fst (st_Set (pod_store cm) s p c ds w)))"
    using Set_state[OF inv, of cm p c ds w] by (simp_all add: pod_store_def)
next
  fix s cl and w :: 'w assume "pm_inv s"
  then show "pm_inv (snd (fst (st_DeleteClaim (pod_store cm) s cl w)))" by (simp add: pod_store_def DeleteClaim_state(1))
next
  fix s cl p assume "pm_inv s" "st_GetByClaim (pod_store cm) s cl = None"
  then show "st_Get (pod_store cm) s p (no_UID cl) = None" by (simp add: pod_store_def GetByClaim_def pod_of_claim_None)
next
  fix s cl ds assume inv: "pm_inv s" and g: "st_GetByClaim (pod_store cm) s cl = Some ds"
  obtain p rs where p: "pod_of_claim s (no_UID cl) = Some (p, rs)" "ds = deref_all (pm_heap s) rs"
    using g by (auto simp: pod_store_def GetByClaim_def)
  show "\<exists>p. st_Get (pod_store cm) s p (no_UID cl) = Some ds \<and>
      (\<forall>w. st_Get (pod_store cm) (snd (fst (st_DeleteClaim (pod_store cm) s cl w))) = (st_Get (pod_store cm) s)(p := Map.empty))"
    by (intro exI[of _ p]) (simp add: pod_store_def pod_of_claim_Some[OF inv p(1)] DeleteClaim_state(2)[OF inv p(1)] p(2))
next
  fix s p c ds assume inv: "pm_inv s" and g: "st_Get (pod_store cm) s p c = Some ds"
  obtain cs rs where cs: "map_of (preparedClaimsByPodUID s) p = Some cs" "map_of cs c = Some rs" "ds = deref_all (pm_heap s) rs"
    using g by (auto simp: pod_store_def Get_def Get_refs_def split: option.splits)
  have "set rs \<subseteq> set (concat (map snd cs))" using map_of_SomeD[OF cs(2)] by force
  then show "\<exists>all. st_GetDevicesByPodUID (pod_store cm) s p = Some all \<and> set ds \<subseteq> set all"
    using cs by (auto simp: pod_store_def GetDevicesByPodUID_def deref_all_def)
qed

section \<open>Lemmas\<close>

lemma kubelet_devices_eq:
  "kubelet_devices acc (map Some ds) = Ok (acc @ map (\<lambda>p. ToKubeletPluginDevice p None) ds)"
  by (induction ds arbitrary: acc) simp_all

text \<open>The two ways a prepare of one claim succeeds.\<close>

lemma prepareResourceClaim_Ok:
  assumes "prepareResourceClaim d m idx claim s w = ((Ok r, idx', s'), w')" "pr_Err r = None"
  obtains (again) pod ds where "claim_ReservedFor claim = [pod]" "claim_Allocation claim \<noteq> None"
      "st_Get (d_store d) s pod (claim_UID claim) = Some ds" "kubelet_devices [] ds = Ok (pr_Devices r)" "idx' = idx" "s' = s" "w' = w"
  | (fresh) pod ds claim' w1 w2 where "claim_ReservedFor claim = [pod]" "claim_Allocation claim \<noteq> None"
      "st_Get (d_store d) s pod (claim_UID claim) = None"
      "PrepareDevicesForClaim (d_env d) m idx claim w = ((Ok ds, idx', claim'), w1)"
      "st_Set (d_store d) s pod (claim_UID claim) (map Some ds) w1 = ((Ok (), s'), w2)"
      "w' = snd (UpdateClaimStatusWithRetry (d_errors d) (d_backoff d) (d_ctxErr d) (d_claims d (claim_Namespace claim)) claim' DriverName w2)"
      "pr_Devices r = map (\<lambda>p. ToKubeletPluginDevice p None) ds"
proof -
  obtain pod where pod: "claim_ReservedFor claim = [pod]"
    using assms by (auto simp: prepareResourceClaim_def prepare_error_def split: list.splits)
  have al: "claim_Allocation claim \<noteq> None"
  proof
    assume "claim_Allocation claim = None"
    then show False using assms pod by (auto simp: prepareResourceClaim_def prepare_error_def)
  qed
  show ?thesis
  proof (cases "st_Get (d_store d) s pod (claim_UID claim)")
    case (Some ds)
    then have "kubelet_devices [] ds = Ok (pr_Devices r) \<and> idx' = idx \<and> s' = s \<and> w' = w"
      using assms pod al by (cases "kubelet_devices [] ds") (auto simp: prepareResourceClaim_def)
    then show ?thesis using again[OF pod al Some] by blast
  next
    case None
    obtain a i c w1 where p: "PrepareDevicesForClaim (d_env d) m idx claim w = ((a, i, c), w1)" by (metis prod.exhaust)
    obtain ds where a: "a = Ok ds"
      using assms pod al None p by (cases a) (auto simp: prepareResourceClaim_def prepare_error_def)
    obtain b s1 w2 where b: "st_Set (d_store d) s pod (claim_UID claim) (map Some ds) w1 = ((b, s1), w2)" by (metis prod.exhaust)
    have "b = Ok ()"
      using assms pod al None p a b
      by (cases b) (auto simp: prepareResourceClaim_def prepare_error_def Let_def split: prod.splits res.splits)
    then have "i = idx' \<and> s1 = s' \<and> pr_Devices r = map (\<lambda>p. ToKubeletPluginDevice p None) ds \<and>
        w' = snd (UpdateClaimStatusWithRetry (d_errors d) (d_backoff d) (d_ctxErr d) (d_claims d (claim_Namespace claim)) c DriverName w2)"
      using assms pod al None p a b by (auto simp: prepareResourceClaim_def Let_def case_prod_beta)
    then show ?thesis using fresh[OF pod al None] p a b \<open>b = Ok ()\<close> by simp
  qed
qed

text \<open>Nothing the plugin calls besides the device manager rebinds devices: not the store, not the API server.\<close>

definition plugin_documented :: "('s, 'w) Driver \<Rightarrow> ('w \<Rightarrow> string \<rightharpoonup> string) \<Rightarrow> bool" where
  "plugin_documented d drv \<longleftrightarrow> env_documented (d_env d) drv \<and>
     (\<forall>s p c ds w. drv (snd (st_Set (d_store d) s p c ds w)) = drv w) \<and>
     (\<forall>s c w. drv (snd (st_DeleteClaim (d_store d) s c w)) = drv w) \<and>
     (\<forall>ns c w. drv (snd (UpdateClaimStatusWithRetry (d_errors d) (d_backoff d) (d_ctxErr d) (d_claims d ns) c DriverName w)) = drv w)"

text \<open>The device manager's own round trip, in the form the plugin uses it.\<close>

lemma unprepare_after_prepare:
  assumes "env_documented env drv" "valid_configs rc" "claim_Allocation claim = Some al"
    and "getMapOfOpaqueDeviceConfigForDevice (env_decode env) (al_Config al) = Ok rc"
    and "bound_results drv s (al_Results al) w"
    and "PrepareDevicesForClaim env s idx claim w = ((Ok ds, idx', claim'), w1)" "drv w2 = drv w1"
    and "Unprepare env s' u (map Some ds) w2 = (Ok (), w3)"
  shows "drv w3 = drv w"
proof -
  have tr: "tracked drv w ds w1" using claim_prepared_drv[OF assms(1-6)] by (simp add: driver_inv_def)
  have sys: "sysfs_documented (env_os env) drv" using assms(1) by (simp add: env_documented_def)
  obtain wa wb where "drv wa = drv w2" "unprepareDevices (env_os env) (map Some ds) wa = (Ok (), wb)" "drv w3 = drv wb"
    using Unprepare_Ok[OF assms(1,8)] .
  then show ?thesis using unprepare_restores[OF sys tracked_cong[OF tr]] assms(7) by metis
qed

section \<open>Lemmas: interface names across the claims of a call\<close>

definition generated_names :: "Manager \<Rightarrow> PreparedDevice list \<Rightarrow> string list" where
  "generated_names m ds = map pd_IfName (filter (\<lambda>p. generated_name m (the (pd_Config p))) ds)"

abbreviation nth_name :: "Manager \<Rightarrow> nat \<Rightarrow> string" where
  "nth_name m i \<equiv> defaultInterfacePrefix m @ Itoa i"

lemma nth_name_inj: "nth_name m i = nth_name m j \<longleftrightarrow> i = j"
  by (simp add: Itoa_inj)

lemma claim_names:
  assumes "PrepareDevicesForClaim env m idx claim w = ((Ok ds, idx', claim'), w')"
  shows "idx \<le> idx'" "generated_names m ds = map (nth_name m) [idx..<idx']"
proof -
  obtain al :: AllocationResult and rc w1 where p: "prepare_results env m rc idx claim [] (al_Results al) w = ((Ok ds, idx', claim'), w1)"
    by (rule prepare_claim_Ok[OF assms]) (rule that, assumption)
  from results_names[OF p] show "idx \<le> idx'" "generated_names m ds = map (nth_name m) [idx..<idx']"
    by (simp_all add: generated_names_def)
qed

lemma results_index_mono:
  "prepare_results env m rc idx claim ds rs w = ((r, idx', claim'), w') \<Longrightarrow> idx \<le> idx'"
proof (induction rs arbitrary: idx claim ds w)
  case Nil
  then show ?case by simp
next
  case (Cons x rs)
  show ?case
  proof (cases "r_Driver x = DriverName")
    case False
    then show ?thesis using Cons by simp
  next
    case True
    obtain a w1 where a: "applyConfigOnDevice env m idx claim (config_of rc x) x w = (a, w1)" by (metis prod.exhaust)
    show ?thesis
    proof (cases a)
      case (Ok y)
      obtain p i where y: "y = (p, i)" by (metis prod.exhaust)
      have "prepare_results env m rc i (with_status env rc x claim) (ds @ [p]) rs w1 = ((r, idx', claim'), w')"
        using Cons.prems True a Ok y by (simp add: config_of_def with_status_def Let_def)
      then have "i \<le> idx'" by (rule Cons.IH)
      moreover have "idx \<le> i" using apply_prepared(2)[OF a[unfolded Ok y]] by auto
      ultimately show ?thesis by simp
    next
      case (Err e)
      then show ?thesis using Cons.prems True a by (auto simp: config_of_def Let_def split: prod.splits res.splits)
    next
      case (Panic e)
      then show ?thesis using Cons.prems True a by (simp add: config_of_def Let_def)
    qed
  qed
qed

lemma claim_index_mono:
  assumes "PrepareDevicesForClaim env m idx claim w = ((r, idx', claim'), w')" shows "idx \<le> idx'"
proof -
  have "idx \<le> fst (snd (fst (prepare_results env m rc idx claim [] rs w)))" for rc rs
    using results_index_mono by (metis prod.exhaust_sel)
  then have p: "idx \<le> fst (snd (fst (prepareDevices env m idx claim rc w)))" for rc
    by (simp add: prepareDevices_def split: option.split)
  show ?thesis
  proof (cases "claim_Allocation claim")
    case (Some al)
    show ?thesis
    proof (cases "getMapOfOpaqueDeviceConfigForDevice (env_decode env) (al_Config al)")
      case (Ok rc)
      obtain a i c w1 where q: "prepareDevices env m idx claim rc w = ((a, i, c), w1)" by (metis prod.exhaust)
      have "i = idx'"
        using assms Some Ok q
        by (cases a) (auto simp: PrepareDevicesForClaim_def case_prod_beta split: if_splits prod.splits res.splits)
      then show ?thesis using p[of rc] q by simp
    qed (use assms Some in \<open>simp_all add: PrepareDevicesForClaim_def\<close>)
  qed (use assms in \<open>simp add: PrepareDevicesForClaim_def\<close>)
qed

definition names_disjoint :: "('s, 'w) PreparedStore \<Rightarrow> Manager \<Rightarrow> 's \<Rightarrow> UID \<Rightarrow> UID \<Rightarrow> bool" where
  "names_disjoint st m s c c' \<longleftrightarrow> (\<forall>p p' ds ds'. st_Get st s p c = Some (map Some ds) \<longrightarrow> st_Get st s p' c' = Some (map Some ds') \<longrightarrow>
     set (generated_names m ds) \<inter> set (generated_names m ds') = {})"

lemma names_disjoint_sym: "names_disjoint st m s c c' \<Longrightarrow> names_disjoint st m s c' c"
  unfolding names_disjoint_def by (subst Int_commute) simp

context claim_store
begin

text \<open>The claim of a successful prepare is in the store, for the pod of the claim.\<close>

lemma prepared_stored:
  assumes "inv s" "d_store d = st" "prepareResourceClaim d m idx claim s w = ((Ok r, idx', s'), w')" "pr_Err r = None"
  shows "inv s' \<and> (\<exists>pod ds. claim_ReservedFor claim = [pod] \<and> claim_Allocation claim \<noteq> None \<and>
     st_Get st s' pod (claim_UID claim) = Some ds \<and> kubelet_devices [] ds = Ok (pr_Devices r))"
  using assms(3,4)
proof (cases rule: prepareResourceClaim_Ok)
  case (again pod ds)
  then show ?thesis using assms(1,2) by auto
next
  case (fresh pod ds claim' w1 w2)
  note s = set_inv[OF assms(1), of pod "claim_UID claim" "map Some ds" w1] set_get[OF assms(1), of pod "claim_UID claim" "map Some ds" w1]
  have "s' = snd (fst (st_Set st s pod (claim_UID claim) (map Some ds) w1))" using fresh(5) assms(2) by simp
  then show ?thesis using s fresh(1,2,7) kubelet_devices_eq[of "[]" ds] by auto
qed

lemma prepare_again:
  assumes "inv s" "d_store d = st" "prepareResourceClaim d m idx claim s w = ((Ok r, idx', s'), w')" "pr_Err r = None"
  shows "prepareResourceClaim d m2 idx2 claim s' w2 = ((Ok r, idx2, s'), w2)"
proof -
  obtain pod ds where p: "claim_ReservedFor claim = [pod]" "claim_Allocation claim \<noteq> None"
    "st_Get st s' pod (claim_UID claim) = Some ds" "kubelet_devices [] ds = Ok (pr_Devices r)"
    using prepared_stored[OF assms] by blast
  have "\<lparr>pr_Devices = pr_Devices r, pr_Err = None\<rparr> = r" using assms(4) by (cases r) simp
  then show ?thesis using p assms(2) by (auto simp: prepareResourceClaim_def)
qed

lemma failed_set_reports_prepared:
  assumes "inv s" "d_store d = st" "claim_ReservedFor claim = [pod]" "claim_Allocation claim \<noteq> None"
    and "st_Get st s pod (claim_UID claim) = None" "PrepareDevicesForClaim (d_env d) m idx claim w = ((Ok ds, idx', claim'), w1)"
    and "st_Set st s pod (claim_UID claim) (map Some ds) w1 = ((Err e, s1), w2)"
    and "Unprepare (d_env d) m (claim_UID claim) (map Some ds) w2 = (Ok (), w3)"
  shows "prepareResourceClaim d m idx claim s w =
      ((Ok (prepare_error (Errorf ''error setting prepared devices for pod %s into pod manager: %w'' [e])), idx', s1), w3)"
    and "prepareResourceClaim d m2 idx2 claim s1 w4 =
      ((Ok \<lparr>pr_Devices = map (\<lambda>p. ToKubeletPluginDevice p None) ds, pr_Err = None\<rparr>, idx2, s1), w4)"
proof -
  show "prepareResourceClaim d m idx claim s w =
      ((Ok (prepare_error (Errorf ''error setting prepared devices for pod %s into pod manager: %w'' [e])), idx', s1), w3)"
    using assms(2-8) by (auto simp: prepareResourceClaim_def)
  have "s1 = snd (fst (st_Set st s pod (claim_UID claim) (map Some ds) w1))" using assms(7) by simp
  then have "st_Get st s1 pod (claim_UID claim) = Some (map Some ds)"
    using set_get[OF assms(1), of pod "claim_UID claim" "map Some ds" w1] by simp
  then show "prepareResourceClaim d m2 idx2 claim s1 w4 =
      ((Ok \<lparr>pr_Devices = map (\<lambda>p. ToKubeletPluginDevice p None) ds, pr_Err = None\<rparr>, idx2, s1), w4)"
    using assms(2-4) by (auto simp: prepareResourceClaim_def kubelet_devices_eq)
qed

lemma claim_lifecycle:
  assumes inv: "inv s" and st: "d_store d = st" and doc: "plugin_documented d drv" and valid: "valid_configs rc"
    and al: "claim_Allocation claim = Some al" "getMapOfOpaqueDeviceConfigForDevice (env_decode (d_env d)) (al_Config al) = Ok rc"
    and bound: "bound_results drv m (al_Results al) w" and new: "\<And>p. st_Get st s p (claim_UID claim) = None"
    and prep: "prepareResourceClaim d m idx claim s w = ((Ok r, idx', s1), w1)" "pr_Err r = None"
    and same: "drv w2 = drv w1" and obj: "no_UID obj = claim_UID claim"
    and unprep: "unprepareResourceClaim d m' obj s1 w2 = ((Ok (), s2), w3)"
  shows "drv w3 = drv w \<and> (\<forall>p. st_Get st s2 p (claim_UID claim) = None) \<and> inv s2"
  using prep
proof (cases rule: prepareResourceClaim_Ok)
  case (again pod ds)
  then show ?thesis using new st by simp
next
  case (fresh pod ds claim' wa wb)
  have env: "env_documented (d_env d) drv" using doc by (simp add: plugin_documented_def)
  have s1: "s1 = snd (fst (st_Set st s pod (claim_UID claim) (map Some ds) wa))" using fresh(5) st by simp
  have inv1: "inv s1" unfolding s1 by (rule set_inv[OF inv])
  have g: "st_Get st s1 = (st_Get st s)(pod := (st_Get st s pod)(claim_UID claim \<mapsto> map Some ds))"
    unfolding s1 by (rule set_get[OF inv])
  have wb: "drv wb = drv wa" using doc fresh(5) unfolding plugin_documented_def by (metis snd_conv)
  have w1: "drv w1 = drv wb" using doc fresh(6) by (simp add: plugin_documented_def)
  have found: "st_GetByClaim st s1 obj = Some (map Some ds)"
    and gone: "st_Get st (snd (fst (st_DeleteClaim st s1 obj x))) = (st_Get st s1)(pod := Map.empty)" for x
    using by_claim_unique[OF inv1, of pod obj "map Some ds"] g new obj by auto
  obtain u wc where u: "Unprepare (d_env d) m' (claim_UID claim) (map Some ds) w2 = (u, wc)" by (metis prod.exhaust)
  have u': "u = Ok ()" using unprep found st u obj by (cases u) (auto simp: unprepareResourceClaim_def)
  have del: "s2 = snd (fst (st_DeleteClaim st s1 obj wc))" "w3 = snd (st_DeleteClaim st s1 obj wc)"
    using unprep found st u u' obj by (auto simp: unprepareResourceClaim_def case_prod_beta)
  have "drv wc = drv w"
  proof (rule unprepare_after_prepare[OF env valid al bound fresh(4) _ u[unfolded u']])
    show "drv w2 = drv wa" using same w1 wb by simp
  qed
  moreover have "drv w3 = drv wc" using doc st del(2) by (simp add: plugin_documented_def)
  moreover have "inv s2" unfolding del(1) by (rule delete_inv[OF inv1])
  moreover have "st_Get st s2 p (claim_UID claim) = None" for p unfolding del(1) gone g by (simp add: new)
  ultimately show ?thesis by simp
qed

text \<open>One round of the loop over the claims, whatever its outcome: other claims are untouched, and what is now
  stored for a claim that was new has the names of the indices the round used.\<close>

lemma prepare_round:
  assumes inv: "inv s" and st: "d_store d = st" and new: "\<And>p. st_Get st s p (claim_UID claim) = None"
    and run: "prepareResourceClaim d m idx claim s w = ((r, idx', s'), w')"
  shows "inv s' \<and> idx \<le> idx' \<and> (\<forall>p c. c \<noteq> claim_UID claim \<longrightarrow> st_Get st s' p c = st_Get st s p c) \<and>
    (\<forall>p ds. st_Get st s' p (claim_UID claim) = Some (map Some ds) \<longrightarrow> set (generated_names m ds) = nth_name m ` {idx..<idx'})"
proof -
  have idle: ?thesis if "s' = s" "idx \<le> idx'" using that inv new by simp
  show ?thesis
  proof (cases "claim_ReservedFor claim")
    case Nil
    then show ?thesis using run by (intro idle) (simp_all add: prepareResourceClaim_def)
  next
    case (Cons pod rest)
    show ?thesis
    proof (cases "rest = [] \<and> claim_Allocation claim \<noteq> None")
      case False
      then show ?thesis using run Cons by (intro idle) (auto simp: prepareResourceClaim_def split: list.splits)
    next
      case True
      obtain a i c w1 where p: "PrepareDevicesForClaim (d_env d) m idx claim w = ((a, i, c), w1)" by (metis prod.exhaust)
      have none: "st_Get (d_store d) s pod (claim_UID claim) = None" using st new by simp
      have i: "idx \<le> i" by (rule claim_index_mono[OF p])
      show ?thesis
      proof (cases a)
        case (Ok ds)
        obtain b s1 w2 where b: "st_Set (d_store d) s pod (claim_UID claim) (map Some ds) w1 = ((b, s1), w2)" by (metis prod.exhaust)
        have s': "s' = s1 \<and> idx' = i"
          using run Cons True none p Ok b
          by (cases b) (auto simp: prepareResourceClaim_def Let_def case_prod_beta split: prod.splits res.splits)
        then have "s' = snd (fst (st_Set st s pod (claim_UID claim) (map Some ds) w1))" using b st by simp
        then show ?thesis
          using set_inv[OF inv, of pod "claim_UID claim" "map Some ds" w1] set_get[OF inv, of pod "claim_UID claim" "map Some ds" w1]
            claim_names[OF p[unfolded Ok]] s' new by (auto simp: inj_map_eq_map)
      qed (use run Cons True none p i in \<open>intro idle; auto simp: prepareResourceClaim_def\<close>)+
    qed
  qed
qed

lemma names_of_ranges:
  assumes "\<And>p ds. st_Get st s p a = Some (map Some ds) \<Longrightarrow> set (generated_names m ds) \<subseteq> nth_name m ` {i..<j}"
    and "\<And>p ds. st_Get st s p b = Some (map Some ds) \<Longrightarrow> set (generated_names m ds) \<subseteq> nth_name m ` {j..<k}"
  shows "names_disjoint st m s a b"
proof -
  have "nth_name m ` {i..<j} \<inter> nth_name m ` {j..<k} = {}" by (auto simp: Itoa_inj)
  then show ?thesis unfolding names_disjoint_def using assms by (intro allI impI) (meson disjoint_iff subsetD)
qed

lemma prepare_claims_names:
  assumes "inv s" "d_store d = st" "distinct (map claim_UID claims)"
    and "\<And>c p. c \<in> set claims \<Longrightarrow> st_Get st s p (claim_UID c) = None"
    and "prepare_claims d m idx res (map Some claims) s w = ((Ok res', idx', s'), w')"
  shows "inv s' \<and> idx \<le> idx' \<and> (\<forall>p c. c \<notin> claim_UID ` set claims \<longrightarrow> st_Get st s' p c = st_Get st s p c) \<and>
    (\<forall>c \<in> set claims. \<forall>p ds. st_Get st s' p (claim_UID c) = Some (map Some ds) \<longrightarrow>
       set (generated_names m ds) \<subseteq> nth_name m ` {idx..<idx'}) \<and>
    (\<forall>c \<in> set claims. \<forall>c' \<in> set claims. claim_UID c \<noteq> claim_UID c' \<longrightarrow> names_disjoint st m s' (claim_UID c) (claim_UID c'))"
  using assms(1,3-5)
proof (induction claims arbitrary: s idx res w)
  case Nil
  then show ?case by simp
next
  case (Cons c cs)
  obtain a i s1 w1 where r: "prepareResourceClaim d m idx c s w = ((a, i, s1), w1)" by (metis prod.exhaust)
  obtain x where a: "a = Ok x" using Cons.prems(4) r by (cases a) simp_all
  have rest: "prepare_claims d m i (mput res (claim_UID c) x) (map Some cs) s1 w1 = ((Ok res', idx', s'), w')"
    using Cons.prems(4) r a by simp
  have rd: "inv s1" "idx \<le> i" "\<And>p u. u \<noteq> claim_UID c \<Longrightarrow> st_Get st s1 p u = st_Get st s p u"
    "\<And>p ds. st_Get st s1 p (claim_UID c) = Some (map Some ds) \<Longrightarrow> set (generated_names m ds) = nth_name m ` {idx..<i}"
    using prepare_round[OF Cons.prems(1) assms(2) _ r] Cons.prems(3) by auto
  have new1: "st_Get st s1 p (claim_UID b) = None" if "b \<in> set cs" for b p
  proof -
    have "claim_UID b \<noteq> claim_UID c" using that Cons.prems(2) by (auto simp: image_iff)
    then show ?thesis using that Cons.prems(3) rd(3) by simp
  qed
  have ih: "inv s'" "i \<le> idx'" "\<And>p u. u \<notin> claim_UID ` set cs \<Longrightarrow> st_Get st s' p u = st_Get st s1 p u"
    "\<And>b p ds. b \<in> set cs \<Longrightarrow> st_Get st s' p (claim_UID b) = Some (map Some ds) \<Longrightarrow> set (generated_names m ds) \<subseteq> nth_name m ` {i..<idx'}"
    "\<And>b b'. b \<in> set cs \<Longrightarrow> b' \<in> set cs \<Longrightarrow> claim_UID b \<noteq> claim_UID b' \<Longrightarrow> names_disjoint st m s' (claim_UID b) (claim_UID b')"
    using Cons.IH[OF rd(1) _ new1 rest] Cons.prems(2) by auto
  have head: "st_Get st s' p (claim_UID c) = st_Get st s1 p (claim_UID c)" for p
    using ih(3) Cons.prems(2) by simp
  have dj: "names_disjoint st m s' (claim_UID c) (claim_UID b)" if b: "b \<in> set cs" for b
    by (rule names_of_ranges[of _ _ _ idx i _ idx']) (use rd(4) head ih(4)[OF b] in auto)
  show ?case
  proof (intro conjI ballI allI impI)
    show "inv s'" "idx \<le> idx'" using ih(1,2) rd(2) by simp_all
    show "st_Get st s' p u = st_Get st s p u" if "u \<notin> claim_UID ` set (c # cs)" for p u using that ih(3) rd(3) by simp
    show "set (generated_names m ds) \<subseteq> nth_name m ` {idx..<idx'}"
      if "b \<in> set (c # cs)" "st_Get st s' p (claim_UID b) = Some (map Some ds)" for b p ds
      using that head rd(2) rd(4)[of p ds] ih(2) ih(4)[of b p ds] by (cases "b = c") fastforce+
    show "names_disjoint st m s' (claim_UID b) (claim_UID b')"
      if "b \<in> set (c # cs)" "b' \<in> set (c # cs)" "claim_UID b \<noteq> claim_UID b'" for b b'
      using that dj ih(5) by (auto intro: names_disjoint_sym)
  qed
qed

lemma retry_names:
  assumes "inv s" "d_store d = st" "claim_ReservedFor a = [p]" "claim_Allocation a \<noteq> None" "st_Get st s p (claim_UID a) = Some (map Some dsa)"
    and "claim_ReservedFor b = [q]" "st_Get st s q (claim_UID b) = None" "claim_UID a \<noteq> claim_UID b"
    and "prepare_claims d m 0 [] [Some a, Some b] s w = ((Ok res, n, s'), w')" "map_option pr_Err (mget res (claim_UID b)) = Some None"
  shows "\<exists>dsb. st_Get st s' q (claim_UID b) = Some (map Some dsb) \<and> generated_names m dsb = map (nth_name m) [0..<n]"
proof -
  have "prepareResourceClaim d m 0 a s w =
      ((Ok \<lparr>pr_Devices = map (\<lambda>p. ToKubeletPluginDevice p None) dsa, pr_Err = None\<rparr>, 0, s), w)"
    using assms(2-5) by (auto simp: prepareResourceClaim_def kubelet_devices_eq)
  then obtain r where r: "prepareResourceClaim d m 0 b s w = ((Ok r, n, s'), w')" "pr_Err r = None"
    using assms(8-10) by (auto split: prod.splits res.splits)
  from r show ?thesis
  proof (cases rule: prepareResourceClaim_Ok)
    case (again q' ds)
    then show ?thesis using assms(2,6,7) by simp
  next
    case (fresh q' ds b' w1 w2)
    have q': "q' = q" using fresh(1) assms(6) by simp
    have "s' = snd (fst (st_Set st s q (claim_UID b) (map Some ds) w1))" using fresh(5) assms(2) q' by simp
    then show ?thesis
      using set_get[OF assms(1), of q "claim_UID b" "map Some ds" w1] claim_names(2)[OF fresh(4)] by auto
  qed
qed

end

section \<open>Properties\<close>

text \<open>C17. Preparing a claim is idempotent: once it succeeded, the kubelet can call again at any time, after any
  change of the device policies, and gets the same devices, while neither the store nor the node changes.\<close>

theorem prepareResourceClaim_idempotent:
  assumes "pm_inv s" "d_store d = pod_store cm"
    and "prepareResourceClaim d m idx claim s w = ((Ok r, idx', s'), w')" "pr_Err r = None"
  shows "prepareResourceClaim d m2 idx2 claim s' w2 = ((Ok r, idx2, s'), w2)"
  by (rule pods.prepare_again[OF assms])

text \<open>C13. The life of a claim on the node. Let the devices of a claim that is not in the store yet be different from each other and all have a driver
  (\<open>bound_results\<close>; a device without one would get the kernel's default driver in the end), and let its configurations name a driver or none (\<open>valid_configs\<close>).
  When the claim is prepared with success and unprepared later without error, and nothing else rebound devices in between,
  every device is on the driver it had before, the claim is no longer in the store, and the store's invariant holds.\<close>

theorem claim_prepare_unprepare:
  assumes "pm_inv s" "d_store d = pod_store cm" "plugin_documented d drv" "valid_configs rc"
    and "claim_Allocation claim = Some al" "getMapOfOpaqueDeviceConfigForDevice (env_decode (d_env d)) (al_Config al) = Ok rc"
    and "bound_results drv m (al_Results al) w" "\<And>p. Get s p (claim_UID claim) = None"
    and "prepareResourceClaim d m idx claim s w = ((Ok r, idx', s1), w1)" "pr_Err r = None"
    and "drv w2 = drv w1" "no_UID obj = claim_UID claim"
    and "unprepareResourceClaim d m' obj s1 w2 = ((Ok (), s2), w3)"
  shows "drv w3 = drv w \<and> (\<forall>p. Get s2 p (claim_UID claim) = None) \<and> pm_inv s2"
  using pods.claim_lifecycle[OF assms(1-7) _ assms(9-13)] assms(8) by (simp add: pod_store_def)

text \<open>C22. The claims of one call share the interface index, so devices of different new claims of a call never
  get the same generated interface name, whichever of the claims fail.\<close>

theorem prepare_claims_distinct_names:
  assumes "pm_inv s" "d_store d = pod_store cm" "distinct (map claim_UID claims)"
    and "\<And>c p. c \<in> set claims \<Longrightarrow> Get s p (claim_UID c) = None"
    and "prepare_claims d m 0 [] (map Some claims) s w = ((Ok res, n, s'), w')"
    and "c \<in> set claims" "c' \<in> set claims" "claim_UID c \<noteq> claim_UID c'"
    and "Get s' p (claim_UID c) = Some (map Some ds)" "Get s' p' (claim_UID c') = Some (map Some ds')"
  shows "set (generated_names m ds) \<inter> set (generated_names m ds') = {}"
  using pods.prepare_claims_names[OF assms(1-3) _ assms(5)] assms(4,6-10) by (simp add: names_disjoint_def pod_store_def)

text \<open>A retry of a call that prepared only some of the claims hands out interface names a second time: the
  claims that were prepared before do not advance the index, so the new claim's names start at index 0
  again, although the pod already has devices with these names.\<close>

theorem retry_reuses_names:
  assumes "pm_inv s" "d_store d = pod_store cm" "claim_ReservedFor a = [p]" "claim_Allocation a \<noteq> None"
    and "Get s p (claim_UID a) = Some (map Some dsa)" "claim_ReservedFor b = [q]" "Get s q (claim_UID b) = None" "claim_UID a \<noteq> claim_UID b"
    and "prepare_claims d m 0 [] [Some a, Some b] s w = ((Ok res, n, s'), w')" "map_option pr_Err (mget res (claim_UID b)) = Some None"
  shows "\<exists>dsb. Get s' q (claim_UID b) = Some (map Some dsb) \<and> generated_names m dsb = map (nth_name m) [0..<n]"
  using pods.retry_names[OF assms(1-4) _ assms(6) _ assms(8-10)] assms(5,7) by (simp add: pod_store_def)

text \<open>C37. After a failed checkpoint the plugin reports a claim as prepared that it has unprepared: the failing call
  keeps the in-memory entry while it restores the devices, so the kubelet's retry returns the devices with
  success and binds nothing.\<close>

theorem failed_checkpoint_reports_prepared:
  assumes "pm_inv s" "d_store d = pod_store cm" "claim_ReservedFor claim = [pod]" "claim_Allocation claim \<noteq> None"
    and "Get s pod (claim_UID claim) = None" "PrepareDevicesForClaim (d_env d) m idx claim w = ((Ok ds, idx', claim'), w1)"
    and "Set cm s pod (claim_UID claim) (map Some ds) w1 = ((Err e, s1), w2)"
    and "Unprepare (d_env d) m (claim_UID claim) (map Some ds) w2 = (Ok (), w3)"
  shows "(\<exists>r. prepareResourceClaim d m idx claim s w = ((Ok r, idx', s1), w3) \<and> pr_Err r \<noteq> None) \<and>
    (\<forall>m2 idx2 w4. prepareResourceClaim d m2 idx2 claim s1 w4 =
      ((Ok \<lparr>pr_Devices = map (\<lambda>p. ToKubeletPluginDevice p None) ds, pr_Err = None\<rparr>, idx2, s1), w4))"
  using pods.failed_set_reports_prepared[OF assms(1-4) _ assms(6) _ assms(8)] assms(5,7)
  by (simp add: pod_store_def prepare_error_def)

section \<open>Witnesses\<close>

text \<open>The plugin on the node of \<open>ClaimLifecycle\<close>, with a checkpoint directory that works or not.\<close>

definition node_cm :: "bool \<Rightarrow> kernel checkpoint_manager" where
  "node_cm ok = \<lparr>cm_ListCheckpoints = (\<lambda>k. Ok []), cm_GetCheckpoint = (\<lambda>n k. Err (External ''not found'')),
     cm_CreateCheckpoint = (\<lambda>n cp k. (if ok then Ok () else Err (External ''disk full''), k))\<rparr>"

definition node_driver :: "bool \<Rightarrow> (PodManager, kernel) Driver" where
  "node_driver ok = \<lparr>d_env = example_env, d_store = pod_store (node_cm ok),
     d_claims = (\<lambda>ns. \<lparr>UpdateStatus = (\<lambda>c k. (Inr c, k)), GetClaim = (\<lambda>n k. (Inl (External ''NotFound''), k))\<rparr>),
     d_errors = server_errors, d_backoff = run_steps BackoffSteps, d_ctxErr = (\<lambda>k. None)\<rparr>"

lemma node_store [simp]: "d_store (node_driver ok) = pod_store (node_cm ok)"
  by (simp add: node_driver_def)

text \<open>A claim for one function, without a driver.\<close>

definition one_claim :: "string \<Rightarrow> string \<Rightarrow> ResourceClaim" where
  "one_claim u d = example_claim\<lparr>claim_UID := u, claim_Devices := [],
     claim_Allocation := Some \<lparr>al_Results = [node_result d], al_Config = []\<rparr>\<rparr>"

lemma node_driver_eval:
  "case prepareResourceClaim (node_driver True) node_manager 0 (node_claim ''igbvf'') empty_manager node_kernel of
     ((Ok r, i, s), k) \<Rightarrow> pr_Err r = None \<and>
       is_ok (fst (fst (unprepareResourceClaim (node_driver True) node_manager (example_object ''u1'') s k))) | _ \<Rightarrow> False"
  by code_simp

lemma node_prepare:
  obtains r i s k s' k' where "prepareResourceClaim (node_driver True) node_manager 0 (node_claim ''igbvf'') empty_manager node_kernel = ((Ok r, i, s), k)"
    "pr_Err r = None" "unprepareResourceClaim (node_driver True) node_manager (example_object ''u1'') s k = ((Ok (), s'), k')"
proof -
  obtain r i s k where r: "prepareResourceClaim (node_driver True) node_manager 0 (node_claim ''igbvf'') empty_manager node_kernel = ((Ok r, i, s), k)"
    "pr_Err r = None" and u: "is_ok (fst (fst (unprepareResourceClaim (node_driver True) node_manager (example_object ''u1'') s k)))"
    using node_driver_eval by (auto split: prod.splits res.splits)
  obtain s' k' where "unprepareResourceClaim (node_driver True) node_manager (example_object ''u1'') s k = ((Ok (), s'), k')"
    using u by (cases "unprepareResourceClaim (node_driver True) node_manager (example_object ''u1'') s k")
      (auto simp: is_ok_def split: res.splits)
  then show ?thesis by (rule that[OF r])
qed

theorem prepareResourceClaim_idempotent_witness:
  "\<exists>r i s k. prepareResourceClaim (node_driver True) node_manager 0 (node_claim ''igbvf'') empty_manager node_kernel = ((Ok r, i, s), k) \<and>
     prepareResourceClaim (node_driver True) node_manager 5 (node_claim ''igbvf'') s node_kernel = ((Ok r, 5, s), node_kernel)"
proof -
  obtain r i s k s' k' where r: "prepareResourceClaim (node_driver True) node_manager 0 (node_claim ''igbvf'') empty_manager node_kernel = ((Ok r, i, s), k)"
    "pr_Err r = None" by (rule node_prepare)
  from prepareResourceClaim_idempotent[OF empty_manager_inv node_store r, of node_manager 5 node_kernel] r(1) show ?thesis by blast
qed

lemma run_steps_accepted: "snd (UpdateClaimStatusWithRetry ae (run_steps BackoffSteps) ctx
    \<lparr>UpdateStatus = (\<lambda>c k. (Inr c, k)), GetClaim = g\<rparr> c n k) = k"
  by (simp add: UpdateClaimStatusWithRetry_def BackoffSteps_def eval_nat_numeral retry_condition_def Let_def)

lemma node_plugin_documented: "plugin_documented (node_driver ok) node_drv"
proof -
  have "node_drv (snd (syncToCheckpoint (node_cm ok) s k)) = node_drv k" for s k
    by (simp add: syncToCheckpoint_def node_cm_def)
  then show ?thesis
    using example_env_documented
    by (simp add: plugin_documented_def node_driver_def pod_store_def Set_def DeleteClaim_def case_prod_beta Let_def run_steps_accepted
        split: option.split)
qed

theorem claim_prepare_unprepare_witness:
  "\<exists>r i s k s' k'. prepareResourceClaim (node_driver True) node_manager 0 (node_claim ''igbvf'') empty_manager node_kernel = ((Ok r, i, s), k) \<and>
     unprepareResourceClaim (node_driver True) node_manager (example_object ''u1'') s k = ((Ok (), s'), k') \<and>
     node_drv k' = node_drv node_kernel \<and> Get s' ''p1'' ''u1'' = None"
proof -
  obtain r i s k s' k' where r: "prepareResourceClaim (node_driver True) node_manager 0 (node_claim ''igbvf'') empty_manager node_kernel = ((Ok r, i, s), k)"
    "pr_Err r = None" "unprepareResourceClaim (node_driver True) node_manager (example_object ''u1'') s k = ((Ok (), s'), k')" by (rule node_prepare)
  have u: "claim_UID (node_claim ''igbvf'') = ''u1''" by (simp add: node_claim_def example_claim_def)
  have c: "getMapOfOpaqueDeviceConfigForDevice (env_decode (d_env (node_driver True))) (al_Config (node_allocation ''igbvf'')) = Ok (node_rc ''igbvf'')"
    using node_configs by (simp add: node_driver_def)
  have n: "Get empty_manager p (claim_UID (node_claim ''igbvf'')) = None" for p by (simp add: Get_def Get_refs_def)
  have o: "no_UID (example_object ''u1'') = claim_UID (node_claim ''igbvf'')" using u by (simp add: example_object_def)
  from claim_prepare_unprepare[OF empty_manager_inv node_store node_plugin_documented node_valid[OF node_names(3)] node_alloc c node_bound n r(1,2) refl o r(3)] r
  show ?thesis unfolding u by blast
qed

definition single :: "PreparedDevices option \<Rightarrow> PreparedDevice option" where
  "single x = (case x of Some [Some p] \<Rightarrow> Some p | _ \<Rightarrow> None)"

lemma single_eq: "single x = Some p \<longleftrightarrow> x = Some [Some p]"
  by (auto simp: single_def split: option.splits list.splits)

abbreviation two_run :: "((UID, PrepareResult) gomap res \<times> nat \<times> PodManager) \<times> kernel" where
  "two_run \<equiv> prepare_claims (node_driver True) node_manager 0 [] (map Some [one_claim ''a'' ''vf0'', one_claim ''b'' ''vf1'']) empty_manager node_kernel"

abbreviation first_run :: "((UID, PrepareResult) gomap res \<times> nat \<times> PodManager) \<times> kernel" where
  "first_run \<equiv> prepare_claims (node_driver True) node_manager 0 [] [Some (one_claim ''a'' ''vf0'')] empty_manager node_kernel"

abbreviation retry_run :: "((UID, PrepareResult) gomap res \<times> nat \<times> PodManager) \<times> kernel" where
  "retry_run \<equiv> prepare_claims (node_driver True) node_manager 0 [] [Some (one_claim ''a'' ''vf0''), Some (one_claim ''b'' ''vf1'')]
     (snd (snd (fst first_run))) (snd first_run)"

lemma two_claims_eval:
  "is_ok (fst (fst two_run)) \<and> map_option pd_IfName (single (Get (snd (snd (fst two_run))) ''p1'' ''a'')) = Some ''vfnet0'' \<and>
     map_option pd_IfName (single (Get (snd (snd (fst two_run))) ''p1'' ''b'')) = Some ''vfnet1''"
  "map_option pd_IfName (single (Get (snd (snd (fst first_run))) ''p1'' ''a'')) = Some ''vfnet0'' \<and>
     Get (snd (snd (fst first_run))) ''p1'' ''b'' = None"
  "case fst (fst retry_run) of Ok res \<Rightarrow> map_option pr_Err (mget res ''b'') = Some None | _ \<Rightarrow> False"
  "fst (snd (fst retry_run)) = 1"
  by code_simp+

theorem prepare_claims_distinct_names_witness:
  "\<exists>p q. Get (snd (snd (fst two_run))) ''p1'' ''a'' = Some [Some p] \<and> Get (snd (snd (fst two_run))) ''p1'' ''b'' = Some [Some q] \<and>
     set (generated_names node_manager [p]) \<inter> set (generated_names node_manager [q]) = {}"
proof -
  obtain res n s k where r: "two_run = ((Ok res, n, s), k)"
    using two_claims_eval(1) by (cases two_run) (auto simp: is_ok_def split: res.splits)
  obtain p q where g: "Get s ''p1'' ''a'' = Some [Some p]" "Get s ''p1'' ''b'' = Some [Some q]"
    using two_claims_eval(1) unfolding r by (auto simp: single_eq)
  have u: "claim_UID (one_claim ''a'' ''vf0'') = ''a''" "claim_UID (one_claim ''b'' ''vf1'') = ''b''" by (simp_all add: one_claim_def)
  have e: "Get empty_manager p (claim_UID c) = None" for p and c :: ResourceClaim by (simp add: Get_def Get_refs_def)
  have "set (generated_names node_manager [p]) \<inter> set (generated_names node_manager [q]) = {}"
    by (rule prepare_claims_distinct_names[OF empty_manager_inv node_store _ e r,
          of "one_claim ''a'' ''vf0''" "one_claim ''b'' ''vf1''" "''p1''" _ "''p1''"]) (simp_all add: u g)
  then show ?thesis unfolding r using g by simp
qed

lemma single_run_inv: "pm_inv (snd (snd (fst first_run)))"
proof -
  obtain a i s k where r: "prepareResourceClaim (node_driver True) node_manager 0 (one_claim ''a'' ''vf0'') empty_manager node_kernel = ((a, i, s), k)"
    by (metis prod.exhaust)
  have "pm_inv s" using pods.prepare_round[OF empty_manager_inv node_store _ r] by (simp add: pod_store_def Get_def Get_refs_def)
  then show ?thesis using r by (cases a) simp_all
qed

theorem retry_reuses_names_witness:
  "map_option pd_IfName (single (Get (snd (snd (fst retry_run))) ''p1'' ''a'')) = Some ''vfnet0'' \<and>
   (\<exists>dsb. Get (snd (snd (fst retry_run))) ''p1'' ''b'' = Some (map Some dsb) \<and> generated_names node_manager dsb = [''vfnet0''])"
proof -
  obtain res s k where r: "retry_run = ((Ok res, 1, s), k)" "map_option pr_Err (mget res ''b'') = Some None"
    using two_claims_eval(3,4) by (cases retry_run) (auto split: res.splits)
  obtain p where p: "Get (snd (snd (fst first_run))) ''p1'' ''a'' = Some (map Some [p])"
    using two_claims_eval(2) by (auto simp: single_eq)
  have u: "claim_UID (one_claim x y) = x" "claim_ReservedFor (one_claim x y) = [''p1'']" "claim_Allocation (one_claim x y) \<noteq> None" for x y
    by (simp_all add: one_claim_def example_claim_def)
  have "\<exists>dsb. Get s ''p1'' ''b'' = Some (map Some dsb) \<and> generated_names node_manager dsb = map (nth_name node_manager) [0..<1]"
    using retry_reuses_names[OF single_run_inv node_store u(2) u(3) _ u(2) _ _ r(1), unfolded u(1), OF p] two_claims_eval(2) r(2) by simp
  moreover have "map (nth_name node_manager) [0..<1] = [''vfnet0'']" by code_simp
  moreover have "map_option pd_IfName (single (Get (snd (snd (fst retry_run))) ''p1'' ''a'')) = Some ''vfnet0''" by code_simp
  ultimately show ?thesis unfolding r by simp
qed

theorem failed_checkpoint_reports_prepared_witness:
  "\<exists>s1 ds k3. pr_Err (case fst (fst (prepareResourceClaim (node_driver False) node_manager 0 (node_claim ''igbvf'') empty_manager node_kernel)) of Ok r \<Rightarrow> r) \<noteq> None \<and>
     prepareResourceClaim (node_driver False) node_manager 0 (node_claim ''igbvf'') s1 k3 =
       ((Ok \<lparr>pr_Devices = map (\<lambda>p. ToKubeletPluginDevice p None) ds, pr_Err = None\<rparr>, 0, s1), k3) \<and> map pd_PciAddress ds = [''0000:01:00.1'', ''0000:01:00.2'']"
proof -
  obtain ds c k k' where r: "node_run ''igbvf'' = ((Ok ds, 2, c), k)"
    "Unprepare example_env node_manager ''u1'' (map Some ds) k = (Ok (), k')" "map pd_PciAddress ds = [''0000:01:00.1'', ''0000:01:00.2'']" by (rule node_prepared)
  have u: "claim_UID (node_claim ''igbvf'') = ''u1''" "claim_ReservedFor (node_claim ''igbvf'') = [''p1'']" "claim_Allocation (node_claim ''igbvf'') \<noteq> None"
    by (simp_all add: node_claim_def example_claim_def)
  have e: "Get empty_manager ''p1'' ''u1'' = None" by (simp add: Get_def Get_refs_def)
  have env: "d_env (node_driver False) = example_env" by (simp add: node_driver_def)
  obtain e' s1 where st: "Set (node_cm False) empty_manager ''p1'' ''u1'' (map Some ds) k = ((Err e', s1), k)"
    by (simp add: Set_def syncToCheckpoint_def node_cm_def case_prod_beta Let_def wrap_err_def)
  note f = failed_checkpoint_reports_prepared[OF empty_manager_inv node_store[of False] u(2,3), unfolded env u(1), OF e r(1) st r(2)]
  obtain x where x: "prepareResourceClaim (node_driver False) node_manager 0 (node_claim ''igbvf'') empty_manager node_kernel = ((Ok x, 2, s1), k')"
    "pr_Err x \<noteq> None" using conjunct1[OF f] by blast
  show ?thesis using conjunct2[OF f] x r(3) by (intro exI[of _ s1] exI[of _ ds] exI[of _ k']) simp
qed

end
