(* ===== verification/Cni.thy ===== *)
theory Cni
  imports Api
begin

text \<open>
  The CNI runtime of \<^verbatim>\<open>pkg/cni\<close>: attaching and detaching the network of a prepared device
  (\<^verbatim>\<open>cni.go\<close>), the translation of a CNI result (\<^verbatim>\<open>status.go\<close>) and the execution of plugin binaries
  with retries (\<^verbatim>\<open>exec.go\<close>). The CNI library and the JSON library are arguments; \<open>'c\<close> is the library's
  plugin configuration and \<open>'r\<close> its result.
\<close>

section \<open>Types\<close>

text \<open>A pod sandbox; the namespaces are pairs of type and path, none for a pod without Linux data.\<close>

record PodSandbox =
  pod_Id :: string
  pod_Name :: string
  pod_Namespace :: string
  pod_Uid :: UID
  pod_Namespaces :: "(string \<times> string) list"

record RuntimeConf =
  rt_ContainerID :: string
  rt_NetNS :: string
  rt_IfName :: string
  rt_Args :: "(string \<times> string) list"

text \<open>A result of CNI version 1.0.0; the slices hold pointers, and an address is its printed form.\<close>

record CniInterface =
  ci_Name :: string
  ci_Mac :: string
  ci_Sandbox :: string

record CniResult =
  cr_IPs :: "string option list"
  cr_Interfaces :: "CniInterface option list"

record ('c, 'r, 'w) libcni =
  nad_GetCNIConfigFromSpec :: "string \<Rightarrow> string \<Rightarrow> string res"
  lc_NetworkPluginConfFromBytes :: "string \<Rightarrow> 'c res"
  lc_AddNetwork :: "'c \<Rightarrow> RuntimeConf \<Rightarrow> 'w \<Rightarrow> 'r option res \<times> 'w"
  lc_DelNetwork :: "'c \<Rightarrow> RuntimeConf \<Rightarrow> 'w \<Rightarrow> unit res \<times> 'w"
  cni100_NewResultFromResult :: "'r \<Rightarrow> CniResult res"
  cni100_Marshal :: "CniResult \<Rightarrow> string res"

record ('c, 'r, 'w) Runtime =
  CNIConfig :: "('c, 'r, 'w) libcni"
  rt_json :: json_codec
  rt_DriverName :: string

type_synonym json_map = "(string, json) gomap option"

section \<open>Results\<close>

fun result_ips :: "string list \<Rightarrow> string option list \<Rightarrow> string list res" where
  "result_ips acc [] = Ok acc"
| "result_ips acc (None # ips) = Panic ''invalid memory address or nil pointer dereference''"
| "result_ips acc (Some ip # ips) = result_ips (acc @ [ip]) ips"

fun result_interface :: "NetworkDeviceData \<Rightarrow> CniInterface option list \<Rightarrow> NetworkDeviceData res" where
  "result_interface nd [] = Ok nd"
| "result_interface nd (None # ifs) = Panic ''invalid memory address or nil pointer dereference''"
| "result_interface nd (Some i # ifs) =
     result_interface (if ci_Sandbox i \<noteq> [] then nd\<lparr>nd_InterfaceName := ci_Name i, nd_HardwareAddress := ci_Mac i\<rparr> else nd) ifs"

definition cniResultToNetworkData :: "('r \<Rightarrow> CniResult res) \<Rightarrow> 'r \<Rightarrow> NetworkDeviceData res" where
  "cniResultToNetworkData convert result =
     bind_res (wrap_err ''failed to NewResultFromResult result (%v): %v'' (convert result)) (\<lambda>cniResult.
     bind_res (result_ips [] (cr_IPs cniResult)) (\<lambda>ips.
       result_interface \<lparr>nd_InterfaceName = [], nd_IPs = ips, nd_HardwareAddress = []\<rparr> (cr_Interfaces cniResult)))"

section \<open>Attach and detach\<close>

text \<open>The runtime configuration that both calls build.\<close>

definition runtime_conf :: "PodSandbox \<Rightarrow> string \<Rightarrow> PreparedDevice \<Rightarrow> RuntimeConf" where
  "runtime_conf pod podNetworkNamespace deviceConfig =
     \<lparr>rt_ContainerID = pod_Id pod, rt_NetNS = podNetworkNamespace, rt_IfName = pd_IfName deviceConfig,
      rt_Args = [(''IgnoreUnknown'', ''true''), (''K8S_POD_NAMESPACE'', pod_Namespace pod), (''K8S_POD_NAME'', pod_Name pod),
        (''K8S_POD_INFRA_CONTAINER_ID'', pod_Id pod), (''K8S_POD_UID'', pod_Uid pod)]\<rparr>"

definition plugin_conf :: "('c, 'r, 'w) Runtime \<Rightarrow> PreparedDevice \<Rightarrow> 'c res" where
  "plugin_conf rntm deviceConfig =
     bind_res (wrap_err ''failed to GetCNIConfigFromSpec: %v''
         (nad_GetCNIConfigFromSpec (CNIConfig rntm) (pd_NetAttachDefConfig deviceConfig) (rt_DriverName rntm)))
       (\<lambda>rawNetConf. wrap_err ''failed to NetworkPluginConfFromBytes: %v'' (lc_NetworkPluginConfFromBytes (CNIConfig rntm) rawNetConf))"

text \<open>The result as a generic map.\<close>

definition result_map :: "('c, 'r, 'w) Runtime \<Rightarrow> 'r \<Rightarrow> json_map res" where
  "result_map rntm cniResult =
     bind_res (wrap_err ''failed to convert CNI result to 1.0.0: %v'' (cni100_NewResultFromResult (CNIConfig rntm) cniResult)) (\<lambda>r.
     bind_res (wrap_err ''failed to marshal CNI result: %v'' (cni100_Marshal (CNIConfig rntm) r)) (\<lambda>raw.
       wrap_err ''failed to unmarshal CNI result into map: %v'' (unmarshal_map (rt_json rntm) raw)))"

text \<open>The network data, the map and the error, as the Go function returns them: an error after the conversion
  comes with the network data.\<close>

definition AttachNetwork :: "('c, 'r, 'w) Runtime \<Rightarrow> PodSandbox \<Rightarrow> string \<Rightarrow> PreparedDevice \<Rightarrow> 'w \<Rightarrow>
    (NetworkDeviceData option \<times> json_map \<times> error option) res \<times> 'w" where
  "AttachNetwork rntm pod podNetworkNamespace deviceConfig w =
     (case plugin_conf rntm deviceConfig of
        Err e \<Rightarrow> (Ok (None, None, Some e), w)
      | Panic p \<Rightarrow> (Panic p, w)
      | Ok pluginConf \<Rightarrow>
     (case lc_AddNetwork (CNIConfig rntm) pluginConf (runtime_conf pod podNetworkNamespace deviceConfig) w of
        (Err err, w1) \<Rightarrow> (Ok (None, None, Some (Errorf ''failed to AddNetwork: %v'' [err])), w1)
      | (Panic p, w1) \<Rightarrow> (Panic p, w1)
      | (Ok None, w1) \<Rightarrow> (Ok (None, None, Some (Errorf ''cni result is nil'' [])), w1)
      | (Ok (Some cniResult), w1) \<Rightarrow>
          ((case cniResultToNetworkData (cni100_NewResultFromResult (CNIConfig rntm)) cniResult of
              Err e \<Rightarrow> Ok (None, None, Some e)
            | Panic p \<Rightarrow> Panic p
            | Ok netData \<Rightarrow>
                (case result_map rntm cniResult of
                   Err e \<Rightarrow> Ok (Some netData, None, Some e)
                 | Panic p \<Rightarrow> Panic p
                 | Ok resultMap \<Rightarrow> Ok (Some netData, resultMap, None))), w1)))"

definition DetachNetwork :: "('c, 'r, 'w) Runtime \<Rightarrow> PodSandbox \<Rightarrow> string \<Rightarrow> PreparedDevice \<Rightarrow> 'w \<Rightarrow> unit res \<times> 'w" where
  "DetachNetwork rntm pod podNetworkNamespace deviceConfig w =
     (case plugin_conf rntm deviceConfig of
        Err e \<Rightarrow> (Err e, w)
      | Panic p \<Rightarrow> (Panic p, w)
      | Ok pluginConf \<Rightarrow>
          let (r, w1) = lc_DelNetwork (CNIConfig rntm) pluginConf (runtime_conf pod podNetworkNamespace deviceConfig) w
          in (wrap_err ''failed to DelNetwork: %v'' r, w1))"

section \<open>Running plugin binaries\<close>

text \<open>One run of the command gives its error, if any, and what it appended to its outputs. The text of an error
  and the decoding of a plugin's error message are arguments.\<close>

record 'w command =
  cmd_Run :: "'w \<Rightarrow> (error option \<times> string \<times> string) \<times> 'w"
  err_text :: "error \<Rightarrow> string"
  json_Error :: "string \<Rightarrow> error + error"  \<comment> \<open>a decoding error, or the decoded error\<close>

fun Contains :: "string \<Rightarrow> string \<Rightarrow> bool" where
  "Contains [] t = (t = [])"
| "Contains (c # s) t = (HasPrefix (c # s) t \<or> Contains s t)"

definition pluginErr :: "'w command \<Rightarrow> error \<Rightarrow> string \<Rightarrow> string \<Rightarrow> error" where
  "pluginErr c err stdout stderr =
     (if length stdout = 0 then
        (if length stderr = 0 then Errorf ''netplugin failed with no error message: %v'' [err]
         else Errorf ''netplugin failed: %q: %v'' [External stderr, err])
      else case json_Error c stdout of
          Inr e \<Rightarrow> e
        | Inl perr \<Rightarrow> Errorf ''netplugin failed but error parsing its diagnostic message %q: %v'' [External stdout, perr])"

text \<open>The loop with the number of runs that are left. It ends after a run without error, with the first error that
  is not a busy binary, and also, without an error, when the runs are used up.\<close>

fun exec_loop :: "'w command \<Rightarrow> nat \<Rightarrow> string \<Rightarrow> string \<Rightarrow> 'w \<Rightarrow> (string \<times> string) res \<times> 'w" where
  "exec_loop c 0 stdout stderr w = (Ok (stdout, stderr), w)"
| "exec_loop c (Suc n) stdout stderr w =
     (let ((err, out, e), w') = cmd_Run c w; stdout' = stdout @ out; stderr' = stderr @ e in
      case err of
        None \<Rightarrow> (Ok (stdout', stderr'), w')
      | Some x \<Rightarrow> if Contains (err_text c x) ''text file busy'' then exec_loop c n stdout' stderr' w'
                  else (Err (pluginErr c x stdout' stderr'), w'))"

text \<open>The output, and what is copied to the caller's error stream when there is one.\<close>

definition ExecPlugin :: "'w command \<Rightarrow> bool \<Rightarrow> 'w \<Rightarrow> (string \<times> string) res \<times> 'w" where
  "ExecPlugin c has_Stderr w =
     (let (r, w') = exec_loop c 11 [] [] w in
      (bind_res r (\<lambda>(stdout, stderr). Ok (stdout, if has_Stderr \<and> length stderr > 0 then stderr else [])), w'))"

section \<open>Lemmas\<close>

lemma result_ips_eq: "result_ips acc (map Some ips) = Ok (acc @ ips)"
  by (induction ips arbitrary: acc) simp_all

lemma result_interface_eq:
  "result_interface nd (map Some ifs) =
     (case filter (\<lambda>i. ci_Sandbox i \<noteq> []) ifs of [] \<Rightarrow> Ok nd
      | xs \<Rightarrow> Ok (nd\<lparr>nd_InterfaceName := ci_Name (last xs), nd_HardwareAddress := ci_Mac (last xs)\<rparr>))"
  by (induction ifs arbitrary: nd) (auto split: list.splits)

text \<open>A command that records the outcomes of its runs: the error, and what was written to the two outputs.\<close>

type_synonym outcome = "error option \<times> string \<times> string"

definition transcribing :: "'w command \<Rightarrow> ('w \<times> outcome list) command" where
  "transcribing c = \<lparr>cmd_Run = (\<lambda>(w, l). let (r, w') = cmd_Run c w in (r, (w', l @ [r]))), err_text = err_text c, json_Error = json_Error c\<rparr>"

definition busy :: "'w command \<Rightarrow> outcome \<Rightarrow> bool" where
  "busy c run = (case fst run of None \<Rightarrow> False | Some x \<Rightarrow> Contains (err_text c x) ''text file busy'')"

definition stdout_of :: "outcome list \<Rightarrow> string" where
  "stdout_of runs = concat (map (fst \<circ> snd) runs)"

definition stderr_of :: "outcome list \<Rightarrow> string" where
  "stderr_of runs = concat (map (snd \<circ> snd) runs)"

text \<open>The result that the last run decides.\<close>

definition loop_result :: "'w command \<Rightarrow> string \<Rightarrow> string \<Rightarrow> outcome \<Rightarrow> (string \<times> string) res" where
  "loop_result c out err run = (case fst run of None \<Rightarrow> Ok (out, err)
     | Some x \<Rightarrow> if busy c run then Ok (out, err) else Err (pluginErr c x out err))"

lemma transcribing_simps [simp]: "cmd_Run (transcribing c) (w, l) = (let (r, w') = cmd_Run c w in (r, (w', l @ [r])))"
  "err_text (transcribing c) = err_text c" "pluginErr (transcribing c) = pluginErr c"
  by (simp_all add: transcribing_def pluginErr_def fun_eq_iff)

lemma exec_loop_transcript:
  assumes "exec_loop (transcribing c) (Suc n) out err (w, pre) = (r, (w', runs))"
  shows "\<exists>new. runs = pre @ new \<and> new \<noteq> [] \<and> length new \<le> Suc n \<and> list_all (busy c) (butlast new) \<and> (busy c (last new) \<longrightarrow> length new = Suc n) \<and>
    r = loop_result c (out @ stdout_of new) (err @ stderr_of new) (last new)"
  using assms
proof (induction n arbitrary: out err w pre)
  case 0
  obtain x o1 e1 w1 where r: "cmd_Run c w = ((x, o1, e1), w1)" by (metis prod.exhaust)
  show ?case
    using 0 r by (intro exI[of _ "[(x, o1, e1)]"]) (auto simp: Let_def loop_result_def busy_def stdout_of_def stderr_of_def split: option.splits if_splits)
next
  case (Suc n)
  obtain x o1 e1 w1 where r: "cmd_Run c w = ((x, o1, e1), w1)" by (metis prod.exhaust)
  show ?case
  proof (cases "busy c (x, o1, e1)")
    case False
    then show ?thesis
      using Suc.prems r by (intro exI[of _ "[(x, o1, e1)]"]) (auto simp: Let_def loop_result_def busy_def stdout_of_def stderr_of_def split: option.splits if_splits)
  next
    case True
    then have "exec_loop (transcribing c) (Suc n) (out @ o1) (err @ e1) (w1, pre @ [(x, o1, e1)]) = (r, (w', runs))"
      using Suc.prems r by (auto simp: Let_def busy_def split: option.splits)
    from Suc.IH[OF this] obtain new where new: "runs = (pre @ [(x, o1, e1)]) @ new" "new \<noteq> []" "length new \<le> Suc n"
      "list_all (busy c) (butlast new)" "busy c (last new) \<longrightarrow> length new = Suc n"
      "r = loop_result c ((out @ o1) @ stdout_of new) ((err @ e1) @ stderr_of new) (last new)" by blast
    then show ?thesis using True by (intro exI[of _ "(x, o1, e1) # new"]) (simp add: stdout_of_def stderr_of_def)
  qed
qed

text \<open>A library that records the networks it is asked to add and to delete.\<close>

datatype 'c call = Added 'c RuntimeConf | Deleted 'c RuntimeConf

definition recording :: "('c, 'r, 'w) Runtime \<Rightarrow> ('c, 'r, 'w \<times> 'c call list) Runtime" where
  "recording rntm = \<lparr>CNIConfig = \<lparr>nad_GetCNIConfigFromSpec = nad_GetCNIConfigFromSpec (CNIConfig rntm),
       lc_NetworkPluginConfFromBytes = lc_NetworkPluginConfFromBytes (CNIConfig rntm),
       lc_AddNetwork = (\<lambda>c rt (w, log). let (r, w') = lc_AddNetwork (CNIConfig rntm) c rt w in (r, (w', log @ [Added c rt]))),
       lc_DelNetwork = (\<lambda>c rt (w, log). let (r, w') = lc_DelNetwork (CNIConfig rntm) c rt w in (r, (w', log @ [Deleted c rt]))),
       cni100_NewResultFromResult = cni100_NewResultFromResult (CNIConfig rntm), cni100_Marshal = cni100_Marshal (CNIConfig rntm)\<rparr>,
     rt_json = rt_json rntm, rt_DriverName = rt_DriverName rntm\<rparr>"

lemma recording_simps [simp]:
  "plugin_conf (recording rntm) p = plugin_conf rntm p"
  "lc_AddNetwork (CNIConfig (recording rntm)) c rt (w, log) =
     (fst (lc_AddNetwork (CNIConfig rntm) c rt w), (snd (lc_AddNetwork (CNIConfig rntm) c rt w), log @ [Added c rt]))"
  "lc_DelNetwork (CNIConfig (recording rntm)) c rt (w, log) =
     (fst (lc_DelNetwork (CNIConfig rntm) c rt w), (snd (lc_DelNetwork (CNIConfig rntm) c rt w), log @ [Deleted c rt]))"
  by (simp_all add: recording_def plugin_conf_def case_prod_beta)

text \<open>The networks a device asks for.\<close>

definition added_for :: "('c, 'r, 'w) Runtime \<Rightarrow> PodSandbox \<Rightarrow> string \<Rightarrow> PreparedDevice \<Rightarrow> 'c call list" where
  "added_for rntm pod ns p = (case plugin_conf rntm p of Ok c \<Rightarrow> [Added c (runtime_conf pod ns p)] | _ \<Rightarrow> [])"

fun deleted :: "'c call \<Rightarrow> 'c call" where
  "deleted (Added c rt) = Deleted c rt"
| "deleted (Deleted c rt) = Deleted c rt"

lemma recorded_calls:
  "snd (snd (AttachNetwork (recording rntm) pod ns p w)) = snd w @ added_for rntm pod ns p"
  "snd (snd (DetachNetwork (recording rntm) pod ns p w)) = snd w @ map deleted (added_for rntm pod ns p)"
  by (cases w; auto simp: AttachNetwork_def DetachNetwork_def added_for_def case_prod_beta split: res.split option.split prod.split)+

lemma attached_once: "AttachNetwork (recording rntm) pod ns p w = (Ok (nd, m, None), w') \<Longrightarrow> length (added_for rntm pod ns p) = 1"
  by (cases w) (auto simp: AttachNetwork_def added_for_def split: res.splits option.splits prod.splits)

section \<open>Properties\<close>

text \<open>Detaching mirrors attaching: for the same pod and device the plugin is asked to delete exactly the network
  it was asked to add, with the same configuration, interface name, namespace and arguments, and neither call
  reaches the plugin when the configuration of the device is not valid.\<close>

theorem DetachNetwork_mirrors_attach:
  fixes rntm :: "('c, 'r, 'w) Runtime"
  shows "snd (snd (AttachNetwork (recording rntm) pod ns p (w, log))) =
      log @ (case plugin_conf rntm p of Ok c \<Rightarrow> [Added c (runtime_conf pod ns p)] | _ \<Rightarrow> []) \<and>
    snd (snd (DetachNetwork (recording rntm) pod ns p (w', log'))) =
      log' @ (case plugin_conf rntm p of Ok c \<Rightarrow> [Deleted c (runtime_conf pod ns p)] | _ \<Rightarrow> [])"
  using recorded_calls[of rntm pod ns p] by (auto simp: added_for_def split: res.split)

text \<open>The network data reported for a device has all addresses of the CNI result in their order, and the name and
  hardware address of the last interface inside a sandbox; without such an interface both are empty.\<close>

theorem cniResultToNetworkData_reports:
  assumes "convert r = Ok \<lparr>cr_IPs = map Some ips, cr_Interfaces = map Some ifs\<rparr>"
  shows "cniResultToNetworkData convert r = Ok
    (case filter (\<lambda>i. ci_Sandbox i \<noteq> []) ifs of
       [] \<Rightarrow> \<lparr>nd_InterfaceName = [], nd_IPs = ips, nd_HardwareAddress = []\<rparr>
     | xs \<Rightarrow> \<lparr>nd_InterfaceName = ci_Name (last xs), nd_IPs = ips, nd_HardwareAddress = ci_Mac (last xs)\<rparr>)"
  using assms by (simp add: cniResultToNetworkData_def result_ips_eq result_interface_eq wrap_err_def split: list.split)

theorem cniResultToNetworkData_reports_witness:
  "cniResultToNetworkData Ok \<lparr>cr_IPs = [Some ''10.0.0.2/24''], cr_Interfaces =
       [Some \<lparr>ci_Name = ''host0'', ci_Mac = ''aa'', ci_Sandbox = []\<rparr>, Some \<lparr>ci_Name = ''vfnet0'', ci_Mac = ''bb'', ci_Sandbox = ''/run/ns''\<rparr>]\<rparr> =
     Ok \<lparr>nd_InterfaceName = ''vfnet0'', nd_IPs = [''10.0.0.2/24''], nd_HardwareAddress = ''bb''\<rparr>"
  using cniResultToNetworkData_reports[of Ok _ "[''10.0.0.2/24'']"
    "[\<lparr>ci_Name = ''host0'', ci_Mac = ''aa'', ci_Sandbox = []\<rparr>, \<lparr>ci_Name = ''vfnet0'', ci_Mac = ''bb'', ci_Sandbox = ''/run/ns''\<rparr>]"]
  by simp

text \<open>C33. How often a plugin binary is run and what comes of it. It is run again exactly as long as the run failed because
  the file is busy, at most eleven times in all. The last run decides: after a run without error the outputs of all runs are
  returned, after any other error the plugin's error, and when the file is busy for the eleventh time the outputs are
  returned without an error.\<close>

theorem ExecPlugin_runs:
  assumes "ExecPlugin (transcribing c) has_Stderr (w, []) = (r, (w', runs))"
  shows "runs \<noteq> [] \<and> length runs \<le> 11 \<and> list_all (busy c) (butlast runs) \<and> (busy c (last runs) \<longrightarrow> length runs = 11) \<and>
    r = (case fst (last runs) of
           Some x \<Rightarrow> if busy c (last runs) then Ok (stdout_of runs, if has_Stderr then stderr_of runs else [])
                      else Err (pluginErr c x (stdout_of runs) (stderr_of runs))
         | None \<Rightarrow> Ok (stdout_of runs, if has_Stderr then stderr_of runs else []))"
proof -
  obtain r1 w1 runs1 where run: "exec_loop (transcribing c) (Suc 10) [] [] (w, []) = (r1, (w1, runs1))" by (metis prod.exhaust)
  have r: "r = bind_res r1 (\<lambda>(stdout, stderr). Ok (stdout, if has_Stderr \<and> length stderr > 0 then stderr else []))" "runs = runs1"
    using assms run by (simp_all add: ExecPlugin_def)
  then show ?thesis
    using exec_loop_transcript[OF run] by (auto simp: loop_result_def split: option.splits if_splits)
qed

text \<open>A binary that is busy in the first run and then succeeds; the world counts the runs.\<close>

definition busy_once :: "nat command" where
  "busy_once = \<lparr>cmd_Run = (\<lambda>n. ((if n = 0 then Some (External ''text file busy'') else None, ''{}'', []), Suc n)),
     err_text = (\<lambda>e. case e of External t \<Rightarrow> t | _ \<Rightarrow> []), json_Error = (\<lambda>s. Inl (External s))\<rparr>"

theorem ExecPlugin_runs_witness:
  "\<exists>r w'. ExecPlugin (transcribing busy_once) True (0, []) = (r, (w', [(Some (External ''text file busy''), ''{}'', []), (None, ''{}'', [])])) \<and>
     r = Ok (''{}{}'', [])"
proof -
  obtain r w' runs where run: "ExecPlugin (transcribing busy_once) True (0, []) = (r, (w', runs))" by (metis prod.exhaust)
  have "snd (snd (ExecPlugin (transcribing busy_once) True (0, []))) = [(Some (External ''text file busy''), ''{}'', []), (None, ''{}'', [])]" by code_simp
  then have runs: "runs = [(Some (External ''text file busy''), ''{}'', []), (None, ''{}'', [])]" using run by simp
  have "r = Ok (''{}{}'', [])" using ExecPlugin_runs[OF run] by (simp add: runs stdout_of_def stderr_of_def)
  then show ?thesis using run runs by blast
qed

end
