(* ===== verification/Nri.thy ===== *)
theory Nri
  imports Cni PodManager StatusRetry "HOL-Library.Multiset"
begin

text \<open>
  The NRI plugin of \<^verbatim>\<open>pkg/nri\<close>: it attaches and detaches the networks of a pod's devices when its sandbox
  starts and stops, refreshes the kubelet's request metadata, and hands the network data over a buffered channel
  to a goroutine that writes it to the store and to the status of the claims. Devices are references into the
  heap of the pod manager, as the Go code passes pointers. The CNI runtime is the interface of
  \<^verbatim>\<open>pkg/cni/interface.go\<close>; the API server, the metadata updater and JSON are arguments.
\<close>

section \<open>Types\<close>

record 'w CniRuntime =
  cn_AttachNetwork :: "PodSandbox \<Rightarrow> string \<Rightarrow> PreparedDevice \<Rightarrow> 'w \<Rightarrow> (NetworkDeviceData option \<times> json_map \<times> error option) res \<times> 'w"
  cn_DetachNetwork :: "PodSandbox \<Rightarrow> string \<Rightarrow> PreparedDevice \<Rightarrow> 'w \<Rightarrow> unit res \<times> 'w"

record NetworkDataChanStruct =
  nc_PreparedDevice :: "ref option"
  nc_NetworkDeviceData :: "NetworkDeviceData option"
  nc_CNIConfig :: json_map
  nc_CNIResult :: json_map

type_synonym NetworkDataChanStructList = "NetworkDataChanStruct option list"

type_synonym 'w MetadataUpdater = "string \<Rightarrow> string \<Rightarrow> UID \<Rightarrow> string \<Rightarrow> KubeletDevice list \<Rightarrow> 'w \<Rightarrow> unit res \<times> 'w"

record requestMetadataKey =
  rk_claimNamespace :: string
  rk_claimName :: string
  rk_requestName :: string

record requestMetadataUpdate =
  ru_claimUID :: UID
  ru_devices :: "KubeletDevice list"

record networkClaimKey =
  nk_namespace :: string
  nk_name :: string
  nk_uid :: UID

text \<open>\<open>p_getClaim\<close> reads a claim by namespace and name; \<open>p_combined\<close> is the JSON text of a device's configuration,
  CNI configuration and CNI result. \<open>p_range_groups\<close> and \<open>p_range_updates\<close> give the order in which Go ranges over a
  map it has just built: some permutation of the entries. \<open>p_stub_Stop\<close> ends the connection of the NRI library.\<close>

record 'w Plugin =
  p_cm :: "'w checkpoint_manager"
  p_cniRuntime :: "'w CniRuntime"
  p_getClaim :: "string \<Rightarrow> string \<Rightarrow> 'w \<Rightarrow> ResourceClaim res"
  p_claims :: "string \<Rightarrow> 'w claim_client"
  p_errors :: apierrors
  p_backoff :: "'w retry_state condition \<Rightarrow> 'w retry_state \<Rightarrow> error option \<times> 'w retry_state"
  p_ctxErr :: "'w \<Rightarrow> error option"
  p_enableDeviceMetadata :: bool
  p_metadataUpdater :: "'w MetadataUpdater option"
  p_json :: json_codec
  p_combined :: "VfConfig option \<Rightarrow> json_map \<Rightarrow> json_map \<Rightarrow> string res"
  p_range_groups :: "(networkClaimKey, NetworkDataChanStructList) gomap \<Rightarrow> (networkClaimKey, NetworkDataChanStructList) gomap"
  p_range_updates :: "(requestMetadataKey, requestMetadataUpdate) gomap \<Rightarrow> (requestMetadataKey, requestMetadataUpdate) gomap"
  p_stub_Stop :: "'w \<Rightarrow> 'w"

text \<open>The device of an entry: none for a nil entry or a nil pointer in it.\<close>

definition item_device :: "PreparedDevice list \<Rightarrow> NetworkDataChanStruct option \<Rightarrow> PreparedDevice option" where
  "item_device h item = (case item of None \<Rightarrow> None | Some i \<Rightarrow> deref h (nc_PreparedDevice i))"

section \<open>Request metadata\<close>

text \<open>One request name of one entry; a missing map entry is the zero value.\<close>

definition add_request :: "NamespacedObject \<Rightarrow> KubeletDevice \<Rightarrow> (requestMetadataKey, requestMetadataUpdate) gomap \<Rightarrow> string \<Rightarrow>
    (requestMetadataKey, requestMetadataUpdate) gomap" where
  "add_request claim device updates requestName =
     (let key = \<lparr>rk_claimNamespace = no_Namespace claim, rk_claimName = no_Name claim, rk_requestName = requestName\<rparr>;
          update = (case mget updates key of None \<Rightarrow> \<lparr>ru_claimUID = [], ru_devices = []\<rparr> | Some u \<Rightarrow> u);
          update1 = (if no_UID claim \<noteq> [] \<or> ru_claimUID update = [] then update\<lparr>ru_claimUID := no_UID claim\<rparr> else update)
      in mput updates key (update1\<lparr>ru_devices := ru_devices update1 @ [device]\<rparr>))"

fun build_updates :: "PreparedDevice list \<Rightarrow> (requestMetadataKey, requestMetadataUpdate) gomap \<Rightarrow> NetworkDataChanStructList \<Rightarrow>
    (requestMetadataKey, requestMetadataUpdate) gomap" where
  "build_updates h updates [] = updates"
| "build_updates h updates (item # items) =
     (case item_device h item of
        None \<Rightarrow> build_updates h updates items
      | Some p \<Rightarrow>
          if length (pd_RequestNames p) = 0 then build_updates h updates items
          else build_updates h (foldl (add_request (pd_Claim p) (ToKubeletPluginDevice p (nc_NetworkDeviceData (the item)))) updates
                 (pd_RequestNames p)) items)"

definition buildRequestMetadataUpdates :: "PreparedDevice list \<Rightarrow> NetworkDataChanStructList \<Rightarrow> (requestMetadataKey, requestMetadataUpdate) gomap" where
  "buildRequestMetadataUpdates h networkDataList = build_updates h [] networkDataList"

definition updateDeviceMetadata :: "'w Plugin \<Rightarrow> requestMetadataKey \<Rightarrow> requestMetadataUpdate \<Rightarrow> 'w \<Rightarrow> unit res \<times> 'w" where
  "updateDeviceMetadata p key update w =
     (if \<not> p_enableDeviceMetadata p then (Ok (), w)
      else case p_metadataUpdater p of
        None \<Rightarrow> (Ok (), w)
      | Some updater \<Rightarrow>
          if length (ru_devices update) = 0 then (Ok (), w)
          else let (r, w') = updater (rk_claimNamespace key) (rk_claimName key) (ru_claimUID update) (rk_requestName key) (ru_devices update) w
               in (wrap_err ''update request metadata for %s failed: %w'' r, w'))"

fun apply_metadata :: "'w Plugin \<Rightarrow> (requestMetadataKey, requestMetadataUpdate) gomap \<Rightarrow> 'w \<Rightarrow> unit res \<times> 'w" where
  "apply_metadata p [] w = (Ok (), w)"
| "apply_metadata p ((key, update) # updates) w =
     bind_io (updateDeviceMetadata p key update w) (\<lambda>_ w'. apply_metadata p updates w')"

definition updateRequestMetadataBeforeSandboxStart :: "'w Plugin \<Rightarrow> PreparedDevice list \<Rightarrow> NetworkDataChanStructList \<Rightarrow> 'w \<Rightarrow> unit res \<times> 'w" where
  "updateRequestMetadataBeforeSandboxStart p h networkDataList w =
     (if \<not> p_enableDeviceMetadata p \<or> p_metadataUpdater p = None then (Ok (), w)
      else let updates = buildRequestMetadataUpdates h networkDataList in
        if length updates = 0 then (Ok (), w) else apply_metadata p (p_range_updates p updates) w)"

section \<open>Sandbox start and stop\<close>

definition getNetworkNamespace :: "PodSandbox \<Rightarrow> string" where
  "getNetworkNamespace pod = (case find (\<lambda>(t, path). t = ''network'') (pod_Namespaces pod) of None \<Rightarrow> [] | Some (t, path) \<Rightarrow> path)"

definition cni_config_map :: "json_codec \<Rightarrow> string \<Rightarrow> json_map" where
  "cni_config_map js config = (if config = [] then Some [] else case unmarshal_map js config of Ok m \<Rightarrow> m | _ \<Rightarrow> Some [])"

fun attach_all :: "'w Plugin \<Rightarrow> PreparedDevice list \<Rightarrow> PodSandbox \<Rightarrow> string \<Rightarrow> NetworkDataChanStructList \<Rightarrow> refs \<Rightarrow> 'w \<Rightarrow>
    NetworkDataChanStructList res \<times> 'w" where
  "attach_all p h pod ns acc [] w = (Ok acc, w)"
| "attach_all p h pod ns acc (r # rs) w =
     (case deref h r of
        None \<Rightarrow> (Panic ''invalid memory address or nil pointer dereference'', w)
      | Some device \<Rightarrow>
          (case cn_AttachNetwork (p_cniRuntime p) pod ns device w of
             (Ok (networkDeviceData, cniResultMap, None), w1) \<Rightarrow>
               attach_all p h pod ns (acc @ [Some \<lparr>nc_PreparedDevice = r, nc_NetworkDeviceData = networkDeviceData,
                 nc_CNIConfig = cni_config_map (p_json p) (pd_NetAttachDefConfig device), nc_CNIResult = cniResultMap\<rparr>]) rs w1
           | (Ok (_, _, Some err), w1) \<Rightarrow> (Err (Errorf ''failed to attach network: %w'' [err]), w1)
           | (Err e, w1) \<Rightarrow> (Err e, w1)
           | (Panic x, w1) \<Rightarrow> (Panic x, w1)))"

text \<open>The outcome, and the list to send on the channel if the call gets that far.\<close>

definition RunPodSandbox :: "'w Plugin \<Rightarrow> PodManager \<Rightarrow> PodSandbox \<Rightarrow> 'w \<Rightarrow> (unit res \<times> NetworkDataChanStructList option) \<times> 'w" where
  "RunPodSandbox p s pod w =
     (case GetDevicesByPodUID s (pod_Uid pod) of
        None \<Rightarrow> ((Ok (), None), w)
      | Some devices \<Rightarrow>
          let networkNamespace = getNetworkNamespace pod in
          if networkNamespace = [] then ((Ok (), None), w)
          else
     (case attach_all p (pm_heap s) pod networkNamespace [] devices w of
        (Err e, w1) \<Rightarrow> ((Err e, None), w1)
      | (Panic x, w1) \<Rightarrow> ((Panic x, None), w1)
      | (Ok networkDevicesData, w1) \<Rightarrow>
     (case updateRequestMetadataBeforeSandboxStart p (pm_heap s) networkDevicesData w1 of
        (Err err, w2) \<Rightarrow> ((Err (Errorf ''failed to update request metadata before pod start: %w'' [err]), None), w2)
      | (Panic x, w2) \<Rightarrow> ((Panic x, None), w2)
      | (Ok _, w2) \<Rightarrow> ((Ok (), Some networkDevicesData), w2))))"

fun detach_all :: "'w Plugin \<Rightarrow> PreparedDevice list \<Rightarrow> PodSandbox \<Rightarrow> string \<Rightarrow> refs \<Rightarrow> 'w \<Rightarrow> unit res \<times> 'w" where
  "detach_all p h pod ns [] w = (Ok (), w)"
| "detach_all p h pod ns (r # rs) w =
     (case deref h r of
        None \<Rightarrow> (Panic ''invalid memory address or nil pointer dereference'', w)
      | Some device \<Rightarrow>
          (case cn_DetachNetwork (p_cniRuntime p) pod ns device w of
             (Ok _, w1) \<Rightarrow> detach_all p h pod ns rs w1
           | (Err err, w1) \<Rightarrow> (Err (Errorf ''error CNI.DetachNetwork for pod '%s' (uid: %s) in namespace '%s': %v'' [err]), w1)
           | (Panic x, w1) \<Rightarrow> (Panic x, w1)))"

definition StopPodSandbox :: "'w Plugin \<Rightarrow> PodManager \<Rightarrow> PodSandbox \<Rightarrow> 'w \<Rightarrow> unit res \<times> 'w" where
  "StopPodSandbox p s pod w =
     (case GetDevicesByPodUID s (pod_Uid pod) of
        None \<Rightarrow> (Ok (), w)
      | Some devices \<Rightarrow>
          let networkNamespace = getNetworkNamespace pod in
          if networkNamespace = [] then (Err (Errorf (''error getting network namespace for pod '%s' in namespace '%s'' @ [CHR 0x27]) []), w)
          else detach_all p (pm_heap s) pod networkNamespace devices w)"

section \<open>Writing network data\<close>

definition claim_key :: "PreparedDevice \<Rightarrow> networkClaimKey" where
  "claim_key p = \<lparr>nk_namespace = no_Namespace (pd_Claim p), nk_name = no_Name (pd_Claim p), nk_uid = no_UID (pd_Claim p)\<rparr>"

text \<open>\<^verbatim>\<open>m[k] = append(m[k], v)\<close>.\<close>

definition mappend :: "('k, 'v list) gomap \<Rightarrow> 'k \<Rightarrow> 'v \<Rightarrow> ('k, 'v list) gomap" where
  "mappend m k v = mput m k ((case mget m k of None \<Rightarrow> [] | Some vs \<Rightarrow> vs) @ [v])"

fun group_items :: "PreparedDevice list \<Rightarrow> (networkClaimKey, NetworkDataChanStructList) gomap \<Rightarrow> NetworkDataChanStructList \<Rightarrow>
    (networkClaimKey, NetworkDataChanStructList) gomap" where
  "group_items h grouped [] = grouped"
| "group_items h grouped (item # items) =
     (case item_device h item of
        None \<Rightarrow> group_items h grouped items
      | Some p \<Rightarrow> group_items h (mappend grouped (claim_key p) item) items)"

definition groupNetworkDataByClaim :: "PreparedDevice list \<Rightarrow> NetworkDataChanStructList \<Rightarrow> (networkClaimKey, NetworkDataChanStructList) gomap" where
  "groupNetworkDataByClaim h items = group_items h [] items"

record claimStatusDeviceKey =
  sk_driver :: string
  sk_pool :: string
  sk_device :: string

definition status_key :: "AllocatedDeviceStatus \<Rightarrow> claimStatusDeviceKey" where
  "status_key d = \<lparr>sk_driver = ads_Driver d, sk_pool = ads_Pool d, sk_device = ads_Device d\<rparr>"

fun build_index :: "nat \<Rightarrow> (claimStatusDeviceKey, nat list) gomap \<Rightarrow> AllocatedDeviceStatus list \<Rightarrow> (claimStatusDeviceKey, nat list) gomap" where
  "build_index idx index [] = index"
| "build_index idx index (device # devices) = build_index (Suc idx) (mappend index (status_key device) idx) devices"

definition buildClaimStatusDeviceIndex :: "ResourceClaim \<Rightarrow> (claimStatusDeviceKey, nat list) gomap" where
  "buildClaimStatusDeviceIndex claim = build_index 0 [] (claim_Devices claim)"

text \<open>The loop over the indexes. Out of range it panics; the caller only passes positions of the list.\<close>

fun set_status :: "NetworkDeviceData option \<Rightarrow> string res \<Rightarrow> nat list \<Rightarrow> AllocatedDeviceStatus list \<Rightarrow> AllocatedDeviceStatus list res" where
  "set_status nd raw [] ds = Ok ds"
| "set_status nd raw (i # is) ds =
     (if i < length ds then
        set_status nd raw is (ds[i := (let d = (ds ! i)\<lparr>ads_NetworkData := nd\<rparr> in case raw of Ok t \<Rightarrow> d\<lparr>ads_Data := Some t\<rparr> | _ \<Rightarrow> d)])
      else Panic ''index out of range'')"

definition updateClaimDeviceStatus :: "'w Plugin \<Rightarrow> ResourceClaim \<Rightarrow> (claimStatusDeviceKey, nat list) gomap \<Rightarrow> PreparedDevice \<Rightarrow>
    NetworkDataChanStruct \<Rightarrow> (bool \<times> ResourceClaim) res" where
  "updateClaimDeviceStatus pl claim statusDeviceIndex p item =
     (let key = \<lparr>sk_driver = DriverName, sk_pool = pd_PoolName p, sk_device = pd_DeviceName p\<rparr> in
      case mget statusDeviceIndex key of
        None \<Rightarrow> Ok (False, claim)
      | Some deviceIndexes \<Rightarrow>
          let raw = p_combined pl (pd_Config p) (nc_CNIConfig item) (nc_CNIResult item) in
          bind_res (set_status (nc_NetworkDeviceData item) raw deviceIndexes (claim_Devices claim))
            (\<lambda>ds. Ok (True, claim\<lparr>claim_Devices := ds\<rparr>)))"

definition updateClaimNetworkDataWithRetry :: "'w Plugin \<Rightarrow> ResourceClaim \<Rightarrow> 'w \<Rightarrow> error option \<times> 'w" where
  "updateClaimNetworkDataWithRetry p claim w =
     UpdateClaimStatusWithRetry (p_errors p) (p_backoff p) (p_ctxErr p) (p_claims p (claim_Namespace claim)) claim DriverName w"

text \<open>The entries of one claim: persist, then update the status in the claim object.\<close>

fun update_items :: "'w Plugin \<Rightarrow> (claimStatusDeviceKey, nat list) gomap \<Rightarrow> bool \<Rightarrow> ResourceClaim \<Rightarrow> NetworkDataChanStructList \<Rightarrow>
    PodManager \<Rightarrow> 'w \<Rightarrow> ((bool \<times> ResourceClaim) res \<times> PodManager) \<times> 'w" where
  "update_items pl index has claim [] s w = ((Ok (has, claim), s), w)"
| "update_items pl index has claim (item # items) s w =
     (case item_device (pm_heap s) item of
        None \<Rightarrow> update_items pl index has claim items s w
      | Some p \<Rightarrow>
          (case UpdatePreparedDeviceNetworkData (p_cm pl) s (nc_PreparedDevice (the item)) (nc_NetworkDeviceData (the item)) w of
             ((Err e, s'), w') \<Rightarrow> update_items pl index has claim items s' w'
           | ((Panic x, s'), w') \<Rightarrow> ((Panic x, s'), w')
           | ((Ok _, s'), w') \<Rightarrow>
               (case updateClaimDeviceStatus pl claim index p (the item) of
                  Ok (b, claim') \<Rightarrow> update_items pl index (has \<or> b) claim' items s' w'
                | Err e \<Rightarrow> ((Err e, s'), w')
                | Panic x \<Rightarrow> ((Panic x, s'), w'))))"

fun update_claims :: "'w Plugin \<Rightarrow> (networkClaimKey, NetworkDataChanStructList) gomap \<Rightarrow> PodManager \<Rightarrow> 'w \<Rightarrow> (unit res \<times> PodManager) \<times> 'w" where
  "update_claims pl [] s w = ((Ok (), s), w)"
| "update_claims pl ((claimKey, claimUpdates) # groups) s w =
     (case p_getClaim pl (nk_namespace claimKey) (nk_name claimKey) w of
        Err e \<Rightarrow> update_claims pl groups s w
      | Panic x \<Rightarrow> ((Panic x, s), w)
      | Ok claim \<Rightarrow>
          if nk_uid claimKey \<noteq> [] \<and> claim_UID claim \<noteq> nk_uid claimKey then update_claims pl groups s w
          else
     (case update_items pl (buildClaimStatusDeviceIndex claim) False claim claimUpdates s w of
        ((Err e, s1), w1) \<Rightarrow> ((Err e, s1), w1)
      | ((Panic x, s1), w1) \<Rightarrow> ((Panic x, s1), w1)
      | ((Ok (has, claim'), s1), w1) \<Rightarrow>
          if \<not> has then update_claims pl groups s1 w1
          else update_claims pl groups s1 (snd (updateClaimNetworkDataWithRetry pl claim' w1))))"

definition updateNetworkDeviceData :: "'w Plugin \<Rightarrow> NetworkDataChanStructList \<Rightarrow> PodManager \<Rightarrow> 'w \<Rightarrow> (unit res \<times> PodManager) \<times> 'w" where
  "updateNetworkDeviceData pl items s w = update_claims pl (p_range_groups pl (groupNetworkDataByClaim (pm_heap s) items)) s w"

section \<open>Lemmas: grouping and indexing\<close>

lemma mget_mappend: "mget (mappend m k v) k' = (if k' = k then Some ((case mget m k of None \<Rightarrow> [] | Some vs \<Rightarrow> vs) @ [v]) else mget m k')"
  by (simp add: mappend_def)

text \<open>What appending all of a list by keys leaves in a map.\<close>

definition extend :: "'v list option \<Rightarrow> 'v list \<Rightarrow> 'v list option" where
  "extend old new = (if new = [] then old else Some ((case old of None \<Rightarrow> [] | Some vs \<Rightarrow> vs) @ new))"

lemma extend_simps [simp]: "extend old [] = old" "extend None xs = (if xs = [] then None else Some xs)"
  "extend (Some ((case old of None \<Rightarrow> [] | Some vs \<Rightarrow> vs) @ [v])) xs = extend old (v # xs)"
  by (simp_all add: extend_def)

lemma group_items_lookup:
  "mget (group_items h g items) k = extend (mget g k) (filter (\<lambda>i. map_option claim_key (item_device h i) = Some k) items)"
  by (induction items arbitrary: g) (auto simp: mget_mappend split: option.split)

lemma build_index_lookup:
  "mget (build_index n index ds) k = extend (mget index k) (filter (\<lambda>i. status_key (ds ! (i - n)) = k) [n..<n + length ds])"
proof (induction ds arbitrary: n index)
  case (Cons d ds)
  have up: "[n..<n + length (d # ds)] = n # [Suc n..<Suc n + length ds]" by (simp add: upt_conv_Cons del: upt_Suc)
  have "filter (\<lambda>i. status_key (ds ! (i - Suc n)) = k) [Suc n..<Suc n + length ds] =
      filter (\<lambda>i. status_key ((d # ds) ! (i - n)) = k) [Suc n..<Suc n + length ds]"
    by (rule filter_cong) (auto simp: nth_Cons')
  then show ?case unfolding up by (simp add: Cons.IH mget_mappend)
qed simp

definition positions :: "(AllocatedDeviceStatus list) \<Rightarrow> claimStatusDeviceKey \<Rightarrow> nat list" where
  "positions ds k = filter (\<lambda>i. status_key (ds ! i) = k) [0..<length ds]"

lemma index_lookup:
  "mget (buildClaimStatusDeviceIndex claim) k = (let is = positions (claim_Devices claim) k in if is = [] then None else Some is)"
  by (simp add: buildClaimStatusDeviceIndex_def build_index_lookup positions_def Let_def)

text \<open>The new entry of a device, and the loop over its positions as a map.\<close>

definition with_network :: "NetworkDeviceData option \<Rightarrow> string res \<Rightarrow> AllocatedDeviceStatus \<Rightarrow> AllocatedDeviceStatus" where
  "with_network nd raw d = (case raw of Ok t \<Rightarrow> d\<lparr>ads_NetworkData := nd, ads_Data := Some t\<rparr> | _ \<Rightarrow> d\<lparr>ads_NetworkData := nd\<rparr>)"

lemma with_network_keys [simp]: "status_key (with_network nd raw d) = status_key d" "keyOf (with_network nd raw d) = keyOf d"
  "ads_Driver (with_network nd raw d) = ads_Driver d"
  by (simp_all add: with_network_def status_key_def keyOf_def split: res.split)

lemma set_status_eq:
  assumes "\<forall>i \<in> set is. i < length ds" "distinct is"
  shows "set_status nd raw is ds = Ok (map (\<lambda>i. if i \<in> set is then with_network nd raw (ds ! i) else ds ! i) [0..<length ds])"
  using assms
proof (induction "is" arbitrary: ds)
  case Nil
  then show ?case by (simp add: map_nth)
next
  case (Cons i "is")
  have step: "set_status nd raw (i # is) ds = set_status nd raw is (ds[i := with_network nd raw (ds ! i)])"
    using Cons.prems(1) by (simp add: with_network_def Let_def split: res.split)
  show ?case
    unfolding step using Cons by (auto simp: nth_list_update intro!: nth_equalityI)
qed

lemma set_status_positions:
  "set_status nd raw (positions ds k) ds = Ok (map (\<lambda>d. if status_key d = k then with_network nd raw d else d) ds)"
  by (subst set_status_eq) (auto simp: positions_def intro: nth_equalityI)

text \<open>An index that fits the devices of a claim: also after its entries got network data.\<close>

definition index_fits :: "(claimStatusDeviceKey, nat list) gomap \<Rightarrow> ResourceClaim \<Rightarrow> bool" where
  "index_fits index claim \<longleftrightarrow> (\<forall>k. mget index k = (let is = positions (claim_Devices claim) k in if is = [] then None else Some is))"

lemma positions_cong:
  assumes "map status_key ds = map status_key ds'" shows "positions ds k = positions ds' k"
proof -
  have len: "length ds = length ds'" by (rule map_eq_imp_length_eq[OF assms])
  have "status_key (ds ! i) = status_key (ds' ! i)" if "i < length ds'" for i
    using arg_cong[OF assms, of "\<lambda>xs. xs ! i"] that len by simp
  then show ?thesis unfolding positions_def len by (intro filter_cong) simp_all
qed

definition device_key :: "PreparedDevice \<Rightarrow> claimStatusDeviceKey" where
  "device_key p = \<lparr>sk_driver = DriverName, sk_pool = pd_PoolName p, sk_device = pd_DeviceName p\<rparr>"

definition merge_network :: "'w Plugin \<Rightarrow> PreparedDevice \<Rightarrow> NetworkDataChanStruct \<Rightarrow> AllocatedDeviceStatus list \<Rightarrow> AllocatedDeviceStatus list" where
  "merge_network pl p item ds = map (\<lambda>d. if status_key d = device_key p
      then with_network (nc_NetworkDeviceData item) (p_combined pl (pd_Config p) (nc_CNIConfig item) (nc_CNIResult item)) d else d) ds"

lemma merge_network_keys [simp]: "map status_key (merge_network pl p item ds) = map status_key ds" "map keyOf (merge_network pl p item ds) = map keyOf ds"
  by (simp_all add: merge_network_def comp_def cong: map_cong)

lemma positions_Nil: "positions ds k = [] \<longleftrightarrow> (\<forall>d \<in> set ds. status_key d \<noteq> k)"
  by (auto simp: positions_def filter_empty_conv all_set_conv_all_nth)

lemma update_status_eq:
  assumes "index_fits index claim"
  shows "updateClaimDeviceStatus pl claim index p item = Ok (device_key p \<in> status_key ` set (claim_Devices claim),
     claim\<lparr>claim_Devices := merge_network pl p item (claim_Devices claim)\<rparr>)"
proof (cases "positions (claim_Devices claim) (device_key p) = []")
  case True
  then have "merge_network pl p item (claim_Devices claim) = claim_Devices claim"
    unfolding positions_Nil merge_network_def by (intro map_idI) simp
  moreover have "device_key p \<notin> status_key ` set (claim_Devices claim)" using True unfolding positions_Nil by auto
  ultimately show ?thesis
    using assms True by (simp add: updateClaimDeviceStatus_def index_fits_def device_key_def)
next
  case False
  then have "device_key p \<in> status_key ` set (claim_Devices claim)" unfolding positions_Nil by (metis imageI)
  then show ?thesis
    using assms False set_status_positions[of _ _ "claim_Devices claim" "device_key p"]
    by (simp add: updateClaimDeviceStatus_def index_fits_def device_key_def merge_network_def)
qed

lemma index_fits_build: "index_fits (buildClaimStatusDeviceIndex claim) claim"
  by (simp add: index_fits_def index_lookup)

lemma index_fits_merge: "index_fits index claim \<Longrightarrow> index_fits index (claim\<lparr>claim_Devices := merge_network pl p item (claim_Devices claim)\<rparr>)"
  by (simp add: index_fits_def positions_cong[OF merge_network_keys(1)])

section \<open>Lemmas: request metadata\<close>

text \<open>Go visits every entry of a map once.\<close>

definition visits_all :: "(('k, 'v) gomap \<Rightarrow> ('k, 'v) gomap) \<Rightarrow> bool" where
  "visits_all visit \<longleftrightarrow> (\<forall>m. mset (visit m) = mset m)"

text \<open>What a list asks for: one entry per device and request name, in the order of the list.\<close>

definition request_entries :: "PreparedDevice list \<Rightarrow> NetworkDataChanStructList \<Rightarrow> (requestMetadataKey \<times> UID \<times> KubeletDevice) list" where
  "request_entries h items = concat (map (\<lambda>item. case item_device h item of
       None \<Rightarrow> []
     | Some p \<Rightarrow> map (\<lambda>r. (\<lparr>rk_claimNamespace = no_Namespace (pd_Claim p), rk_claimName = no_Name (pd_Claim p), rk_requestName = r\<rparr>,
         no_UID (pd_Claim p), ToKubeletPluginDevice p (nc_NetworkDeviceData (the item)))) (pd_RequestNames p)) items)"

text \<open>The last UID that is not empty, or the empty one.\<close>

definition last_uid :: "UID list \<Rightarrow> UID" where
  "last_uid us = (case find (\<lambda>u. u \<noteq> []) (rev us) of None \<Rightarrow> [] | Some u \<Rightarrow> u)"

definition request_update :: "(requestMetadataKey \<times> UID \<times> KubeletDevice) list \<Rightarrow> requestMetadataKey \<Rightarrow> requestMetadataUpdate option" where
  "request_update es k = (let own = filter (\<lambda>e. fst e = k) es in
     if own = [] then None else Some \<lparr>ru_claimUID = last_uid (map (fst \<circ> snd) own), ru_devices = map (snd \<circ> snd) own\<rparr>)"

definition add_entry :: "(requestMetadataKey, requestMetadataUpdate) gomap \<Rightarrow> requestMetadataKey \<times> UID \<times> KubeletDevice \<Rightarrow>
    (requestMetadataKey, requestMetadataUpdate) gomap" where
  "add_entry m e = (case e of (k, uid, dev) \<Rightarrow> mput m k
     (case mget m k of
        None \<Rightarrow> \<lparr>ru_claimUID = uid, ru_devices = [dev]\<rparr>
      | Some u \<Rightarrow> \<lparr>ru_claimUID = (if uid \<noteq> [] then uid else ru_claimUID u), ru_devices = ru_devices u @ [dev]\<rparr>))"

lemma last_uid_simps [simp]: "last_uid [] = []" "last_uid [u] = u" "last_uid (us @ [u]) = (if u \<noteq> [] then u else last_uid us)"
  by (simp_all add: last_uid_def)

lemma add_request_entry:
  "add_request c dev m r = add_entry m (\<lparr>rk_claimNamespace = no_Namespace c, rk_claimName = no_Name c, rk_requestName = r\<rparr>, no_UID c, dev)"
  by (auto simp: add_request_def add_entry_def Let_def split: option.split
      intro!: arg_cong[where f = "\<lambda>v. mput m K v" for K] requestMetadataUpdate.equality)

lemma build_updates_entries: "build_updates h m items = foldl add_entry m (request_entries h items)"
proof (induction items arbitrary: m)
  case (Cons item items)
  have "foldl (add_request c dev) m rs = foldl add_entry m (map (\<lambda>r. (\<lparr>rk_claimNamespace = no_Namespace c, rk_claimName = no_Name c,
      rk_requestName = r\<rparr>, no_UID c, dev)) rs)" for c dev rs m
    by (simp add: foldl_map flip: add_request_entry)
  with Cons show ?case by (auto simp: request_entries_def split: option.split)
qed (simp add: request_entries_def)

lemma add_entries_lookup: "mget (foldl add_entry [] es) k = request_update es k"
proof (induction es rule: rev_induct)
  case (snoc e es)
  obtain k' uid dev where e: "e = (k', uid, dev)" by (metis prod.exhaust)
  have "mget (add_entry m e) k = (if k = k' then Some (case mget m k of
        None \<Rightarrow> \<lparr>ru_claimUID = uid, ru_devices = [dev]\<rparr>
      | Some u \<Rightarrow> \<lparr>ru_claimUID = (if uid \<noteq> [] then uid else ru_claimUID u), ru_devices = ru_devices u @ [dev]\<rparr>) else mget m k)" for m
    by (simp add: add_entry_def e)
  note step = this[of "foldl add_entry [] es", unfolded snoc.IH]
  show ?case unfolding foldl_append foldl.simps step by (simp add: request_update_def e Let_def)
qed (simp add: request_update_def)

lemma add_entries_wf: "wf_map (foldl add_entry [] es)"
  by (induction es rule: rev_induct) (auto simp: add_entry_def split: prod.split)

lemma wf_map_mset: "mset m' = mset m \<Longrightarrow> wf_map m \<Longrightarrow> wf_map m' \<and> map_of m' = map_of m"
  unfolding wf_map_def by (metis distinct_map map_of_inject_set mset_eq_imp_distinct_iff mset_eq_setD mset_map)

lemma visits_all_map: "visits_all visit \<Longrightarrow> wf_map m \<Longrightarrow> wf_map (visit m) \<and> map_of (visit m) = map_of m"
  using wf_map_mset by (auto simp: visits_all_def)

text \<open>An updater that records its calls.\<close>

definition recording :: "'w MetadataUpdater \<Rightarrow> ('w \<times> (requestMetadataKey, requestMetadataUpdate) gomap) MetadataUpdater" where
  "recording u ns n uid r ds w = (case w of (w, log) \<Rightarrow> let (x, w') = u ns n uid r ds w in
     (x, (w', log @ [(\<lparr>rk_claimNamespace = ns, rk_claimName = n, rk_requestName = r\<rparr>, \<lparr>ru_claimUID = uid, ru_devices = ds\<rparr>)])))"

lemma apply_metadata_records:
  assumes on: "p_enableDeviceMetadata p" "p_metadataUpdater p = Some (recording u)"
  shows "\<forall>k up. (k, up) \<in> set m \<longrightarrow> ru_devices up \<noteq> [] \<Longrightarrow> apply_metadata p m (w, log) = (r, (w', log')) \<Longrightarrow>
    \<exists>don rest. m = don @ rest \<and> log' = log @ don \<and> (r = Ok () \<longrightarrow> rest = [])"
proof (induction m arbitrary: w log)
  case (Cons e m)
  obtain k up where e: "e = (k, up)" by (metis prod.exhaust)
  have key: "\<lparr>rk_claimNamespace = rk_claimNamespace k, rk_claimName = rk_claimName k, rk_requestName = rk_requestName k\<rparr> = k"
      "\<lparr>ru_claimUID = ru_claimUID up, ru_devices = ru_devices up\<rparr> = up" by simp_all
  have up: "ru_devices up \<noteq> []" using Cons.prems(1) e by simp
  obtain y v where "u (rk_claimNamespace k) (rk_claimName k) (ru_claimUID up) (rk_requestName k) (ru_devices up) w = (y, v)" by (metis prod.exhaust)
  then obtain x w1 where x: "updateDeviceMetadata p k up (w, log) = (x, (w1, log @ [e]))"
    using on up by (simp add: e key updateDeviceMetadata_def recording_def Let_def)
  show ?case
  proof (cases x)
    case (Ok y)
    then have "apply_metadata p m (w1, log @ [e]) = (r, (w', log'))" using Cons.prems(2) x by (simp add: e)
    from Cons.IH[OF _ this] Cons.prems(1) obtain don rest where "m = don @ rest" "log' = log @ e # don" "r = Ok () \<longrightarrow> rest = []" by auto
    then show ?thesis by (intro exI[of _ "e # don"] exI[of _ rest]) simp
  qed (rule exI[of _ "[e]"], use Cons.prems(2) x in \<open>auto simp: e\<close>)+
qed simp

lemma request_update_devices: "request_update es k = Some u \<Longrightarrow> ru_devices u \<noteq> []"
  by (auto simp: request_update_def Let_def split: if_splits)

section \<open>Lemmas: attaching\<close>

lemma metadata_keeps:
  assumes "\<And>u ns n uid r ds w. p_metadataUpdater p = Some u \<Longrightarrow> f (snd (u ns n uid r ds w)) = f w"
  shows "f (snd (updateRequestMetadataBeforeSandboxStart p h items w)) = f w"
proof -
  have 1: "f (snd (updateDeviceMetadata p k up w)) = f w" for k up w
    using assms by (auto simp: updateDeviceMetadata_def Let_def split: option.split prod.split) (metis snd_conv)
  have "f (snd (apply_metadata p m w)) = f w" for m w
  proof (induction m arbitrary: w)
    case (Cons e m)
    obtain k up where e: "e = (k, up)" by (metis prod.exhaust)
    show ?case using 1[of k up w] Cons by (auto simp: e bind_io_def split: prod.split res.split)
  qed simp
  then show ?thesis by (simp add: updateRequestMetadataBeforeSandboxStart_def Let_def)
qed

text \<open>Two states in which a pod has the same prepared devices, apart from their network data and the order in which
  Go visits the claims.\<close>

definition without_network :: "PreparedDevice \<Rightarrow> PreparedDevice" where
  "without_network d = d\<lparr>pd_NetworkDeviceData := None\<rparr>"

definition same_prepared :: "PodManager \<Rightarrow> PodManager \<Rightarrow> UID \<Rightarrow> bool" where
  "same_prepared s s' uid \<longleftrightarrow> (\<exists>refs refs'. GetDevicesByPodUID s uid = Some refs \<and> GetDevicesByPodUID s' uid = Some refs' \<and>
     mset (map (map_option without_network \<circ> deref (pm_heap s)) refs) = mset (map (map_option without_network \<circ> deref (pm_heap s')) refs'))"

lemma same_devices:
  assumes "map (deref h) refs = map Some ds" "map (deref h') refs' = map Some ds'"
    and "mset (map (map_option without_network \<circ> deref h) refs) = mset (map (map_option without_network \<circ> deref h') refs')"
  shows "mset (map without_network ds') = mset (map without_network ds)"
proof -
  have "map (map_option without_network \<circ> deref h) refs = map Some (map without_network ds)"
    using arg_cong[OF assms(1), of "map (map_option without_network)"] by (simp add: comp_def)
  moreover have "map (map_option without_network \<circ> deref h') refs' = map Some (map without_network ds')"
    using arg_cong[OF assms(2), of "map (map_option without_network)"] by (simp add: comp_def)
  ultimately have "mset (map Some (map without_network ds)) = mset (map Some (map without_network ds'))"
    using assms(3) by (simp only:)
  from arg_cong[OF this, of "image_mset the"] show ?thesis by (simp add: comp_def flip: mset_map)
qed

text \<open>What the hooks rely on of a CNI runtime: which calls of the CNI library an attach and a detach make, and that a
  successful attach makes one.\<close>

locale network_runtime =
  fixes attach :: "PodSandbox \<Rightarrow> string \<Rightarrow> PreparedDevice \<Rightarrow> 'w \<Rightarrow> (NetworkDeviceData option \<times> json_map \<times> error option) res \<times> 'w"
    and detach :: "PodSandbox \<Rightarrow> string \<Rightarrow> PreparedDevice \<Rightarrow> 'w \<Rightarrow> unit res \<times> 'w"
    and calls :: "'w \<Rightarrow> 'k list" and att :: "PodSandbox \<Rightarrow> string \<Rightarrow> PreparedDevice \<Rightarrow> 'k list"
    and det :: "PodSandbox \<Rightarrow> string \<Rightarrow> PreparedDevice \<Rightarrow> 'k list"
  assumes attach_calls: "calls (snd (attach pod ns d w)) = calls w @ att pod ns d"
    and attach_once: "attach pod ns d w = (Ok (nd, m, None), w') \<Longrightarrow> length (att pod ns d) = 1"
    and detach_calls: "calls (snd (detach pod ns d w)) = calls w @ det pod ns d"
begin

lemma attach_all_Ok:
  assumes rt: "cn_AttachNetwork (p_cniRuntime p) = attach" and "attach_all p h pod ns acc rs w = (Ok items, w')"
  shows "\<exists>new ds. items = acc @ map Some new \<and> map nc_PreparedDevice new = rs \<and> map (deref h) rs = map Some ds \<and>
    calls w' = calls w @ concat (map (att pod ns) ds) \<and> length (concat (map (att pod ns) ds)) = length rs"
  using assms(2)
proof (induction rs arbitrary: acc w)
  case (Cons r rs)
  obtain d nd m w1 where d: "deref h r = Some d" "attach pod ns d w = (Ok (nd, m, None), w1)"
    and rest: "attach_all p h pod ns (acc @ [Some \<lparr>nc_PreparedDevice = r, nc_NetworkDeviceData = nd,
      nc_CNIConfig = cni_config_map (p_json p) (pd_NetAttachDefConfig d), nc_CNIResult = m\<rparr>]) rs w1 = (Ok items, w')"
    using Cons.prems rt by (auto split: option.splits prod.splits res.splits)
  have w1: "calls w1 = calls w @ att pod ns d" "length (att pod ns d) = 1"
    using attach_calls[of pod ns d w] attach_once[OF d(2)] d(2) by simp_all
  from Cons.IH[OF rest] obtain new ds where
    "items = (acc @ [Some \<lparr>nc_PreparedDevice = r, nc_NetworkDeviceData = nd,
        nc_CNIConfig = cni_config_map (p_json p) (pd_NetAttachDefConfig d), nc_CNIResult = m\<rparr>]) @ map Some new"
    "map nc_PreparedDevice new = rs" "map (deref h) rs = map Some ds"
    "calls w' = calls w1 @ concat (map (att pod ns) ds)" "length (concat (map (att pod ns) ds)) = length rs" by blast
  with d w1 show ?case
    by (intro exI[of _ "\<lparr>nc_PreparedDevice = r, nc_NetworkDeviceData = nd,
        nc_CNIConfig = cni_config_map (p_json p) (pd_NetAttachDefConfig d), nc_CNIResult = m\<rparr> # new"] exI[of _ "d # ds"]) simp
qed simp

lemma detach_all_Ok:
  assumes rt: "cn_DetachNetwork (p_cniRuntime p) = detach" and "detach_all p h pod ns rs w = (Ok (), w')"
  shows "\<exists>ds. map (deref h) rs = map Some ds \<and> calls w' = calls w @ concat (map (det pod ns) ds)"
  using assms(2)
proof (induction rs arbitrary: w)
  case (Cons r rs)
  obtain d w1 where d: "deref h r = Some d" "detach pod ns d w = (Ok (), w1)" and rest: "detach_all p h pod ns rs w1 = (Ok (), w')"
    using Cons.prems rt by (auto split: option.splits prod.splits res.splits)
  from Cons.IH[OF rest] obtain ds where "map (deref h) rs = map Some ds" "calls w' = calls w1 @ concat (map (det pod ns) ds)" by blast
  with d detach_calls[of pod ns d w] show ?case by (intro exI[of _ "d # ds"]) simp
qed simp

text \<open>A start and a stop of a sandbox whose devices stay prepared.\<close>

lemma sandbox_calls:
  assumes rt: "cn_AttachNetwork (p_cniRuntime p) = attach" "cn_DetachNetwork (p_cniRuntime p) = detach"
    and upd: "\<forall>u ns n uid r ds w. p_metadataUpdater p = Some u \<longrightarrow> calls (snd (u ns n uid r ds w)) = calls w"
    and same: "same_prepared s s' (pod_Uid pod)"
    and start: "RunPodSandbox p s pod w = ((Ok (), Some items), w1)" and stop: "StopPodSandbox p s' pod v = (Ok (), v1)"
  shows "\<exists>refs new ds ds'. GetDevicesByPodUID s (pod_Uid pod) = Some refs \<and> map (deref (pm_heap s)) refs = map Some ds \<and>
    items = map Some new \<and> map nc_PreparedDevice new = refs \<and>
    calls w1 = calls w @ concat (map (att pod (getNetworkNamespace pod)) ds) \<and>
    length (concat (map (att pod (getNetworkNamespace pod)) ds)) = length refs \<and>
    calls v1 = calls v @ concat (map (det pod (getNetworkNamespace pod)) ds') \<and>
    mset (map without_network ds') = mset (map without_network ds)"
proof -
  obtain refs refs' where refs: "GetDevicesByPodUID s (pod_Uid pod) = Some refs" "GetDevicesByPodUID s' (pod_Uid pod) = Some refs'"
    and eq: "mset (map (map_option without_network \<circ> deref (pm_heap s)) refs) = mset (map (map_option without_network \<circ> deref (pm_heap s')) refs')"
    using same by (auto simp: same_prepared_def)
  have ns: "getNetworkNamespace pod \<noteq> []"
    using start refs(1) by (auto simp: RunPodSandbox_def Let_def split: if_splits)
  have keeps: "calls (snd (updateRequestMetadataBeforeSandboxStart p h its w)) = calls w" for h its w
    by (rule metadata_keeps) (use upd in blast)
  obtain wa where att: "attach_all p (pm_heap s) pod (getNetworkNamespace pod) [] refs w = (Ok items, wa)" "calls w1 = calls wa"
    using start refs(1) keeps[of "pm_heap s" items]
    by (auto simp: RunPodSandbox_def Let_def split: prod.splits res.splits if_splits) (metis snd_conv)
  from attach_all_Ok[OF rt(1) att(1)] obtain new ds where on: "items = map Some new" "map nc_PreparedDevice new = refs"
    "map (deref (pm_heap s)) refs = map Some ds" "calls wa = calls w @ concat (map (att pod (getNetworkNamespace pod)) ds)"
    "length (concat (map (att pod (getNetworkNamespace pod)) ds)) = length refs" by auto
  have "detach_all p (pm_heap s') pod (getNetworkNamespace pod) refs' v = (Ok (), v1)"
    using stop refs(2) ns by (simp add: StopPodSandbox_def Let_def)
  from detach_all_Ok[OF rt(2) this] obtain ds' where off: "map (deref (pm_heap s')) refs' = map Some ds'"
    "calls v1 = calls v @ concat (map (det pod (getNetworkNamespace pod)) ds')" by auto
  show ?thesis using refs(1) on off att(2) same_devices[OF on(3) off(1) eq] by (metis append_Nil)
qed

end

text \<open>The runtime of \<^verbatim>\<open>pkg/cni\<close> behind the interface.\<close>

definition cni_runtime :: "('c, 'r, 'w) Runtime \<Rightarrow> 'w CniRuntime" where
  "cni_runtime rntm = \<lparr>cn_AttachNetwork = AttachNetwork rntm, cn_DetachNetwork = DetachNetwork rntm\<rparr>"

interpretation cni: network_runtime "AttachNetwork (Cni.recording rntm)" "DetachNetwork (Cni.recording rntm)" snd "added_for rntm"
    "\<lambda>pod ns d. map deleted (added_for rntm pod ns d)" for rntm :: "('c, 'r, 'w) Runtime"
  by unfold_locales (simp_all add: recorded_calls attached_once)

lemma added_for_without_network [simp]: "added_for rntm pod ns (without_network d) = added_for rntm pod ns d"
proof -
  have "plugin_conf rntm (without_network d) = plugin_conf rntm d" "runtime_conf pod ns (without_network d) = runtime_conf pod ns d"
    by (simp_all add: plugin_conf_def runtime_conf_def without_network_def)
  then show ?thesis by (simp add: added_for_def split: res.split)
qed

lemma mset_concat_map: "mset xs = mset ys \<Longrightarrow> mset (concat (map f xs)) = mset (concat (map f ys))"
  unfolding mset_concat by (metis mset_map sum_mset_sum_list)

section \<open>Properties\<close>

text \<open>C28. The indexed update of a claim's status is the plain scan: with the index built from the claim, the call never
  goes out of range, sets network data and combined data on exactly the statuses of this driver with the device's pool
  and name, leaves every other status as it is, and reports whether there was one.\<close>

theorem updateClaimDeviceStatus_scan:
  "updateClaimDeviceStatus pl claim (buildClaimStatusDeviceIndex claim) p item =
     Ok (\<exists>d. d \<in> set (claim_Devices claim) \<and> ads_Driver d = DriverName \<and> ads_Pool d = pd_PoolName p \<and> ads_Device d = pd_DeviceName p,
       claim\<lparr>claim_Devices := map (\<lambda>d. if ads_Driver d = DriverName \<and> ads_Pool d = pd_PoolName p \<and> ads_Device d = pd_DeviceName p
           then (case p_combined pl (pd_Config p) (nc_CNIConfig item) (nc_CNIResult item) of
               Ok raw \<Rightarrow> d\<lparr>ads_NetworkData := nc_NetworkDeviceData item, ads_Data := Some raw\<rparr>
             | _ \<Rightarrow> d\<lparr>ads_NetworkData := nc_NetworkDeviceData item\<rparr>)
           else d) (claim_Devices claim)\<rparr>)"
proof -
  have key: "status_key d = device_key p \<longleftrightarrow> ads_Driver d = DriverName \<and> ads_Pool d = pd_PoolName p \<and> ads_Device d = pd_DeviceName p" for d
    by (auto simp: status_key_def device_key_def)
  have mem: "device_key p \<in> status_key ` set ds \<longleftrightarrow>
      (\<exists>d. d \<in> set ds \<and> ads_Driver d = DriverName \<and> ads_Pool d = pd_PoolName p \<and> ads_Device d = pd_DeviceName p)" for ds
    unfolding key[symmetric] by force
  show ?thesis unfolding update_status_eq[OF index_fits_build] mem merge_network_def with_network_def key ..
qed

text \<open>C25. The kubelet's metadata before a sandbox starts. Without device metadata (the flag is off, as it is by default, or there is no
  updater) the step succeeds and calls nothing. With it, the step calls the updater at most once for every claim and request of the pod's
  devices, each time with all devices of that request in their order and the last UID recorded for the claim, whatever
  order Go visits the requests in; and when it reports success, it has done so for all of them.\<close>

theorem request_metadata_complete:
  assumes upd: "p_metadataUpdater p \<in> {None, Some (recording u)}" and visits: "visits_all (p_range_updates p)"
    and run: "updateRequestMetadataBeforeSandboxStart p h items (w, []) = (r, (w', calls))"
  shows "(\<not> p_enableDeviceMetadata p \<or> p_metadataUpdater p = None \<longrightarrow> r = Ok () \<and> calls = []) \<and>
    (p_enableDeviceMetadata p \<and> p_metadataUpdater p \<noteq> None \<longrightarrow>
      distinct (map fst calls) \<and> map_of calls \<subseteq>\<^sub>m request_update (request_entries h items) \<and>
      (r = Ok () \<longrightarrow> map_of calls = request_update (request_entries h items)))"
proof (cases "p_enableDeviceMetadata p \<and> p_metadataUpdater p \<noteq> None")
  case True
  then have on: "p_enableDeviceMetadata p" "p_metadataUpdater p = Some (recording u)" using upd by auto
  define m where "m = buildRequestMetadataUpdates h items"
  have m: "wf_map m" "mget m = request_update (request_entries h items)"
    by (simp_all add: m_def buildRequestMetadataUpdates_def build_updates_entries add_entries_wf add_entries_lookup fun_eq_iff)
  note range = visits_all_map[OF visits m(1)]
  have "ru_devices up \<noteq> []" if "(k, up) \<in> set (p_range_updates p m)" for k up
    using that range m(2) by (metis map_of_in_set request_update_devices)
  then have "\<exists>don rest. p_range_updates p m = don @ rest \<and> calls = don \<and> (r = Ok () \<longrightarrow> rest = [])" if "m \<noteq> []"
    using apply_metadata_records[OF on, of "p_range_updates p m" w "[]" r w' calls] run on that
    by (simp add: updateRequestMetadataBeforeSandboxStart_def m_def[symmetric] Let_def)
  moreover have "calls = []" if "m = []"
    using run on that by (simp add: updateRequestMetadataBeforeSandboxStart_def m_def[symmetric] Let_def)
  moreover have "p_range_updates p m = []" if "m = []" using visits that unfolding visits_all_def by (metis mset_zero_iff)
  ultimately obtain rest where calls: "p_range_updates p m = calls @ rest" "r = Ok () \<longrightarrow> rest = []" by blast
  have d: "distinct (map fst (calls @ rest))" using range calls(1) by (simp add: wf_map_def)
  have "map_of calls \<subseteq>\<^sub>m map_of (calls @ rest)" by (simp add: map_le_map_add)
  then show ?thesis using True d calls(2) range m(2) unfolding calls(1) by (auto simp del: map_of_append)
next
  case False
  then show ?thesis using run by (auto simp: updateRequestMetadataBeforeSandboxStart_def)
qed

text \<open>C24. A sandbox with the CNI runtime that starts, and stops while its devices are still prepared (their network data
  may have been filled in, and Go may visit the claims in another order): the start asks the CNI library to add one
  network for each device of the pod, in the pod's network namespace, and hands one entry for each device to the
  goroutine; the stop asks it to delete exactly the networks that were added.\<close>

theorem sandbox_attach_detach:
  fixes p :: "('w \<times> 'c call list) Plugin" and rntm :: "('c, 'r, 'w) Runtime"
  assumes rt: "p_cniRuntime p = cni_runtime (Cni.recording rntm)"
    and upd: "\<forall>u ns n uid r ds w. p_metadataUpdater p = Some u \<longrightarrow> snd (snd (u ns n uid r ds w)) = snd w"
    and same: "same_prepared s s' (pod_Uid pod)"
    and start: "RunPodSandbox p s pod (w, []) = ((Ok (), Some items), (w1, added))"
    and stop: "StopPodSandbox p s' pod (v, []) = (Ok (), (v1, removed))"
  shows "\<exists>refs new ds. GetDevicesByPodUID s (pod_Uid pod) = Some refs \<and> map (deref (pm_heap s)) refs = map Some ds \<and>
    items = map Some new \<and> map nc_PreparedDevice new = refs \<and>
    added = concat (map (added_for rntm pod (getNetworkNamespace pod)) ds) \<and> length added = length refs \<and>
    mset removed = mset (map deleted added)"
proof -
  have f: "cn_AttachNetwork (p_cniRuntime p) = AttachNetwork (Cni.recording rntm)" "cn_DetachNetwork (p_cniRuntime p) = DetachNetwork (Cni.recording rntm)"
    by (simp_all add: rt cni_runtime_def)
  let ?add = "added_for rntm pod (getNetworkNamespace pod)"
  obtain refs new ds ds' where r: "GetDevicesByPodUID s (pod_Uid pod) = Some refs" "map (deref (pm_heap s)) refs = map Some ds"
      "items = map Some new" "map nc_PreparedDevice new = refs"
    and added: "added = concat (map ?add ds)" "length added = length refs"
    and removed: "removed = concat (map (\<lambda>d. map deleted (?add d)) ds')"
    and eq: "mset (map without_network ds') = mset (map without_network ds)"
    using cni.sandbox_calls[OF f upd same start stop] by auto
  have "removed = map deleted (concat (map ?add (map without_network ds')))" "added = concat (map ?add (map without_network ds))"
    by (simp_all add: removed added map_concat comp_def)
  then have "mset removed = mset (map deleted added)" using mset_concat_map[OF eq, of ?add] by simp
  with r added show ?thesis by blast
qed

section \<open>Witnesses\<close>

definition nri_claim :: "string \<Rightarrow> UID \<Rightarrow> ResourceClaim" where
  "nri_claim n uid = \<lparr>claim_ResourceVersion = 1, claim_Name = n, claim_Namespace = ''ns'', claim_UID = uid, claim_ReservedFor = [''pod''],
     claim_Allocation = None, claim_Devices = [(example_status DriverName ''vf0'' ''a'')\<lparr>ads_Pool := ''pool''\<rparr>,
       (example_status ''other'' ''vf0'' ''b'')\<lparr>ads_Pool := ''pool''\<rparr>]\<rparr>"

text \<open>The claim \<^verbatim>\<open>c1\<close> is as recorded with its device; \<^verbatim>\<open>c2\<close> has been replaced under its name.\<close>

definition nri_server :: "string \<Rightarrow> string \<Rightarrow> ResourceClaim res" where
  "nri_server ns n = (if n = ''c1'' then Ok (nri_claim ''c1'' ''c1'') else if n = ''c2'' then Ok (nri_claim ''c2'' ''c2-new'')
     else Err (External ''NotFound''))"

definition nri_data :: NetworkDeviceData where
  "nri_data = \<lparr>nd_InterfaceName = ''net1'', nd_IPs = [''10.0.0.1/24''], nd_HardwareAddress = ''aa:bb''\<rparr>"

definition nri_plugin :: "'w CniRuntime \<Rightarrow> 'w MetadataUpdater option \<Rightarrow> 'w claim_client \<Rightarrow> 'w Plugin" where
  "nri_plugin rt upd cl = \<lparr>
     p_cm = \<lparr>cm_ListCheckpoints = \<lambda>w. Ok [], cm_GetCheckpoint = \<lambda>n w. Ok NewCheckpoint, cm_CreateCheckpoint = \<lambda>n cp w. (Ok (), w)\<rparr>,
     p_cniRuntime = rt, p_getClaim = \<lambda>ns n w. nri_server ns n, p_claims = \<lambda>ns. cl, p_errors = server_errors,
     p_backoff = run_steps BackoffSteps, p_ctxErr = \<lambda>w. None, p_enableDeviceMetadata = True, p_metadataUpdater = upd,
     p_json = \<lparr>json_Unmarshal = \<lambda>t. Ok JNull, json_Marshal = \<lambda>j. []\<rparr>, p_combined = \<lambda>config conf result. Ok ''{}'',
     p_range_groups = rev, p_range_updates = rev, p_stub_Stop = (\<lambda>w. w)\<rparr>"

definition nri_runtime :: "'w CniRuntime" where
  "nri_runtime = \<lparr>cn_AttachNetwork = \<lambda>pod ns d w. (Ok (Some nri_data, None, None), w), cn_DetachNetwork = \<lambda>pod ns d w. (Ok (), w)\<rparr>"

definition nri_pod :: PodSandbox where
  "nri_pod = \<lparr>pod_Id = ''sandbox'', pod_Name = ''p'', pod_Namespace = ''ns'', pod_Uid = ''pod'',
     pod_Namespaces = [(''ipc'', ''/ipc''), (''network'', ''/net'')]\<rparr>"

definition nri_items :: NetworkDataChanStructList where
  "nri_items = map (\<lambda>r. Some \<lparr>nc_PreparedDevice = Some r, nc_NetworkDeviceData = Some nri_data, nc_CNIConfig = Some [], nc_CNIResult = None\<rparr>) [0, 1]"

lemma visits_all_rev: "visits_all rev"
  by (simp add: visits_all_def)

theorem request_metadata_complete_witness:
  "\<exists>calls. updateRequestMetadataBeforeSandboxStart (nri_plugin nri_runtime (Some (recording (\<lambda>ns n uid r ds w. (Ok (), w)))) undefined)
       (pm_heap two_claims) nri_items ((), []) = (Ok (), ((), calls)) \<and> distinct (map fst calls) \<and>
     map_of calls \<lparr>rk_claimNamespace = ''ns'', rk_claimName = ''c2'', rk_requestName = ''req''\<rparr> =
       Some \<lparr>ru_claimUID = ''c2'', ru_devices = [ToKubeletPluginDevice (example_prepared ''c2'' ''vf1'') (Some nri_data)]\<rparr>"
proof -
  define p where "p = nri_plugin nri_runtime (Some (recording (\<lambda>ns n uid r ds (w :: unit). (Ok (), w)))) undefined"
  have p: "p_enableDeviceMetadata p" "p_metadataUpdater p = Some (recording (\<lambda>ns n uid r ds w. (Ok (), w)))" "visits_all (p_range_updates p)"
    by (simp_all add: p_def nri_plugin_def visits_all_rev)
  have ok: "fst (updateRequestMetadataBeforeSandboxStart p (pm_heap two_claims) nri_items ((), [])) = Ok ()"
    unfolding p_def nri_plugin_def by code_simp
  then obtain calls where run: "updateRequestMetadataBeforeSandboxStart p (pm_heap two_claims) nri_items ((), []) = (Ok (), ((), calls))"
    by (metis prod.collapse old.unit.exhaust)
  have "request_update (request_entries (pm_heap two_claims) nri_items) \<lparr>rk_claimNamespace = ''ns'', rk_claimName = ''c2'', rk_requestName = ''req''\<rparr> =
       Some \<lparr>ru_claimUID = ''c2'', ru_devices = [ToKubeletPluginDevice (example_prepared ''c2'' ''vf1'') (Some nri_data)]\<rparr>"
    by code_simp
  moreover have "p_metadataUpdater p \<in> {None, Some (recording (\<lambda>ns n uid r ds w. (Ok (), w)))}" using p(2) by simp
  from request_metadata_complete[OF this p(3) run] p(1,2)
  have "distinct (map fst calls)" "map_of calls = request_update (request_entries (pm_heap two_claims) nri_items)" by simp_all
  ultimately show ?thesis using run unfolding p_def by auto
qed

text \<open>A CNI library in which every call succeeds.\<close>

definition nri_cni :: "(string, CniResult, unit) Runtime" where
  "nri_cni = \<lparr>CNIConfig = \<lparr>nad_GetCNIConfigFromSpec = \<lambda>c n. Ok c, lc_NetworkPluginConfFromBytes = \<lambda>c. Ok c,
       lc_AddNetwork = \<lambda>c rt w. (Ok (Some \<lparr>cr_IPs = [Some ''10.0.0.1/24''], cr_Interfaces = []\<rparr>), w), lc_DelNetwork = \<lambda>c rt w. (Ok (), w),
       cni100_NewResultFromResult = \<lambda>r. Ok r, cni100_Marshal = \<lambda>r. Ok []\<rparr>,
     rt_json = \<lparr>json_Unmarshal = \<lambda>t. Ok JNull, json_Marshal = \<lambda>j. []\<rparr>, rt_DriverName = DriverName\<rparr>"

definition nri_cni_plugin :: "(unit \<times> string call list) Plugin" where
  "nri_cni_plugin = nri_plugin (cni_runtime (Cni.recording nri_cni)) None
     \<lparr>UpdateStatus = \<lambda>c w. (Inr c, w), GetClaim = \<lambda>n w. (Inl (External ''NotFound''), w)\<rparr>"

theorem sandbox_attach_detach_witness:
  "\<exists>added. mset (snd (snd (StopPodSandbox nri_cni_plugin two_claims nri_pod ((), [])))) = mset (map deleted added) \<and> length added = 2"
proof -
  have same: "same_prepared two_claims two_claims (pod_Uid nri_pod)"
    by (simp add: same_prepared_def nri_pod_def two_claims_def GetDevicesByPodUID_def)
  have "fst (fst (RunPodSandbox nri_cni_plugin two_claims nri_pod ((), []))) = Ok ()"
    "snd (fst (RunPodSandbox nri_cni_plugin two_claims nri_pod ((), []))) \<noteq> None" by code_simp+
  then obtain items w1 added where start: "RunPodSandbox nri_cni_plugin two_claims nri_pod ((), []) = ((Ok (), Some items), (w1, added))"
    by (metis option.collapse prod.collapse)
  have "fst (StopPodSandbox nri_cni_plugin two_claims nri_pod ((), [])) = Ok ()" by code_simp
  then obtain v1 removed where stop: "StopPodSandbox nri_cni_plugin two_claims nri_pod ((), []) = (Ok (), (v1, removed))" by (metis prod.collapse)
  have rt: "p_cniRuntime nri_cni_plugin = cni_runtime (Cni.recording nri_cni)"
    and upd: "\<forall>u ns n uid r ds w. p_metadataUpdater nri_cni_plugin = Some u \<longrightarrow> snd (snd (u ns n uid r ds w)) = snd w"
    by (simp_all add: nri_cni_plugin_def nri_plugin_def)
  have "GetDevicesByPodUID two_claims (pod_Uid nri_pod) = Some [Some 0, Some 1]"
    by (simp add: GetDevicesByPodUID_def two_claims_def nri_pod_def)
  then show ?thesis using sandbox_attach_detach[OF rt upd same start stop] stop by auto
qed

end
