(* ===== verification/NetworkData.thy ===== *)
theory NetworkData
  imports Nri
begin

text \<open>
  What the goroutine \<^verbatim>\<open>updateNetworkDeviceDataRunner\<close> of \<^verbatim>\<open>pkg/nri/nri.go\<close> achieves: which devices get their network
  data, which claims are written, and how the buffered channel and the goroutine interact with the sandbox hooks
  and with \<^verbatim>\<open>Stop\<close>.
\<close>

section \<open>Reference definitions\<close>

text \<open>The effect of one entry on the devices.\<close>

definition targets :: "ref \<Rightarrow> NetworkDataChanStruct option \<Rightarrow> bool" where
  "targets r item \<longleftrightarrow> (\<exists>i. item = Some i \<and> nc_PreparedDevice i = Some r)"

definition item_data :: "NetworkDataChanStruct option \<Rightarrow> NetworkDeviceData option" where
  "item_data item = (case item of None \<Rightarrow> None | Some i \<Rightarrow> nc_NetworkDeviceData i)"

definition apply_network :: "PreparedDevice list \<Rightarrow> NetworkDataChanStruct option \<Rightarrow> PreparedDevice list" where
  "apply_network h item = map (\<lambda>r. if targets r item then SetNetworkDeviceData (h ! r) (item_data item) else h ! r) [0..<length h]"

text \<open>The last entry for a device decides.\<close>

definition final_device :: "NetworkDataChanStructList \<Rightarrow> ref \<Rightarrow> PreparedDevice \<Rightarrow> PreparedDevice" where
  "final_device items r d = (case filter (targets r) items of [] \<Rightarrow> d | own \<Rightarrow> SetNetworkDeviceData d (item_data (last own)))"

text \<open>A claim is updated when it can be read and still is the claim the device was prepared for.\<close>

definition claim_live :: "(string \<Rightarrow> string \<Rightarrow> ResourceClaim res) \<Rightarrow> networkClaimKey \<Rightarrow> bool" where
  "claim_live f k = (case f (nk_namespace k) (nk_name k) of Ok c \<Rightarrow> nk_uid k = [] \<or> claim_UID c = nk_uid k | _ \<Rightarrow> False)"

section \<open>The devices\<close>

lemma foreign_merge_network [simp]: "foreign_to DriverName (merge_network pl p item ds) = foreign_to DriverName ds"
  by (induction ds) (auto simp: foreign_to_def merge_network_def status_key_def device_key_def)

lemma length_apply_network [simp]: "length (apply_network h item) = length h"
  by (simp add: apply_network_def)

lemma nth_apply_network: "r < length h \<Longrightarrow>
    apply_network h item ! r = (if targets r item then SetNetworkDeviceData (h ! r) (item_data item) else h ! r)"
  by (simp add: apply_network_def)

lemma length_apply_all [simp]: "length (foldl apply_network h items) = length h"
  by (induction items arbitrary: h) simp_all

lemma nth_apply_all:
  assumes "r < length h" shows "foldl apply_network h items ! r = final_device items r (h ! r)"
proof (induction items rule: rev_induct)
  case (snoc item items)
  then show ?case
    using assms
    by (cases "filter (targets r) items") (auto simp: nth_apply_network final_device_def SetNetworkDeviceData_def)
qed (simp add: final_device_def)

text \<open>The call on the store for one entry.\<close>

lemma item_store_step:
  assumes "item_device (pm_heap s) item = Some p"
  shows "UpdatePreparedDeviceNetworkData cm s (nc_PreparedDevice (the item)) (nc_NetworkDeviceData (the item)) w =
    (let s' = s\<lparr>pm_heap := apply_network (pm_heap s) item\<rparr>; (r, w') = syncToCheckpoint cm s' w in ((r, s'), w'))"
proof -
  obtain i r where i: "item = Some i" "nc_PreparedDevice i = Some r" "r < length (pm_heap s)"
    using assms by (auto simp: item_device_def deref_def split: option.splits if_splits)
  have "(pm_heap s)[r := SetNetworkDeviceData (pm_heap s ! r) (nc_NetworkDeviceData i)] = apply_network (pm_heap s) item"
    using i by (intro nth_equalityI) (auto simp: nth_apply_network targets_def item_data_def nth_list_update)
  then show ?thesis by (simp add: UpdatePreparedDeviceNetworkData_def i)
qed

lemma item_device_None: "item_device h item = None \<Longrightarrow> apply_network h item = h"
  by (rule nth_equalityI) (auto simp: nth_apply_network item_device_def deref_def targets_def split: option.splits if_splits)

lemma apply_network_keys: "map claim_key (apply_network h item) = map claim_key h"
  by (rule nth_equalityI) (auto simp: nth_apply_network claim_key_def SetNetworkDeviceData_def)

text \<open>Where the checkpoint calls make only steps of a preorder \<open>R\<close> on the world, so do the entries of one claim. They end without an
  error, change the devices as the entries say, and of the claim only this driver's statuses, not their keys.\<close>

lemma update_items_effect:
  assumes cm: "\<And>n cp w x. fst (cm_CreateCheckpoint (p_cm pl) n cp w) \<noteq> Panic x"
    and keep: "\<And>n cp w. R w (snd (cm_CreateCheckpoint (p_cm pl) n cp w))" and R: "reflp R" "transp R"
    and fits: "index_fits index claim"
  shows "\<exists>has' ds w'. update_items pl index has claim items s w =
      ((Ok (has', claim\<lparr>claim_Devices := ds\<rparr>), s\<lparr>pm_heap := foldl apply_network (pm_heap s) items\<rparr>), w') \<and>
    R w w' \<and> map keyOf ds = map keyOf (claim_Devices claim) \<and> foreign_to DriverName ds = foreign_to DriverName (claim_Devices claim)"
  using fits
proof (induction items arbitrary: has claim s w)
  case Nil
  then show ?case using reflpD[OF R(1)] by (intro exI[of _ has] exI[of _ "claim_Devices claim"] exI[of _ w]) simp
next
  case (Cons item items)
  show ?case
  proof (cases "item_device (pm_heap s) item")
    case None
    then show ?thesis using Cons by (simp add: item_device_None)
  next
    case (Some p)
    define s1 where "s1 = s\<lparr>pm_heap := apply_network (pm_heap s) item\<rparr>"
    obtain r w1 where sync: "syncToCheckpoint (p_cm pl) s1 w = (r, w1)" by (metis prod.exhaust)
    then have r: "\<And>x. r \<noteq> Panic x" and w1: "R w w1"
      using cm keep by (auto simp: syncToCheckpoint_def wrap_err_def split: prod.splits res.splits; metis fst_conv snd_conv)+
    have trans: "R w v" if "R w1 v" for v using transpD[OF R(2) w1 that] .
    have step: "UpdatePreparedDeviceNetworkData (p_cm pl) s (nc_PreparedDevice (the item)) (nc_NetworkDeviceData (the item)) w = ((r, s1), w1)"
      by (simp add: item_store_step[OF Some] s1_def[symmetric] sync)
    have heap: "s1\<lparr>pm_heap := foldl apply_network (pm_heap s1) items\<rparr> = s\<lparr>pm_heap := foldl apply_network (pm_heap s) (item # items)\<rparr>"
      by (simp add: s1_def)
    show ?thesis
    proof (cases r)
      case (Err e)
      then show ?thesis using Cons.IH[OF Cons.prems, of has s1 w1] trans by (fastforce simp: Some step heap)
    next
      case (Ok u)
      let ?c = "claim\<lparr>claim_Devices := merge_network pl p (the item) (claim_Devices claim)\<rparr>"
      show ?thesis
        using Cons.IH[OF index_fits_merge[OF Cons.prems], of "has \<or> device_key p \<in> status_key ` set (claim_Devices claim)" pl p "the item" s1 w1] trans
        by (fastforce simp: Some step heap Ok update_status_eq[OF Cons.prems])
    qed (use r in blast)
  qed
qed

lemma update_items_returns:
  assumes "\<And>n cp w x. fst (cm_CreateCheckpoint (p_cm pl) n cp w) \<noteq> Panic x"
  obtains has' ds w' where "update_items pl (buildClaimStatusDeviceIndex claim) False claim items s w =
    ((Ok (has', claim\<lparr>claim_Devices := ds\<rparr>), s\<lparr>pm_heap := foldl apply_network (pm_heap s) items\<rparr>), w')"
  using update_items_effect[OF assms _ _ _ index_fits_build, where R = "\<lambda>_ _. True"] by (simp add: reflp_def transp_def) metis

section \<open>The claims\<close>

lemma update_claims_heap:
  assumes cm: "\<And>n cp w x. fst (cm_CreateCheckpoint (p_cm pl) n cp w) \<noteq> Panic x"
    and get: "\<And>ns n w. p_getClaim pl ns n w = g ns n" "\<And>ns n x. g ns n \<noteq> Panic x"
  shows "fst (update_claims pl groups s w) = (Ok (), s\<lparr>pm_heap :=
    foldl apply_network (pm_heap s) (concat (map snd (filter (\<lambda>(k, _). claim_live g k) groups)))\<rparr>)"
proof (induction groups arbitrary: s w)
  case (Cons e groups)
  obtain k items where e: "e = (k, items)" by (metis prod.exhaust)
  show ?case
  proof (cases "claim_live g k")
    case False
    then show ?thesis using Cons get(2) by (auto simp: e get(1) claim_live_def split: res.splits)
  next
    case True
    then obtain claim where claim: "g (nk_namespace k) (nk_name k) = Ok claim" "nk_uid k = [] \<or> claim_UID claim = nk_uid k"
      by (auto simp: claim_live_def split: res.splits)
    obtain has' ds w' where "update_items pl (buildClaimStatusDeviceIndex claim) False claim items s w =
        ((Ok (has', claim\<lparr>claim_Devices := ds\<rparr>), s\<lparr>pm_heap := foldl apply_network (pm_heap s) items\<rparr>), w')"
      by (rule update_items_returns[OF cm])
    with True claim show ?thesis by (auto simp: e get(1) Cons.IH)
  qed
qed simp

text \<open>What is documented of the API server and of the disk: the client of every namespace writes with optimistic concurrency, a read (which
  may come from a cache) returns some stored version, and while a checkpoint is written other drivers may write claims.\<close>

definition api_documented :: "'w Plugin \<Rightarrow> ('w \<Rightarrow> history) \<Rightarrow> bool" where
  "api_documented pl hist \<longleftrightarrow> (\<forall>ns. client_documented hist ns (p_claims pl ns)) \<and>
     (\<forall>cond s. backoff_run cond BackoffSteps s (p_backoff pl cond s)) \<and>
     (\<forall>ns n w c. p_getClaim pl ns n w = Ok c \<longrightarrow> c \<in> snd ` set (hist w) \<and> is_object ns n c) \<and>
     (\<forall>n cp w. others_write (hist w) (hist (snd (cm_CreateCheckpoint (p_cm pl) n cp w))))"

text \<open>What a round may store for the claim with key \<open>k\<close>, given the history \<open>h\<close> before: a version of the claim with the recorded name and
  UID that has all statuses of other drivers of the version it replaces, and whose own entries have the keys of a version
  that was read.\<close>

definition status_write :: "networkClaimKey \<Rightarrow> history \<Rightarrow> ResourceClaim \<Rightarrow> bool" where
  "status_write k h x \<longleftrightarrow> is_object (nk_namespace k) (nk_name k) x \<and> (nk_uid k = [] \<or> claim_UID x = nk_uid k) \<and>
     (\<exists>old. current h (nk_namespace k) (nk_name k) = Some old \<and> claim_UID old = claim_UID x \<and>
        foreign_to DriverName (claim_Devices x) = foreign_to DriverName (claim_Devices old)) \<and>
     (\<exists>fetched \<in> snd ` set h. is_object (nk_namespace k) (nk_name k) fetched \<and> claim_UID fetched = claim_UID x \<and>
        keyOf ` set (owned_by DriverName (claim_Devices x)) = keyOf ` set (owned_by DriverName (claim_Devices fetched)))"

lemma owned_keys_map: "map keyOf ds = map keyOf ds' \<Longrightarrow> keyOf ` set (owned_by d ds) = keyOf ` set (owned_by d ds')"
proof -
  assume "map keyOf ds = map keyOf ds'"
  then have "filter (\<lambda>k. k_driver k = d) (map keyOf ds) = filter (\<lambda>k. k_driver k = d) (map keyOf ds')" by simp
  then have "map keyOf (owned_by d ds) = map keyOf (owned_by d ds')" by (simp add: owned_by_def filter_map comp_def)
  then show ?thesis by (metis set_map)
qed

text \<open>The status write for a claim that was read and changed by the entries of the list.\<close>

lemma claim_write:
  assumes api: "api_documented pl hist" and fetched: "claim \<in> snd ` set (hist w0)" "is_object (nk_namespace k) (nk_name k) claim"
      "nk_uid k = [] \<or> claim_UID claim = nk_uid k" and ext: "others_write (hist w0) (hist w)"
    and ds: "map keyOf ds = map keyOf (claim_Devices claim)" "foreign_to DriverName ds = foreign_to DriverName (claim_Devices claim)"
    and run: "updateClaimNetworkDataWithRetry pl (claim\<lparr>claim_Devices := ds\<rparr>) w = (err, w')"
  shows "own_writes (status_write k) (hist w) (hist w')" "\<exists>new. hist w' = hist w @ new \<and> length (filter fst new) \<le> BackoffSteps"
proof -
  let ?c = "claim\<lparr>claim_Devices := ds\<rparr>"
  have c: "claim \<in> snd ` set (hist w)" using fetched(1) ext by (auto simp: others_write_def)
  have ns: "claim_Namespace claim = nk_namespace k" "claim_Name claim = nk_name k" using fetched(2) by (simp_all add: is_object_def)
  have doc: "client_documented hist (claim_Namespace ?c) (p_claims pl (claim_Namespace claim))" using api by (simp add: api_documented_def)
  have ed: "edited DriverName (hist w) ?c" unfolding edited_def by (rule bexI[OF _ c]) (simp add: is_object_def ds(2))
  have bo: "backoff_run cond BackoffSteps s (p_backoff pl cond s)" for cond s using api unfolding api_documented_def by blast
  have run': "UpdateClaimStatusWithRetry (p_errors pl) (p_backoff pl) (p_ctxErr pl) (p_claims pl (claim_Namespace claim)) ?c DriverName w = (err, w')"
    using run by (simp add: updateClaimNetworkDataWithRetry_def)
  note W = retry_writes[OF doc bo ed run']
  have "status_write k (hist w @ b) x" if "merged_write DriverName ?c (hist w @ b) x" for b x
  proof -
    have "keyOf ` set (owned_by DriverName (claim_Devices x)) = keyOf ` set (owned_by DriverName (claim_Devices claim))"
      using that owned_keys_map[OF ds(1)] owned_keys_merge by (simp add: merged_write_def) (elim conjE exE disjE, simp_all only:)
    then show ?thesis using that fetched(2,3) c ns unfolding status_write_def merged_write_def
      by (auto simp: is_object_def intro!: bexI[of _ claim])
  qed
  then show "own_writes (status_write k) (hist w) (hist w')" using own_writes_mono W by blast
  show "\<exists>new. hist w' = hist w @ new \<and> length (filter fst new) \<le> BackoffSteps" using W by blast
qed

lemma update_claims_stores:
  assumes cm: "\<And>n cp w x. fst (cm_CreateCheckpoint (p_cm pl) n cp w) \<noteq> Panic x" and api: "api_documented pl hist"
    and run: "update_claims pl groups s w = ((r, s'), w')"
  shows "own_writes (\<lambda>h x. \<exists>k \<in> fst ` set groups. status_write k h x) (hist w) (hist w') \<and>
    (\<exists>new. hist w' = hist w @ new \<and> length (filter fst new) \<le> BackoffSteps * length groups)"
  using run
proof (induction groups arbitrary: s w)
  case (Cons e groups)
  obtain k items where e: "e = (k, items)" by (metis prod.exhaust)
  have weaken: "?case" if run: "update_claims pl groups t v = ((r, s'), w')" and own: "own_writes (status_write k) (hist w) (hist v)"
      and few: "\<exists>new. hist v = hist w @ new \<and> length (filter fst new) \<le> BackoffSteps" for t v
  proof -
    note IH = Cons.IH[OF run]
    have 1: "own_writes (\<lambda>h x. \<exists>k \<in> fst ` set (e # groups). status_write k h x) (hist w) (hist v)"
      by (rule own_writes_mono[OF own]) (simp add: e)
    have 2: "own_writes (\<lambda>h x. \<exists>k \<in> fst ` set (e # groups). status_write k h x) (hist v) (hist w')"
      by (rule own_writes_mono[OF conjunct1[OF IH]]) auto
    obtain n1 n2 where "hist v = hist w @ n1" "length (filter fst n1) \<le> BackoffSteps" "hist w' = hist v @ n2"
      "length (filter fst n2) \<le> BackoffSteps * length groups" using few IH by blast
    then have "\<exists>new. hist w' = hist w @ new \<and> length (filter fst new) \<le> BackoffSteps * length (e # groups)"
      by (intro exI[of _ "n1 @ n2"]) simp
    then show ?thesis using own_writes_trans[OF 1 2] by blast
  qed
  show ?case
  proof (cases "p_getClaim pl (nk_namespace k) (nk_name k) w")
    case (Ok claim)
    show ?thesis
    proof (cases "nk_uid k \<noteq> [] \<and> claim_UID claim \<noteq> nk_uid k")
      case True
      then show ?thesis using Cons.prems by (intro weaken[of s w]) (simp_all add: e Ok)
    next
      case False
      have fetched: "claim \<in> snd ` set (hist w)" "is_object (nk_namespace k) (nk_name k) claim"
        using api Ok unfolding api_documented_def by blast+
      have keep: "others_write (hist v) (hist (snd (cm_CreateCheckpoint (p_cm pl) n cp v)))" for n cp v using api by (simp add: api_documented_def)
      have pre: "reflp (\<lambda>v v'. others_write (hist v) (hist v'))" "transp (\<lambda>v v'. others_write (hist v) (hist v'))"
        by (auto simp: reflp_def transp_def others_write_def)
      obtain has' ds w1 where items: "update_items pl (buildClaimStatusDeviceIndex claim) False claim items s w =
          ((Ok (has', claim\<lparr>claim_Devices := ds\<rparr>), s\<lparr>pm_heap := foldl apply_network (pm_heap s) items\<rparr>), w1)"
        and w1: "others_write (hist w) (hist w1)" and ds: "map keyOf ds = map keyOf (claim_Devices claim)"
          "foreign_to DriverName ds = foreign_to DriverName (claim_Devices claim)"
        using update_items_effect[OF cm keep pre index_fits_build] by blast
      obtain err w2 where retry: "updateClaimNetworkDataWithRetry pl (claim\<lparr>claim_Devices := ds\<rparr>) w1 = (err, w2)"
        by (metis prod.exhaust)
      note W = claim_write[OF api fetched _ w1 ds retry]
      obtain n1 where n1: "hist w1 = hist w @ n1" "filter fst n1 = []" using others_write_extends[OF w1] by blast
      have rest: "update_claims pl groups (s\<lparr>pm_heap := foldl apply_network (pm_heap s) items\<rparr>) (if has' then w2 else w1) = ((r, s'), w')"
        using Cons.prems retry items False Ok by (auto simp: e)
      show ?thesis
      proof (cases has')
        case True
        obtain n2 where n2: "hist w2 = hist w1 @ n2" "length (filter fst n2) \<le> BackoffSteps" using W(2) False by blast
        then have "\<exists>new. hist w2 = hist w @ new \<and> length (filter fst new) \<le> BackoffSteps" using n1 by (intro exI[of _ "n1 @ n2"]) simp
        then show ?thesis using rest True own_writes_trans[OF others_own[OF w1] W(1)] False by (intro weaken) auto
      next
        case False
        then show ?thesis using rest others_own[OF w1] n1 by (intro weaken) auto
      qed
    qed
  qed (use Cons.prems weaken[of s w] in \<open>simp_all add: e\<close>)
qed simp

section \<open>Grouping and the order of the groups\<close>

lemma group_items_wf: "wf_map g \<Longrightarrow> wf_map (group_items h g items)"
  by (induction items arbitrary: g) (auto simp: mappend_def split: option.split)

lemma groups_lookup: "mget (groupNetworkDataByClaim h items) k =
    (let own = filter (\<lambda>i. map_option claim_key (item_device h i) = Some k) items in if own = [] then None else Some own)"
  by (simp add: groupNetworkDataByClaim_def group_items_lookup Let_def)

lemma groups_wf: "wf_map (groupNetworkDataByClaim h items)"
  by (simp add: groupNetworkDataByClaim_def group_items_wf)

lemma filter_concat_single:
  assumes "wf_map m" "\<And>k v. (k, v) \<in> set m \<Longrightarrow> filter P v = (if k = k0 then L else [])"
  shows "filter P (concat (map snd m)) = (if k0 \<in> mkeys m then L else [])"
  using assms
proof (induction m)
  case (Cons e m)
  obtain k v where e: "e = (k, v)" by (metis prod.exhaust)
  have "filter P v = (if k = k0 then L else [])" using Cons.prems(2) by (simp add: e)
  moreover have "filter P (concat (map snd m)) = (if k0 \<in> mkeys m then L else [])" using Cons by (simp add: e)
  ultimately show ?case using Cons.prems(1) by (auto simp: e)
qed simp

lemma targets_key:
  assumes "r < length h"
  shows "filter (targets r) (filter (\<lambda>i. map_option claim_key (item_device h i) = Some k) items) =
    (if k = claim_key (h ! r) then filter (targets r) items else [])"
proof -
  have "item_device h i = Some (h ! r)" if "targets r i" for i
    using that assms by (auto simp: targets_def item_device_def deref_def)
  then show ?thesis by (induction items) auto
qed

text \<open>Of the entries of the live claims, those for one device are all its entries in their order, or none.\<close>

lemma live_entries:
  assumes "visits_all visit" "r < length h"
  shows "filter (targets r) (concat (map snd (filter (\<lambda>(k, _). claim_live g k) (visit (groupNetworkDataByClaim h items))))) =
    (if claim_live g (claim_key (h ! r)) then filter (targets r) items else [])"
proof -
  let ?m = "visit (groupNetworkDataByClaim h items)" and ?live = "\<lambda>(k, _ :: NetworkDataChanStructList). claim_live g k"
  have m: "wf_map ?m" "map_of ?m = map_of (groupNetworkDataByClaim h items)"
    using visits_all_map[OF assms(1) groups_wf] by blast+
  have own: "filter (targets r) v = (if k = claim_key (h ! r) then filter (targets r) items else [])" if "(k, v) \<in> set ?m" for k v
    using that targets_key[OF assms(2), of k items] unfolding map_of_in_set[OF m(1)] m(2) groups_lookup
    by (auto simp: Let_def split: if_splits)
  have none: "filter (targets r) items = []" if "claim_key (h ! r) \<notin> mkeys ?m"
  proof -
    have "mget (groupNetworkDataByClaim h items) (claim_key (h ! r)) = None" using that m(2) by (auto simp: mkeys_dom)
    then have "filter (\<lambda>i. map_option claim_key (item_device h i) = Some (claim_key (h ! r))) items = []"
      unfolding groups_lookup Let_def by (metis option.distinct(1))
    then show ?thesis using targets_key[OF assms(2), of "claim_key (h ! r)" items] by simp
  qed
  have "wf_map (filter ?live ?m)" using m(1) by (auto simp: wf_map_def distinct_map intro: inj_on_subset)
  moreover have "claim_key (h ! r) \<in> mkeys (filter ?live ?m) \<longleftrightarrow> claim_key (h ! r) \<in> mkeys ?m \<and> claim_live g (claim_key (h ! r))"
    by (auto simp: mkeys_def)
  ultimately show ?thesis
    using filter_concat_single[of "filter ?live ?m" "targets r" "claim_key (h ! r)" "filter (targets r) items"] own none by auto
qed

section \<open>Properties\<close>

text \<open>C14. Writing a list of network data: the call ends, no device enters or leaves the store, and a device gets the
  data of its last entry in the list, provided its claim can be read and has not been replaced under its name;
  otherwise it keeps its data. That holds in whatever order Go visits the claims and whether or not the checkpoint
  can be written.\<close>

theorem updateNetworkDeviceData_persists:
  assumes visits: "visits_all (p_range_groups pl)"
    and cm: "\<And>n cp w x. fst (cm_CreateCheckpoint (p_cm pl) n cp w) \<noteq> Panic x"
    and get: "\<And>ns n w. p_getClaim pl ns n w = g ns n" "\<And>ns n x. g ns n \<noteq> Panic x"
    and run: "updateNetworkDeviceData pl items s w = ((r, s'), w')"
  shows "r = Ok () \<and> preparedClaimsByPodUID s' = preparedClaimsByPodUID s \<and> length (pm_heap s') = length (pm_heap s) \<and>
    (\<forall>i < length (pm_heap s). pm_heap s' ! i =
       (if claim_live g (claim_key (pm_heap s ! i)) then final_device items i (pm_heap s ! i) else pm_heap s ! i))"
proof -
  have "(r, s') = (Ok (), s\<lparr>pm_heap := foldl apply_network (pm_heap s) (concat (map snd
      (filter (\<lambda>(k, _). claim_live g k) (p_range_groups pl (groupNetworkDataByClaim (pm_heap s) items)))))\<rparr>)"
    using update_claims_heap[OF cm get, of "p_range_groups pl (groupNetworkDataByClaim (pm_heap s) items)" s w] run by (simp add: updateNetworkDeviceData_def)
  then show ?thesis
    using live_entries[OF visits, of _ "pm_heap s" g items] by (simp add: nth_apply_all final_device_def)
qed

text \<open>C15. Which claims a round stores at the API server, while other drivers write at any time: only versions of claims with the name
  and, where one is recorded, the UID recorded with a device of the list (so never a claim recreated under the same name). Each
  replaces a current version of the same claim and has all statuses of other drivers that this version has; of this driver it
  has entries for exactly the keys of a version that was read; and there are at most \<open>BackoffSteps\<close> of them for each claim of the list.\<close>

theorem updateNetworkDeviceData_writes:
  assumes visits: "visits_all (p_range_groups pl)"
    and cm: "\<And>n cp w x. fst (cm_CreateCheckpoint (p_cm pl) n cp w) \<noteq> Panic x" and api: "api_documented pl hist"
    and run: "updateNetworkDeviceData pl items s w = ((r, s'), w')"
  shows "\<exists>new. hist w' = hist w @ new \<and>
    (\<forall>before x after. new = before @ (True, x) # after \<longrightarrow>
       (\<exists>item d. item \<in> set items \<and> item_device (pm_heap s) item = Some d \<and> status_write (claim_key d) (hist w @ before) x)) \<and>
    length (filter fst new) \<le> BackoffSteps * card (claim_key ` {d. \<exists>item \<in> set items. item_device (pm_heap s) item = Some d})"
proof -
  let ?m = "p_range_groups pl (groupNetworkDataByClaim (pm_heap s) items)"
  have m: "wf_map ?m" "map_of ?m = map_of (groupNetworkDataByClaim (pm_heap s) items)"
    using visits_all_map[OF visits groups_wf] by blast+
  have keys: "fst ` set ?m = claim_key ` {d. \<exists>item \<in> set items. item_device (pm_heap s) item = Some d}"
    unfolding mkeys_def[symmetric] mkeys_dom m(2) dom_def groups_lookup Let_def by (auto simp: filter_empty_conv)
  note W = update_claims_stores[OF cm api run[unfolded updateNetworkDeviceData_def]]
  obtain new where new: "hist w' = hist w @ new" "length (filter fst new) \<le> BackoffSteps * length ?m" using W by blast
  have "\<exists>k \<in> fst ` set ?m. status_write k (hist w @ before) x" if "new = before @ (True, x) # after" for before x after
    using W that unfolding own_writes_def new(1) by blast
  then have "\<exists>item d. item \<in> set items \<and> item_device (pm_heap s) item = Some d \<and> status_write (claim_key d) (hist w @ before) x"
    if "new = before @ (True, x) # after" for before x after using that unfolding keys by blast
  then show ?thesis using new length_wf_map[OF m(1)] keys by (intro exI[of _ new]) (simp add: mkeys_def)
qed

section \<open>Witnesses\<close>

text \<open>The claim of the first device is live and the claim of the second has been replaced.\<close>

theorem updateNetworkDeviceData_persists_witness:
  "pm_heap (snd (fst (updateNetworkDeviceData (nri_plugin nri_runtime None (server_client ''ns'')) nri_items two_claims example_server))) =
     [SetNetworkDeviceData (example_prepared ''c1'' ''vf0'') (Some nri_data), example_prepared ''c2'' ''vf1'']"
proof -
  define pl where "pl = nri_plugin nri_runtime None (server_client ''ns'')"
  obtain r s' w' where run: "updateNetworkDeviceData pl nri_items two_claims example_server = ((r, s'), w')" by (metis prod.collapse)
  have visits: "visits_all (p_range_groups pl)" by (simp add: pl_def nri_plugin_def visits_all_rev)
  have "length (pm_heap s') = length (pm_heap two_claims) \<and> (\<forall>i < length (pm_heap two_claims). pm_heap s' ! i =
       (if claim_live nri_server (claim_key (pm_heap two_claims ! i)) then final_device nri_items i (pm_heap two_claims ! i)
        else pm_heap two_claims ! i))"
    using updateNetworkDeviceData_persists[OF visits _ _ _ run, of nri_server]
    by (simp add: pl_def nri_plugin_def nri_server_def)
  moreover have "length (pm_heap two_claims) = 2" "pm_heap two_claims ! 0 = example_prepared ''c1'' ''vf0''" "pm_heap two_claims ! 1 = example_prepared ''c2'' ''vf1''"
    by (simp_all add: two_claims_def)
  moreover have "claim_live nri_server (claim_key (example_prepared ''c1'' ''vf0''))" "\<not> claim_live nri_server (claim_key (example_prepared ''c2'' ''vf1''))"
    by code_simp+
  moreover have "final_device nri_items 0 d = SetNetworkDeviceData d (Some nri_data)" for d
    by (simp add: final_device_def nri_items_def targets_def item_data_def)
  ultimately have "pm_heap s' = [SetNetworkDeviceData (example_prepared ''c1'' ''vf0'') (Some nri_data), example_prepared ''c2'' ''vf1'']"
    by (intro nth_equalityI) (auto simp: less_2_cases_iff)
  with run show ?thesis by (simp add: pl_def)
qed

text \<open>The plugin reads its claims from the simulated server, which has the claim \<^verbatim>\<open>c1\<close> as recorded; another driver changes its status just
  before the first write.\<close>

definition server_plugin :: "server Plugin" where
  "server_plugin = (nri_plugin nri_runtime None (server_client ''ns''))\<lparr>p_claims := server_client,
     p_getClaim := \<lambda>ns n s. case current (srv_hist s) ns n of None \<Rightarrow> Err (External ''NotFound'') | Some c \<Rightarrow> Ok c\<rparr>"

definition claims_server :: server where
  "claims_server = \<lparr>srv_log = [(False, nri_claim ''c1'' ''c1'')],
     srv_writes = [\<lambda>c. c\<lparr>claim_Devices := [hd (claim_Devices c), (example_status ''other'' ''vf0'' ''new'')\<lparr>ads_Pool := ''pool''\<rparr>]\<rparr>]\<rparr>"

lemma server_api: "api_documented server_plugin srv_hist"
  using server_documented run_steps_documented current_stored
  by (auto simp: api_documented_def server_plugin_def nri_plugin_def split: option.splits)

theorem updateNetworkDeviceData_writes_witness:
  "\<exists>x. last (srv_hist (snd (updateNetworkDeviceData server_plugin nri_items two_claims claims_server))) = (True, x) \<and> claim_UID x = ''c1'' \<and>
     foreign_to DriverName (claim_Devices x) = [(example_status ''other'' ''vf0'' ''new'')\<lparr>ads_Pool := ''pool''\<rparr>]"
proof -
  obtain r s' w' where run: "updateNetworkDeviceData server_plugin nri_items two_claims claims_server = ((r, s'), w')" by (metis prod.collapse)
  have visits: "visits_all (p_range_groups server_plugin)" by (simp add: server_plugin_def nri_plugin_def visits_all_rev)
  have cm: "\<And>n cp w x. fst (cm_CreateCheckpoint (p_cm server_plugin) n cp w) \<noteq> Panic x" by (simp add: server_plugin_def nri_plugin_def)
  define y where "y = (nri_claim ''c1'' ''c1'')\<lparr>claim_ResourceVersion := 1, claim_Devices :=
     [hd (claim_Devices (nri_claim ''c1'' ''c1'')), (example_status ''other'' ''vf0'' ''new'')\<lparr>ads_Pool := ''pool''\<rparr>]\<rparr>"
  have eval: "map fst (srv_hist (snd (updateNetworkDeviceData server_plugin nri_items two_claims claims_server))) = [False, False, True]"
    "srv_hist (snd (updateNetworkDeviceData server_plugin nri_items two_claims claims_server)) ! 1 = (False, y)"
    unfolding y_def by code_simp+
  have h: "srv_hist claims_server = [(False, (nri_claim ''c1'' ''c1'')\<lparr>claim_ResourceVersion := 0\<rparr>)]" by (simp add: srv_hist_def claims_server_def)
  obtain new where new: "srv_hist w' = srv_hist claims_server @ new" "\<And>before x after. new = before @ (True, x) # after \<Longrightarrow>
      \<exists>item d. item \<in> set nri_items \<and> item_device (pm_heap two_claims) item = Some d \<and> status_write (claim_key d) (srv_hist claims_server @ before) x"
    using updateNetworkDeviceData_writes[OF visits cm server_api run] by blast
  have "map fst new = [False, True]" "new ! 0 = (False, y)" using eval new(1) run by (simp_all add: h)
  then obtain x where x: "new = [(False, y)] @ (True, x) # []" by (cases new; cases "tl new") (auto simp: prod_eq_iff)
  obtain item d where item: "item \<in> set nri_items" "item_device (pm_heap two_claims) item = Some d"
    and d: "status_write (claim_key d) (srv_hist claims_server @ [(False, y)]) x" using new(2)[OF x] by blast
  have dev: "d = example_prepared ''c1'' ''vf0'' \<or> d = example_prepared ''c2'' ''vf1''"
    using item by (auto simp: nri_items_def item_device_def two_claims_def deref_def)
  have key: "claim_key (example_prepared c v) = \<lparr>nk_namespace = ''ns'', nk_name = c, nk_uid = c\<rparr>" for c v
    by (simp add: claim_key_def example_prepared_def example_object_def)
  have cur: "current (srv_hist claims_server @ [(False, y)]) ''ns'' n = (if n = ''c1'' then Some y else None)" for n
    by (simp add: current_def h is_object_def nri_claim_def y_def)
  have "d = example_prepared ''c1'' ''vf0''" using d dev by (auto simp: status_write_def key cur)
  then have "claim_UID x = ''c1''" "foreign_to DriverName (claim_Devices x) = foreign_to DriverName (claim_Devices y)"
    using d by (auto simp: status_write_def key cur)
  moreover have "foreign_to DriverName (claim_Devices y) = [(example_status ''other'' ''vf0'' ''new'')\<lparr>ads_Pool := ''pool''\<rparr>]"
    unfolding y_def by code_simp
  ultimately show ?thesis using run new(1) x by simp
qed

end
