(* ===== verification/NriChannel.thy ===== *)
theory NriChannel
  imports NetworkData
begin

text \<open>
  The hand-over between the sandbox hooks and the goroutine of \<^verbatim>\<open>pkg/nri/nri.go\<close>: a Go channel with a buffer of
  100 lists, the goroutine \<^verbatim>\<open>updateNetworkDeviceDataRunner\<close>, \<^verbatim>\<open>Stop\<close>, which closes the channel, and the calls of the
  kubelet that change the pod manager in between. A hook, a call of the kubelet and one round of the goroutine are
  steps of their own; a hook that blocks on the full channel is a pending list.
\<close>

section \<open>Go channels\<close>

record 'a chan =
  ch_buffer :: "'a list"
  ch_capacity :: nat
  ch_closed :: bool

definition make_chan :: "nat \<Rightarrow> 'a chan" where
  "make_chan n = \<lparr>ch_buffer = [], ch_capacity = n, ch_closed = False\<rparr>"

text \<open>\<open>None\<close> blocks. A receive of \<open>None\<close> is the zero value a closed and empty channel gives.\<close>

definition chan_send :: "'a chan \<Rightarrow> 'a \<Rightarrow> 'a chan res option" where
  "chan_send c v = (if ch_closed c then Some (Panic ''send on closed channel'')
     else if length (ch_buffer c) < ch_capacity c then Some (Ok (c\<lparr>ch_buffer := ch_buffer c @ [v]\<rparr>)) else None)"

definition chan_recv :: "'a chan \<Rightarrow> ('a option \<times> 'a chan) option" where
  "chan_recv c = (case ch_buffer c of v # vs \<Rightarrow> Some (Some v, c\<lparr>ch_buffer := vs\<rparr>)
     | [] \<Rightarrow> if ch_closed c then Some (None, c) else None)"

definition chan_close :: "'a chan \<Rightarrow> 'a chan res" where
  "chan_close c = (if ch_closed c then Panic ''close of closed channel'' else Ok (c\<lparr>ch_closed := True\<rparr>))"

section \<open>The system\<close>

text \<open>\<open>st_sent\<close> and \<open>st_written\<close> record the lists the channel accepted and those the goroutine wrote.\<close>

record 'w nri_state =
  st_store :: PodManager
  st_world :: 'w
  st_chan :: "NetworkDataChanStructList chan"
  st_pending :: "NetworkDataChanStructList list"
  st_runner :: bool
  st_cancelled :: bool
  st_crashed :: bool
  st_sent :: "NetworkDataChanStructList list"
  st_written :: "NetworkDataChanStructList list"

text \<open>After \<^verbatim>\<open>NewNRIPlugin\<close> and a successful \<^verbatim>\<open>Start\<close>.\<close>

definition started :: "PodManager \<Rightarrow> 'w \<Rightarrow> 'w nri_state" where
  "started s w = \<lparr>st_store = s, st_world = w, st_chan = make_chan 100, st_pending = [], st_runner = True, st_cancelled = False,
     st_crashed = False, st_sent = [], st_written = []\<rparr>"

definition run_hook :: "'w Plugin \<Rightarrow> PodSandbox \<Rightarrow> 'w nri_state \<Rightarrow> 'w nri_state" where
  "run_hook pl pod st = (case RunPodSandbox pl (st_store st) pod (st_world st) of
     ((Panic x, _), w) \<Rightarrow> st\<lparr>st_world := w, st_crashed := True\<rparr>
   | ((_, None), w) \<Rightarrow> st\<lparr>st_world := w\<rparr>
   | ((_, Some items), w) \<Rightarrow> st\<lparr>st_world := w, st_pending := st_pending st @ [items]\<rparr>)"

definition stop_hook :: "'w Plugin \<Rightarrow> PodSandbox \<Rightarrow> 'w nri_state \<Rightarrow> 'w nri_state" where
  "stop_hook pl pod st = (case StopPodSandbox pl (st_store st) pod (st_world st) of
     (Panic x, w) \<Rightarrow> st\<lparr>st_world := w, st_crashed := True\<rparr>
   | (_, w) \<Rightarrow> st\<lparr>st_world := w\<rparr>)"

text \<open>Some hook that waits at its send goes on; \<open>None\<close> when it blocks.\<close>

definition send_pending :: "nat \<Rightarrow> 'w nri_state \<Rightarrow> 'w nri_state option" where
  "send_pending i st = (case chan_send (st_chan st) (st_pending st ! i) of
     None \<Rightarrow> None
   | Some (Ok c) \<Rightarrow> Some (st\<lparr>st_chan := c, st_pending := take i (st_pending st) @ drop (Suc i) (st_pending st),
       st_sent := st_sent st @ [st_pending st ! i]\<rparr>)
   | Some _ \<Rightarrow> Some (st\<lparr>st_crashed := True\<rparr>))"

text \<open>The first case of the goroutine's \<^verbatim>\<open>select\<close>. The zero value of the channel's type is the nil list.\<close>

definition updateNetworkDeviceDataRunner :: "'w Plugin \<Rightarrow> 'w nri_state \<Rightarrow> 'w nri_state option" where
  "updateNetworkDeviceDataRunner pl st = (case chan_recv (st_chan st) of
     None \<Rightarrow> None
   | Some (v, c) \<Rightarrow>
       let items = (case v of None \<Rightarrow> [] | Some l \<Rightarrow> l);
           ((r, s), w) = updateNetworkDeviceData pl items (st_store st) (st_world st)
       in Some (st\<lparr>st_store := s, st_world := w, st_chan := c, st_crashed := is_panic r,
            st_written := st_written st @ (case v of None \<Rightarrow> [] | Some l \<Rightarrow> [l])\<rparr>))"

definition Stop :: "'w Plugin \<Rightarrow> 'w nri_state \<Rightarrow> 'w nri_state" where
  "Stop pl st = (let st1 = st\<lparr>st_world := p_stub_Stop pl (st_world st)\<rparr> in
     case chan_close (st_chan st1) of Ok c \<Rightarrow> st1\<lparr>st_chan := c\<rparr> | _ \<Rightarrow> st1\<lparr>st_crashed := True\<rparr>)"

definition kubelet_call :: "'w Plugin \<Rightarrow> pm_op \<Rightarrow> 'w nri_state \<Rightarrow> 'w nri_state" where
  "kubelet_call pl op st = (case run_op (p_cm pl) op (st_store st) (st_world st) of
     ((Panic x, s), w) \<Rightarrow> st\<lparr>st_store := s, st_world := w, st_crashed := True\<rparr>
   | ((_, s), w) \<Rightarrow> st\<lparr>st_store := s, st_world := w\<rparr>)"

inductive nri_step :: "'w Plugin \<Rightarrow> 'w nri_state \<Rightarrow> 'w nri_state \<Rightarrow> bool" for pl where
  run: "\<not> st_crashed st \<Longrightarrow> nri_step pl st (run_hook pl pod st)"
| stop_sandbox: "\<not> st_crashed st \<Longrightarrow> nri_step pl st (stop_hook pl pod st)"
| send: "\<not> st_crashed st \<Longrightarrow> i < length (st_pending st) \<Longrightarrow> send_pending i st = Some st' \<Longrightarrow> nri_step pl st st'"
| receive: "\<not> st_crashed st \<Longrightarrow> st_runner st \<Longrightarrow> updateNetworkDeviceDataRunner pl st = Some st' \<Longrightarrow> nri_step pl st st'"
| ended: "\<not> st_crashed st \<Longrightarrow> st_runner st \<Longrightarrow> st_cancelled st \<Longrightarrow> nri_step pl st (st\<lparr>st_runner := False\<rparr>)"
| cancel: "\<not> st_crashed st \<Longrightarrow> nri_step pl st (st\<lparr>st_cancelled := True\<rparr>)"
| stop: "\<not> st_crashed st \<Longrightarrow> nri_step pl st (Stop pl st)"
| kubelet: "\<not> st_crashed st \<Longrightarrow> op_valid (st_store st) op \<Longrightarrow> nri_step pl st (kubelet_call pl op st)"

section \<open>Bounded queues\<close>

text \<open>What the hooks and the goroutine rely on: what is sent comes out in the same order, and nothing else.\<close>

locale bounded_queue =
  fixes content :: "'q \<Rightarrow> 'a list" and cap :: "'q \<Rightarrow> nat"
    and send :: "'q \<Rightarrow> 'a \<Rightarrow> 'q res option" and recv :: "'q \<Rightarrow> ('a option \<times> 'q) option"
  assumes send_content: "send q v = Some (Ok q') \<Longrightarrow> content q' = content q @ [v]"
    and send_room: "send q v = Some (Ok q') \<Longrightarrow> length (content q) < cap q \<and> cap q' = cap q"
    and recv_content: "recv q = Some (out, q') \<Longrightarrow> content q = (case out of None \<Rightarrow> [] | Some x \<Rightarrow> [x]) @ content q' \<and> cap q' = cap q"
begin

text \<open>The state of the queue after \<open>ins\<close> went in and \<open>outs\<close> came out.\<close>

definition history :: "nat \<Rightarrow> 'a list \<Rightarrow> 'a list \<Rightarrow> 'q \<Rightarrow> bool" where
  "history n ins outs q \<longleftrightarrow> ins = outs @ content q \<and> length (content q) \<le> cap q \<and> cap q = n"

lemma history_send: "history n ins outs q \<Longrightarrow> send q v = Some (Ok q') \<Longrightarrow> history n (ins @ [v]) outs q'"
  using send_content send_room by (fastforce simp: history_def)

lemma history_recv:
  "history n ins outs q \<Longrightarrow> recv q = Some (v, q') \<Longrightarrow> history n ins (outs @ (case v of None \<Rightarrow> [] | Some x \<Rightarrow> [x])) q'"
  using recv_content by (fastforce simp: history_def)

lemma history_spec: "history n ins outs q \<Longrightarrow> ins = outs @ content q \<and> length (content q) \<le> n"
  by (simp add: history_def)

end

interpretation chan: bounded_queue ch_buffer ch_capacity chan_send chan_recv
  by unfold_locales (auto simp: chan_send_def chan_recv_def split: if_splits list.splits)

section \<open>The invariant\<close>

definition entries_valid :: "PodManager \<Rightarrow> NetworkDataChanStructList \<Rightarrow> bool" where
  "entries_valid s items \<longleftrightarrow> (\<forall>item \<in> set items. item_device (pm_heap s) item \<noteq> None)"

definition nri_inv :: "'w nri_state \<Rightarrow> bool" where
  "nri_inv st \<longleftrightarrow> pm_inv (st_store st) \<and> chan.history 100 (st_sent st) (st_written st) (st_chan st) \<and>
     (\<forall>items \<in> set (st_sent st) \<union> set (st_pending st). entries_valid (st_store st) items)"

lemma item_device_mono: "item_device h item \<noteq> None \<Longrightarrow> length h \<le> length h' \<Longrightarrow> item_device h' item \<noteq> None"
  by (auto simp: item_device_def deref_def split: option.splits if_splits)

lemma entries_valid_mono: "entries_valid s items \<Longrightarrow> length (pm_heap s) \<le> length (pm_heap s') \<Longrightarrow> entries_valid s' items"
  unfolding entries_valid_def using item_device_mono by blast

lemma run_op_heap: "length (pm_heap s) \<le> length (pm_heap (snd (fst (run_op cm op s w))))"
proof (cases op)
  case (OpSet p c ds)
  obtain rs h where al: "alloc_devices (pm_heap s) ds = (rs, h)" by (metis prod.exhaust)
  then obtain new where "h = pm_heap s @ new" using alloc_devices_spec[OF al] by blast
  then show ?thesis by (simp add: OpSet run_op_def Set_def al case_prod_beta Let_def)
qed (auto simp: run_op_def DeletePod_def DeleteClaim_def UpdatePreparedDeviceNetworkData_def case_prod_beta Let_def split: option.split)

lemma pm_inv_heap: "pm_inv s \<Longrightarrow> length h = length (pm_heap s) \<Longrightarrow> pm_inv (s\<lparr>pm_heap := h\<rparr>)"
proof -
  have "Get_refs (s\<lparr>pm_heap := h\<rparr>) = Get_refs s" by (simp add: fun_eq_iff Get_refs_def)
  then have "loc (s\<lparr>pm_heap := h\<rparr>) = loc s" by (simp add: fun_eq_iff loc_def)
  then show "pm_inv s \<Longrightarrow> length h = length (pm_heap s) \<Longrightarrow> pm_inv (s\<lparr>pm_heap := h\<rparr>)" by (simp add: pm_inv_def pm_wf_def)
qed

lemma update_claims_store:
  assumes cm: "\<And>n cp w x. fst (cm_CreateCheckpoint (p_cm pl) n cp w) \<noteq> Panic x"
  shows "\<exists>h. snd (fst (update_claims pl groups s w)) = s\<lparr>pm_heap := h\<rparr> \<and> length h = length (pm_heap s)"
proof (induction groups arbitrary: s w)
  case Nil
  then show ?case by (auto intro: exI[of _ "pm_heap s"])
next
  case (Cons e groups)
  obtain k items where e: "e = (k, items)" by (metis prod.exhaust)
  have later: "\<exists>h. snd (fst (update_claims pl groups (s\<lparr>pm_heap := foldl apply_network (pm_heap s) items\<rparr>) v)) = s\<lparr>pm_heap := h\<rparr> \<and>
      length h = length (pm_heap s)" for v
    using Cons.IH[of "s\<lparr>pm_heap := foldl apply_network (pm_heap s) items\<rparr>" v] by auto
  show ?case
  proof (cases "p_getClaim pl (nk_namespace k) (nk_name k) w")
    case (Ok claim)
    obtain has' ds w' where "update_items pl (buildClaimStatusDeviceIndex claim) False claim items s w =
        ((Ok (has', claim\<lparr>claim_Devices := ds\<rparr>), s\<lparr>pm_heap := foldl apply_network (pm_heap s) items\<rparr>), w')"
      by (rule update_items_returns[OF cm])
    then show ?thesis using later Cons.IH[of s w] by (simp add: e Ok)
  next
    case (Panic x)
    then show ?thesis by (auto simp: e intro!: exI[of _ "pm_heap s"])
  qed (use Cons.IH[of s w] in \<open>simp add: e\<close>)
qed

lemma attach_all_valid:
  assumes "attach_all p h pod ns acc rs w = (Ok items, w')" "\<forall>i \<in> set acc. item_device h i \<noteq> None"
  shows "\<forall>i \<in> set items. item_device h i \<noteq> None"
  using assms
proof (induction rs arbitrary: acc w)
  case (Cons r rs)
  obtain d nd m w1 where d: "deref h r = Some d" and rest: "attach_all p h pod ns (acc @ [Some \<lparr>nc_PreparedDevice = r,
      nc_NetworkDeviceData = nd, nc_CNIConfig = cni_config_map (p_json p) (pd_NetAttachDefConfig d), nc_CNIResult = m\<rparr>]) rs w1 = (Ok items, w')"
    using Cons.prems(1) by (auto split: option.splits prod.splits res.splits)
  from Cons.IH[OF rest] Cons.prems(2) d show ?case by (auto simp: item_device_def)
qed simp

lemma run_valid: "RunPodSandbox pl s pod w = ((r, Some items), w') \<Longrightarrow> entries_valid s items"
  unfolding entries_valid_def RunPodSandbox_def
  by (auto simp: Let_def split: option.splits if_splits prod.splits res.splits dest!: attach_all_valid)

lemma nri_inv_started: "pm_inv s \<Longrightarrow> nri_inv (started s w)"
  by (simp add: nri_inv_def started_def make_chan_def chan.history_def)

lemma nri_inv_step:
  assumes cm: "\<And>n cp w x. fst (cm_CreateCheckpoint (p_cm pl) n cp w) \<noteq> Panic x"
    and step: "nri_step pl st st'" and inv: "nri_inv st"
  shows "nri_inv st'"
  using step
proof cases
  case (run pod)
  then show ?thesis using inv run_valid[of pl "st_store st" pod "st_world st"]
    by (auto simp: run_hook_def nri_inv_def split: prod.splits res.splits option.splits)
next
  case (stop_sandbox pod)
  then show ?thesis using inv by (auto simp: stop_hook_def nri_inv_def split: prod.splits res.splits)
next
  case (send i)
  have "set (take i (st_pending st) @ drop (Suc i) (st_pending st)) \<subseteq> set (st_pending st)" "st_pending st ! i \<in> set (st_pending st)"
    using send(2) by (auto dest: in_set_takeD in_set_dropD)
  then show ?thesis using send inv chan.history_send[of 100 "st_sent st" "st_written st" "st_chan st" "st_pending st ! i"]
    by (auto simp: send_pending_def nri_inv_def split: option.splits res.splits) blast+
next
  case receive
  obtain v c where rc: "chan_recv (st_chan st) = Some (v, c)"
    using receive(3) by (auto simp: updateNetworkDeviceDataRunner_def split: option.splits)
  define its where "its = (case v of None \<Rightarrow> [] | Some l \<Rightarrow> l)"
  obtain h where h: "snd (fst (updateNetworkDeviceData pl its (st_store st) (st_world st))) = (st_store st)\<lparr>pm_heap := h\<rparr>"
      "length h = length (pm_heap (st_store st))"
    using update_claims_store[OF cm] unfolding updateNetworkDeviceData_def by blast
  then have store: "st_store st' = (st_store st)\<lparr>pm_heap := h\<rparr>" "st_chan st' = c" "st_sent st' = st_sent st" "st_pending st' = st_pending st"
      "st_written st' = st_written st @ (case v of None \<Rightarrow> [] | Some l \<Rightarrow> [l])"
    using receive(3) by (auto simp: updateNetworkDeviceDataRunner_def rc its_def[symmetric] Let_def split: prod.splits)
  show ?thesis
    using inv pm_inv_heap[of "st_store st" h] h(2) chan.history_recv[OF _ rc] entries_valid_mono[of "st_store st" _ "(st_store st)\<lparr>pm_heap := h\<rparr>"]
    by (auto simp: nri_inv_def store)
next
  case stop
  then show ?thesis using inv by (auto simp: Stop_def Let_def chan_close_def nri_inv_def chan.history_def)
next
  case (kubelet op)
  then show ?thesis
    using inv run_op_inv[of "st_store st" "p_cm pl" op "st_world st"] run_op_heap[of "st_store st" "p_cm pl" op "st_world st"]
      entries_valid_mono[of "st_store st"]
    by (auto simp: kubelet_call_def nri_inv_def split: prod.splits res.splits)
qed (use inv in \<open>simp_all add: nri_inv_def\<close>)

lemma update_claims_ok:
  assumes cm: "\<And>n cp w x. fst (cm_CreateCheckpoint (p_cm pl) n cp w) \<noteq> Panic x" and get: "\<And>ns n w x. p_getClaim pl ns n w \<noteq> Panic x"
  shows "fst (fst (update_claims pl groups s w)) = Ok ()"
proof (induction groups arbitrary: s w)
  case (Cons e groups)
  obtain k items where e: "e = (k, items)" by (metis prod.exhaust)
  show ?case
  proof (cases "p_getClaim pl (nk_namespace k) (nk_name k) w")
    case (Ok claim)
    obtain has' ds w' where "update_items pl (buildClaimStatusDeviceIndex claim) False claim items s w =
        ((Ok (has', claim\<lparr>claim_Devices := ds\<rparr>), s\<lparr>pm_heap := foldl apply_network (pm_heap s) items\<rparr>), w')"
      by (rule update_items_returns[OF cm])
    then show ?thesis using Cons.IH by (simp add: e Ok)
  qed (use Cons.IH get in \<open>simp_all add: e\<close>)
qed simp

section \<open>Progress\<close>

text \<open>A state in which the goroutine runs and the channel is open.\<close>

definition running :: "'w nri_state \<Rightarrow> bool" where
  "running st \<longleftrightarrow> \<not> st_crashed st \<and> st_runner st \<and> \<not> ch_closed (st_chan st) \<and> ch_capacity (st_chan st) = 100"

lemma receive_progress:
  assumes cm: "\<And>n cp w x. fst (cm_CreateCheckpoint (p_cm pl) n cp w) \<noteq> Panic x" and get: "\<And>ns n w x. p_getClaim pl ns n w \<noteq> Panic x"
    and st: "running st" "ch_buffer (st_chan st) = l # ls"
  shows "\<exists>st'. nri_step pl st st' \<and> running st' \<and> ch_buffer (st_chan st') = ls \<and> st_pending st' = st_pending st \<and>
    st_written st' = st_written st @ [l] \<and> st_sent st' = st_sent st"
proof -
  obtain r s w where up: "updateNetworkDeviceData pl l (st_store st) (st_world st) = ((r, s), w)" by (metis prod.collapse)
  then have "r = Ok ()" using update_claims_ok[OF cm get] unfolding updateNetworkDeviceData_def by (metis fst_conv)
  then have "updateNetworkDeviceDataRunner pl st = Some (st\<lparr>st_store := s, st_world := w, st_chan := (st_chan st)\<lparr>ch_buffer := ls\<rparr>,
      st_crashed := False, st_written := st_written st @ [l]\<rparr>)"
    using st up by (simp add: updateNetworkDeviceDataRunner_def chan_recv_def)
  from receive[OF _ _ this] st show ?thesis by (auto simp: running_def)
qed

lemma send_progress:
  assumes "running st" "ch_buffer (st_chan st) = []" "st_pending st = l # ls"
  shows "\<exists>st'. nri_step pl st st' \<and> running st' \<and> ch_buffer (st_chan st') = [l] \<and> st_pending st' = ls \<and>
    st_written st' = st_written st \<and> st_sent st' = st_sent st @ [l]"
proof -
  have "send_pending 0 st = Some (st\<lparr>st_chan := (st_chan st)\<lparr>ch_buffer := [l]\<rparr>, st_pending := ls, st_sent := st_sent st @ [l]\<rparr>)"
    using assms by (simp add: send_pending_def chan_send_def running_def)
  from send[OF _ _ this, of pl] assms show ?thesis by (auto simp: running_def)
qed

text \<open>While the goroutine runs, it comes closer to the state in which everything is written; the lists stay in order.\<close>

definition nri_ready :: "'w Plugin \<Rightarrow> NetworkDataChanStructList list \<Rightarrow> 'w nri_state \<Rightarrow> bool" where
  "nri_ready pl ls0 st \<longleftrightarrow> (\<forall>n cp w x. fst (cm_CreateCheckpoint (p_cm pl) n cp w) \<noteq> Panic x) \<and> (\<forall>ns n w x. p_getClaim pl ns n w \<noteq> Panic x) \<and>
     running st \<and> st_written st @ ch_buffer (st_chan st) @ st_pending st = ls0"

interpretation goroutine: progress "nri_step pl" "nri_ready pl ls0" "\<lambda>st. ch_buffer (st_chan st) = [] \<and> st_pending st = []"
    "\<lambda>st. length (ch_buffer (st_chan st)) + 2 * length (st_pending st)"
  for pl :: "'w Plugin" and ls0
proof unfold_locales
  fix st :: "'w nri_state"
  assume st: "nri_ready pl ls0 st" "\<not> (ch_buffer (st_chan st) = [] \<and> st_pending st = [])"
  show "\<exists>st'. nri_step pl st st' \<and> nri_ready pl ls0 st' \<and>
      length (ch_buffer (st_chan st')) + 2 * length (st_pending st') < length (ch_buffer (st_chan st)) + 2 * length (st_pending st)"
  proof (cases "ch_buffer (st_chan st)")
    case Nil
    then obtain l ls where "st_pending st = l # ls" using st(2) by (cases "st_pending st") auto
    then show ?thesis using send_progress[of st l ls pl] st(1) Nil by (force simp: nri_ready_def)
  next
    case (Cons l ls)
    then show ?thesis using receive_progress[of pl st l ls] st(1) by (force simp: nri_ready_def)
  qed
qed

interpretation nri: machine "nri_step pl" "\<lambda>st. (\<forall>n cp w x. fst (cm_CreateCheckpoint (p_cm pl) n cp w) \<noteq> Panic x) \<longrightarrow> nri_inv st"
  for pl :: "'w Plugin"
  by unfold_locales (blast intro: nri_inv_step)

section \<open>Properties\<close>

text \<open>C10. In every state the plugin reaches, with sandbox hooks, kubelet calls, the goroutine, a cancelled context and
  \<^verbatim>\<open>Stop\<close> in any order: the store keeps its invariant, at most 100 lists wait in the channel, the lists the
  goroutine wrote followed by those that wait are the lists accepted, in their order and none twice or lost, and every
  entry still points to an allocated device.\<close>

theorem nri_channel_invariant:
  assumes "pm_inv s" "\<And>n cp w x. fst (cm_CreateCheckpoint (p_cm pl) n cp w) \<noteq> Panic x" "(nri_step pl)\<^sup>*\<^sup>* (started s w) st"
  shows "pm_inv (st_store st) \<and> length (ch_buffer (st_chan st)) \<le> 100 \<and> st_sent st = st_written st @ ch_buffer (st_chan st) \<and>
    (\<forall>items \<in> set (st_sent st) \<union> set (st_pending st). \<forall>item \<in> set items. item_device (pm_heap (st_store st)) item \<noteq> None)"
proof -
  have "nri_inv st" by (rule nri.inv_run[OF assms(3), rule_format]) (simp_all add: nri_inv_started[OF assms(1)] assms(2))
  then show ?thesis using chan.history_spec unfolding nri_inv_def entries_valid_def by blast
qed

text \<open>C32. While the goroutine runs and the channel is open nothing gets stuck: however many hooks wait for the full
  channel, there is a run that writes all waiting lists, those of the channel first.\<close>

theorem nri_delivers:
  assumes "\<And>n cp w x. fst (cm_CreateCheckpoint (p_cm pl) n cp w) \<noteq> Panic x" "\<And>ns n w x. p_getClaim pl ns n w \<noteq> Panic x" "running st"
  shows "\<exists>st'. (nri_step pl)\<^sup>*\<^sup>* st st' \<and> ch_buffer (st_chan st') = [] \<and> st_pending st' = [] \<and>
    st_written st' = st_written st @ ch_buffer (st_chan st) @ st_pending st"
  using goroutine.reaches[of pl "st_written st @ ch_buffer (st_chan st) @ st_pending st" st] assms by (auto simp: nri_ready_def)

text \<open>C38. \<^verbatim>\<open>Stop\<close> closes the channel under the hooks: when a hook is about to send its list, \<^verbatim>\<open>Stop\<close> followed by
  the send crashes the process, and no later step can hand the list over; and a goroutine whose context is not
  cancelled spins on the closed channel without changing anything.\<close>

theorem Stop_crashes_pending_hook:
  assumes "\<not> st_crashed st" "\<not> ch_closed (st_chan st)" "st_pending st = items # rest"
  shows "nri_step pl st (Stop pl st) \<and> nri_step pl (Stop pl st) ((Stop pl st)\<lparr>st_crashed := True\<rparr>) \<and>
    (\<forall>i st'. send_pending i (Stop pl st) = Some st' \<longrightarrow> st_crashed st') \<and>
    (st_runner st \<and> ch_buffer (st_chan st) = [] \<and> p_range_groups pl [] = [] \<longrightarrow> nri_step pl (Stop pl st) (Stop pl st))"
proof -
  have st: "Stop pl st = st\<lparr>st_world := p_stub_Stop pl (st_world st), st_chan := (st_chan st)\<lparr>ch_closed := True\<rparr>\<rparr>" using assms(2) by (simp add: Stop_def Let_def chan_close_def)
  have crash: "send_pending i (Stop pl st) = Some ((Stop pl st)\<lparr>st_crashed := True\<rparr>)" for i
    by (simp add: send_pending_def st chan_send_def)
  have "updateNetworkDeviceDataRunner pl (Stop pl st) = Some (Stop pl st)"
    if "ch_buffer (st_chan st) = []" "p_range_groups pl [] = []"
    using that assms(1) by (simp add: updateNetworkDeviceDataRunner_def st chan_recv_def updateNetworkDeviceData_def groupNetworkDataByClaim_def)
  then show ?thesis
    using assms nri_step.stop[of st pl] nri_step.send[OF _ _ crash[of 0], of pl] nri_step.receive[of "Stop pl st" pl "Stop pl st"] crash
    by (simp add: st)
qed

section \<open>Witnesses\<close>

text \<open>One sandbox has started and its hook is about to send.\<close>

definition sending_plugin :: "unit Plugin" where
  "sending_plugin = nri_plugin nri_runtime None \<lparr>UpdateStatus = \<lambda>c w. (Inr c, w), GetClaim = \<lambda>n w. (Inl (External ''NotFound''), w)\<rparr>"

definition sending :: "unit nri_state" where
  "sending = run_hook sending_plugin nri_pod (started two_claims ())"

lemma sending_plugin_total:
  "fst (cm_CreateCheckpoint (p_cm sending_plugin) n cp w) \<noteq> Panic x" "p_getClaim sending_plugin ns n w \<noteq> Panic x" "p_range_groups sending_plugin [] = []"
  by (simp_all add: sending_plugin_def nri_plugin_def nri_server_def)

lemma sending_state:
  "running sending" "st_pending sending = [nri_items]" "ch_buffer (st_chan sending) = []" "st_written sending = []" "\<not> st_crashed sending"
  by code_simp+

lemma sending_reached: "(nri_step sending_plugin)\<^sup>*\<^sup>* (started two_claims ()) sending"
  unfolding sending_def by (rule r_into_rtranclp, rule nri_step.run) (simp add: started_def)

theorem nri_channel_invariant_witness:
  "\<exists>st. send_pending 0 sending = Some st \<and> st_sent st = [nri_items] \<and> st_sent st = st_written st @ ch_buffer (st_chan st) \<and>
     length (ch_buffer (st_chan st)) \<le> 100 \<and> pm_inv (st_store st)"
proof -
  have "send_pending 0 sending \<noteq> None" "map_option st_sent (send_pending 0 sending) = Some [nri_items]" by code_simp+
  then obtain st where st: "send_pending 0 sending = Some st" "st_sent st = [nri_items]" by auto
  have "nri_step sending_plugin sending st" by (rule nri_step.send[OF _ _ st(1)]) (simp_all add: sending_state)
  then have "(nri_step sending_plugin)\<^sup>*\<^sup>* (started two_claims ()) st" using sending_reached by simp
  from nri_channel_invariant[OF two_claims_inv sending_plugin_total(1) this] st show ?thesis by simp
qed

theorem nri_delivers_witness:
  "\<exists>st'. (nri_step sending_plugin)\<^sup>*\<^sup>* sending st' \<and> st_pending st' = [] \<and> st_written st' = [nri_items]"
  using nri_delivers[OF sending_plugin_total(1,2) sending_state(1)] sending_state by auto

theorem Stop_crashes_pending_hook_witness:
  "nri_step sending_plugin sending (Stop sending_plugin sending) \<and> nri_step sending_plugin (Stop sending_plugin sending) ((Stop sending_plugin sending)\<lparr>st_crashed := True\<rparr>)"
proof -
  have "\<not> ch_closed (st_chan sending)" using sending_state(1) by (simp add: running_def)
  from Stop_crashes_pending_hook[OF sending_state(5) this sending_state(2)] show ?thesis by blast
qed

end
