(* ===== verification/Controller.thy ===== *)
theory Controller
  imports PolicyState "HOL-Library.Multiset"
begin

text \<open>
  The policy controller of \<^verbatim>\<open>pkg/controller/resourcepolicycontroller.go\<close>: it reads the node, the policies
  and the attribute objects, computes which discovered devices the policies match and with which
  attributes, and hands the result to the device state. The device state is the Go interface
  \<^verbatim>\<open>devicestate.DeviceState\<close>; its contract is the locale \<open>device_state\<close>, interpreted on the manager.
  Label selectors are code of the Kubernetes libraries and an argument (\<open>asSel\<close>).
\<close>

section \<open>Filters\<close>

type_synonym labels = "(string, string) gomap"
type_synonym as_selector = "LabelSelector \<Rightarrow> (labels \<Rightarrow> bool) res"

fun stringSliceContains :: "string list \<Rightarrow> string \<Rightarrow> bool" where
  "stringSliceContains [] item = False"
| "stringSliceContains (s # slice) item = (if s = item then True else stringSliceContains slice item)"

text \<open>One block of \<^verbatim>\<open>deviceMatchesFilter\<close>: the values a filter lists against a string attribute.\<close>

definition attr_listed :: "string list \<Rightarrow> Device \<Rightarrow> QualifiedName \<Rightarrow> bool" where
  "attr_listed values device attr =
     (if length values > 0 then
        (case mget (dev_Attributes device) attr of
           None \<Rightarrow> False
         | Some a \<Rightarrow> (case StringValue a of None \<Rightarrow> False | Some v \<Rightarrow> stringSliceContains values v))
      else True)"

definition deviceMatchesFilter :: "Device \<Rightarrow> ResourceFilter \<Rightarrow> bool" where
  "deviceMatchesFilter device fltr =
     (if \<not> attr_listed (rf_Vendors fltr) device AttributeVendorID then False
      else if \<not> attr_listed (rf_Devices fltr) device AttributeDeviceID then False
      else if \<not> attr_listed (rf_PciAddresses fltr) device AttributePciAddress then False
      else if \<not> attr_listed (rf_PfNames fltr) device AttributePFName then False
      else if \<not> attr_listed (rf_PfPciAddresses fltr) device AttributePfPciAddress then False
      else if rf_LinkType fltr \<noteq> [] then
        (case mget (dev_Attributes device) AttributeLinkType of
           None \<Rightarrow> False
         | Some a \<Rightarrow> (case StringValue a of None \<Rightarrow> False | Some v \<Rightarrow> NormalizeLinkType (rf_LinkType fltr) = v))
      else True)"

definition deviceMatchesFilters :: "Device \<Rightarrow> ResourceFilter list \<Rightarrow> bool" where
  "deviceMatchesFilters device filters =
     (if length filters = 0 then True else list_ex (deviceMatchesFilter device) filters)"

section \<open>Node selectors\<close>

definition nodeSelectorTermToLabelSelector :: "NodeSelectorTerm \<Rightarrow> LabelSelector" where
  "nodeSelectorTermToLabelSelector trm = \<lparr>ls_MatchLabels = [], ls_MatchExpressions =
     map (\<lambda>req. \<lparr>lsr_Key = lsr_Key req, lsr_Operator = lsr_Operator req, lsr_Values = lsr_Values req\<rparr>)
       (nst_MatchExpressions trm)\<rparr>"

fun any_term_matches :: "as_selector \<Rightarrow> labels \<Rightarrow> NodeSelectorTerm list \<Rightarrow> bool" where
  "any_term_matches asSel nodeLabels [] = False"
| "any_term_matches asSel nodeLabels (trm # trms) =
     (case asSel (nodeSelectorTermToLabelSelector trm) of
        Ok selector \<Rightarrow> if selector nodeLabels then True else any_term_matches asSel nodeLabels trms
      | _ \<Rightarrow> any_term_matches asSel nodeLabels trms)"

definition matchesNodeSelector :: "as_selector \<Rightarrow> labels \<Rightarrow> NodeSelectorTerm list option \<Rightarrow> bool" where
  "matchesNodeSelector asSel nodeLabels nodeSelector =
     (case nodeSelector of None \<Rightarrow> True
      | Some trms \<Rightarrow> if length trms = 0 then True else any_term_matches asSel nodeLabels trms)"

section \<open>Resolving attributes and devices\<close>

text \<open>\<^verbatim>\<open>sort.Slice\<close> by name: the objects come from one list call in one namespace, where names are
  unique, so the result is the sorted list.\<close>

definition merge_attributes :: "DeviceAttributes list \<Rightarrow> attributes" where
  "merge_attributes das = foldl (\<lambda>merged da. mput_all merged (da_Attributes da)) [] das"

text \<open>The nil map of the early returns is the empty map: the caller only ranges over it.\<close>

definition resolveDeviceAttributes ::
  "as_selector \<Rightarrow> LabelSelector option \<Rightarrow> DeviceAttributes list \<Rightarrow> attributes" where
  "resolveDeviceAttributes asSel selector allDeviceAttrs =
     (case selector of None \<Rightarrow> []
      | Some ls \<Rightarrow> (case asSel ls of
           Ok sel \<Rightarrow> merge_attributes (sort_key da_Name (filter (\<lambda>da. sel (da_Labels da)) allDeviceAttrs))
         | _ \<Rightarrow> []))"

text \<open>The loop over the devices for one config.\<close>

fun match_devices :: "ResourceFilter list \<Rightarrow> attributes \<Rightarrow> (string, attributes) gomap \<Rightarrow>
    AllocatableDevices \<Rightarrow> (string, attributes) gomap" where
  "match_devices filters resolvedAttrs policyDevices [] = policyDevices"
| "match_devices filters resolvedAttrs policyDevices ((deviceName, device) # devices) =
     (if mhas policyDevices deviceName then match_devices filters resolvedAttrs policyDevices devices
      else if deviceMatchesFilters device filters
      then match_devices filters resolvedAttrs
             (mput policyDevices deviceName (mput_all [] resolvedAttrs)) devices
      else match_devices filters resolvedAttrs policyDevices devices)"

definition match_config :: "as_selector \<Rightarrow> DeviceAttributes list \<Rightarrow> AllocatableDevices \<Rightarrow>
    (string, attributes) gomap \<Rightarrow> Config \<Rightarrow> (string, attributes) gomap" where
  "match_config asSel allDeviceAttrs allocatableDevices policyDevices config =
     match_devices (cfg_ResourceFilters config)
       (resolveDeviceAttributes asSel (cfg_DeviceAttributesSelector config) allDeviceAttrs)
       policyDevices allocatableDevices"

definition match_policy :: "as_selector \<Rightarrow> DeviceAttributes list \<Rightarrow> AllocatableDevices \<Rightarrow>
    (string, attributes) gomap \<Rightarrow> SriovResourcePolicy \<Rightarrow> (string, attributes) gomap" where
  "match_policy asSel allDeviceAttrs allocatableDevices policyDevices policy =
     foldl (match_config asSel allDeviceAttrs allocatableDevices) policyDevices (pol_Configs policy)"

definition getPolicyDeviceMap :: "as_selector \<Rightarrow> AllocatableDevices \<Rightarrow> SriovResourcePolicy list \<Rightarrow>
    DeviceAttributes list \<Rightarrow> (string, attributes) gomap" where
  "getPolicyDeviceMap asSel allocatableDevices policies allDeviceAttrs =
     (if length policies = 0 then []
      else foldl (match_policy asSel allDeviceAttrs allocatableDevices) [] (sort_key pol_Name policies))"

section \<open>Reconcile\<close>

text \<open>The reads of the API client, and the classification of a failed read.\<close>

record reader =
  rd_Get_node :: "string \<Rightarrow> labels res"
  rd_List_policies :: "string \<Rightarrow> SriovResourcePolicy list res"
  rd_List_attributes :: "string \<Rightarrow> DeviceAttributes list res"
  rd_IsNotFound :: "error \<Rightarrow> bool"

text \<open>The reconciler's own fields; the client and the device state are arguments.\<close>

record Reconciler =
  rec_nodeName :: string
  rec_namespace :: string

text \<open>\<^verbatim>\<open>ctrl.Result\<close>: the delay after which to run again, in seconds; 0 is no delay.\<close>

record Result =
  RequeueAfter :: nat

text \<open>The interface \<^verbatim>\<open>devicestate.DeviceState\<close> over a state \<open>'d\<close> and a world \<open>'w\<close>.\<close>

record ('d, 'w) DeviceState =
  ds_GetAllocatableDevices :: "'d \<Rightarrow> AllocatableDevices"
  ds_UpdatePolicyDevices :: "'d \<Rightarrow> (string, attributes) gomap \<Rightarrow> 'w \<Rightarrow> (unit res \<times> 'd) \<times> 'w"

definition Reconcile :: "as_selector \<Rightarrow> reader \<Rightarrow> ('d, 'w) DeviceState \<Rightarrow> Reconciler \<Rightarrow> 'd \<Rightarrow> 'w \<Rightarrow>
    (Result res \<times> 'd) \<times> 'w" where
  "Reconcile asSel rd ds r d w =
     (case rd_Get_node rd (rec_nodeName r) of
        Err err \<Rightarrow> if rd_IsNotFound rd err then ((Ok \<lparr>RequeueAfter = 30\<rparr>, d), w) else ((Err err, d), w)
      | Panic p \<Rightarrow> ((Panic p, d), w)
      | Ok nodeLabels \<Rightarrow>
     (case rd_List_policies rd (rec_namespace r) of
        Err err \<Rightarrow> ((Err err, d), w)
      | Panic p \<Rightarrow> ((Panic p, d), w)
      | Ok resourcePolicyList \<Rightarrow>
     (case rd_List_attributes rd (rec_namespace r) of
        Err err \<Rightarrow> ((Err err, d), w)
      | Panic p \<Rightarrow> ((Panic p, d), w)
      | Ok deviceAttrList \<Rightarrow>
          let matchingPolicies =
                filter (\<lambda>policy. matchesNodeSelector asSel nodeLabels (pol_NodeSelector policy)) resourcePolicyList;
              policyDevices =
                getPolicyDeviceMap asSel (ds_GetAllocatableDevices ds d) matchingPolicies deviceAttrList
          in (case ds_UpdatePolicyDevices ds d policyDevices w of
                ((Err err, d'), w') \<Rightarrow> ((Err err, d'), w')
              | ((Panic p, d'), w') \<Rightarrow> ((Panic p, d'), w')
              | ((Ok _, d'), w') \<Rightarrow> ((Ok \<lparr>RequeueAfter = 0\<rparr>, d'), w')))))"

section \<open>Events\<close>

text \<open>The watch handlers of \<^verbatim>\<open>SetupWithManager\<close>: what a watched object shows, the four kinds of event, and
  the requests each handler puts on the queue.\<close>

record watched =
  obj_Name :: string
  obj_Namespace :: string
  obj_Labels :: labels

datatype event = CreateEvent watched | UpdateEvent watched watched | DeleteEvent watched | GenericEvent watched

definition resourcePolicySyncEventName :: string where
  "resourcePolicySyncEventName = ''resource-policy-sync''"

type_synonym request = "string \<times> string"  \<comment> \<open>namespace and name\<close>

definition qHandler :: "Reconciler \<Rightarrow> request list" where
  "qHandler r = [(rec_namespace r, resourcePolicySyncEventName)]"

definition delayedEventHandler :: "Reconciler \<Rightarrow> event \<Rightarrow> request list" where
  "delayedEventHandler r e =
     (case e of CreateEvent obj \<Rightarrow> qHandler r | UpdateEvent obj_old obj_new \<Rightarrow> qHandler r
      | DeleteEvent obj \<Rightarrow> qHandler r | GenericEvent obj \<Rightarrow> qHandler r)"

text \<open>\<^verbatim>\<open>labels.Equals\<close>: the same keys with the same values.\<close>

definition labels_Equals :: "labels \<Rightarrow> labels \<Rightarrow> bool" where
  "labels_Equals a b = (length a = length b \<and> list_all (\<lambda>(k, v). mget b k = Some v) a)"

definition nodeEventHandler :: "Reconciler \<Rightarrow> event \<Rightarrow> request list" where
  "nodeEventHandler r e =
     (case e of
        CreateEvent obj \<Rightarrow> if obj_Name obj = rec_nodeName r then qHandler r else []
      | UpdateEvent obj_old obj_new \<Rightarrow>
          if obj_Name obj_new = rec_nodeName r then
            (if \<not> labels_Equals (obj_Labels obj_old) (obj_Labels obj_new) then qHandler r else [])
          else []
      | DeleteEvent obj \<Rightarrow> if obj_Name obj = rec_nodeName r then qHandler r else []
      | GenericEvent obj \<Rightarrow> [])"

text \<open>\<^verbatim>\<open>predicate.NewPredicateFuncs\<close> applies its function to the object of the event, the new one for an
  update.\<close>

definition namespacePredicate :: "Reconciler \<Rightarrow> event \<Rightarrow> bool" where
  "namespacePredicate r e =
     (case e of CreateEvent obj \<Rightarrow> obj_Namespace obj = rec_namespace r
      | UpdateEvent obj_old obj_new \<Rightarrow> obj_Namespace obj_new = rec_namespace r
      | DeleteEvent obj \<Rightarrow> obj_Namespace obj = rec_namespace r
      | GenericEvent obj \<Rightarrow> obj_Namespace obj = rec_namespace r)"

section \<open>Lemmas: filters\<close>

lemma stringSliceContains_iff [simp]: "stringSliceContains xs x \<longleftrightarrow> x \<in> set xs"
  by (induction xs) auto

text \<open>The string value of an attribute of a device.\<close>

definition str_value :: "Device \<Rightarrow> QualifiedName \<Rightarrow> string option" where
  "str_value d k = Option.bind (map_of (dev_Attributes d) k) StringValue"

lemma attr_listed_iff: "attr_listed vs d k \<longleftrightarrow> vs = [] \<or> (\<exists>v \<in> set vs. str_value d k = Some v)"
  by (auto simp: attr_listed_def str_value_def split: option.splits)

text \<open>The filter as a conjunction of criteria, each a list of accepted values for one attribute.\<close>

definition criteria :: "ResourceFilter \<Rightarrow> (string list \<times> QualifiedName) list" where
  "criteria f = [(rf_Vendors f, AttributeVendorID), (rf_Devices f, AttributeDeviceID),
     (rf_PciAddresses f, AttributePciAddress), (rf_PfNames f, AttributePFName),
     (rf_PfPciAddresses f, AttributePfPciAddress),
     (if rf_LinkType f = [] then [] else [NormalizeLinkType (rf_LinkType f)], AttributeLinkType)]"

lemma deviceMatchesFilter_criteria:
  "deviceMatchesFilter d f \<longleftrightarrow> list_all (\<lambda>(vs, k). attr_listed vs d k) (criteria f)"
proof -
  have "(case mget (dev_Attributes d) AttributeLinkType of None \<Rightarrow> False
      | Some a \<Rightarrow> (case StringValue a of None \<Rightarrow> False | Some v \<Rightarrow> l = v)) = attr_listed [l] d AttributeLinkType" for l
    by (auto simp: attr_listed_def split: option.split)
  moreover have "attr_listed [] d k" for k by (simp add: attr_listed_def)
  ultimately show ?thesis by (simp add: deviceMatchesFilter_def criteria_def)
qed

text \<open>The filter predicate is what the documentation of the filters says: every criterion that lists
  values must find one of them in the device's attribute, the link type after normalisation, and a
  filter without criteria accepts every device; a list of filters accepts when one of them does or
  when the list is empty.\<close>

theorem deviceMatchesFilters_iff:
  "deviceMatchesFilters d fs \<longleftrightarrow>
     fs = [] \<or> list_ex (\<lambda>f. list_all (\<lambda>(vs, k). vs = [] \<or> (\<exists>v. str_value d k = Some v \<and> List.member vs v)) (criteria f)) fs"
proof -
  have "attr_listed vs d k \<longleftrightarrow> vs = [] \<or> (\<exists>v. str_value d k = Some v \<and> List.member vs v)" for vs k
    by (auto simp: attr_listed_iff)
  then have "deviceMatchesFilter d =
      (\<lambda>f. list_all (\<lambda>(vs, k). vs = [] \<or> (\<exists>v. str_value d k = Some v \<and> List.member vs v)) (criteria f))"
    by (simp add: fun_eq_iff deviceMatchesFilter_criteria)
  then show ?thesis by (simp add: deviceMatchesFilters_def)
qed

lemma deviceMatchesFilters_cong:
  assumes "\<And>k. is_reserved k \<Longrightarrow> map_of (dev_Attributes d) k = map_of (dev_Attributes e) k"
  shows "deviceMatchesFilters d fs = deviceMatchesFilters e fs"
proof -
  have "is_reserved AttributeVendorID" "is_reserved AttributeDeviceID" "is_reserved AttributePciAddress"
    "is_reserved AttributePFName" "is_reserved AttributePfPciAddress" "is_reserved AttributeLinkType"
    by (simp_all add: is_reserved_def ReservedAttributes_def)
  note eq = this[THEN assms]
  have "deviceMatchesFilter d = deviceMatchesFilter e"
    by (simp add: fun_eq_iff deviceMatchesFilter_def attr_listed_def eq)
  then show ?thesis by (simp add: deviceMatchesFilters_def)
qed

section \<open>Lemmas: attributes\<close>

lemma merge_attributes_snoc:
  "merge_attributes (das @ [da]) = mput_all (merge_attributes das) (da_Attributes da)"
  by (simp add: merge_attributes_def)

lemma wf_merge_attributes: "wf_map (merge_attributes das)"
  by (induction das rule: rev_induct) (simp_all add: merge_attributes_snoc, simp add: merge_attributes_def)

lemma wf_resolveDeviceAttributes: "wf_map (resolveDeviceAttributes asSel sel das)"
  by (simp add: resolveDeviceAttributes_def wf_merge_attributes split: option.split res.split)

lemma merge_attributes_last:
  assumes "\<forall>da \<in> set das. wf_map (da_Attributes da)" "sorted (map da_Name das)" "distinct (map da_Name das)"
  shows "map_of (merge_attributes das) k = Some v \<longleftrightarrow>
    (\<exists>da \<in> set das. map_of (da_Attributes da) k = Some v \<and>
      (\<forall>db \<in> set das. k \<in> mkeys (da_Attributes db) \<longrightarrow> da_Name db \<le> da_Name da))"
  using assms
proof (induction das arbitrary: v rule: rev_induct)
  case Nil
  then show ?case by (simp add: merge_attributes_def)
next
  case (snoc da das)
  have ih: "map_of (merge_attributes das) k = Some u \<longleftrightarrow>
    (\<exists>da \<in> set das. map_of (da_Attributes da) k = Some u \<and>
      (\<forall>db \<in> set das. k \<in> mkeys (da_Attributes db) \<longrightarrow> da_Name db \<le> da_Name da))" for u
    using snoc by (simp add: sorted_append)
  have le: "db \<in> set das \<Longrightarrow> da_Name db \<le> da_Name da" and ne: "db \<in> set das \<Longrightarrow> da_Name db \<noteq> da_Name da" for db
    using snoc.prems by (auto simp: sorted_append image_iff)
  have eq: "map_of (merge_attributes (das @ [da])) = map_of (merge_attributes das) ++ map_of (da_Attributes da)"
    using snoc.prems(1) by (simp add: merge_attributes_snoc map_of_mput_all_wf)
  show ?case
  proof (cases "map_of (da_Attributes da) k")
    case None
    then have "k \<notin> mkeys (da_Attributes da)" by (simp add: mkeys_iff)
    then show ?thesis using ih[of v] None by (auto simp: eq map_add_def)
  next
    case (Some u)
    then have "k \<in> mkeys (da_Attributes da)" by (simp add: mkeys_iff)
    then show ?thesis using Some le ne
      by (auto simp: eq map_add_def) (meson order_antisym)+
  qed
qed

text \<open>The objects a selector selects.\<close>

definition selected :: "as_selector \<Rightarrow> LabelSelector \<Rightarrow> DeviceAttributes list \<Rightarrow> DeviceAttributes set" where
  "selected asSel ls das = {da \<in> set das. \<exists>sel. asSel ls = Ok sel \<and> sel (da_Labels da)}"

text \<open>\<^verbatim>\<open>resolveDeviceAttributes\<close> is deterministic: of the selected objects that define a key, the one with
  the alphabetically last name gives the value, whatever order the API server lists the objects in; a
  key no selected object defines is absent, and an invalid selector selects nothing.\<close>

theorem resolveDeviceAttributes_last_name_wins:
  assumes "distinct (map da_Name das)" "\<forall>da \<in> set das. wf_map (da_Attributes da)"
  shows "map_of (resolveDeviceAttributes asSel (Some ls) das) k = Some v \<longleftrightarrow>
    (\<exists>da \<in> selected asSel ls das. map_of (da_Attributes da) k = Some v \<and>
      (\<forall>db \<in> selected asSel ls das. k \<in> mkeys (da_Attributes db) \<longrightarrow> da_Name db \<le> da_Name da))"
proof (cases "asSel ls")
  case (Ok sel)
  define das' where "das' = sort_key da_Name (filter (\<lambda>da. sel (da_Labels da)) das)"
  have "mset (map da_Name das') = mset (map da_Name (filter (\<lambda>da. sel (da_Labels da)) das))"
    by (simp add: das'_def)
  then have "distinct (map da_Name das') = distinct (map da_Name (filter (\<lambda>da. sel (da_Labels da)) das))"
    by (rule mset_eq_imp_distinct_iff)
  then have "distinct (map da_Name das')" using assms(1) by (simp add: distinct_map_filter)
  moreover have "sorted (map da_Name das')" by (simp add: das'_def)
  moreover have "set das' = selected asSel ls das" by (auto simp: das'_def selected_def Ok)
  moreover have "\<forall>da \<in> set das'. wf_map (da_Attributes da)" using assms(2) by (simp add: das'_def)
  moreover have "resolveDeviceAttributes asSel (Some ls) das = merge_attributes das'"
    by (simp add: resolveDeviceAttributes_def Ok das'_def)
  ultimately show ?thesis using merge_attributes_last[of das'] by simp
qed (simp_all add: resolveDeviceAttributes_def selected_def)

text \<open>A selector library that handles match labels only, and two attribute objects, for evaluation.\<close>

definition match_labels_only :: as_selector where
  "match_labels_only ls = (if ls_MatchExpressions ls = []
     then Ok (\<lambda>labels. list_all (\<lambda>(k, v). mget labels k = Some v) (ls_MatchLabels ls))
     else Err (External ''unsupported''))"

definition example_attrs :: "string \<Rightarrow> string \<Rightarrow> DeviceAttributes" where
  "example_attrs n v = \<lparr>da_Name = n, da_Namespace = ''ns'', da_Labels = [(''pool'', ''a'')],
     da_Attributes = [(''x'', str_attr v)]\<rparr>"

abbreviation example_selector :: LabelSelector where
  "example_selector \<equiv> \<lparr>ls_MatchLabels = [(''pool'', ''a'')], ls_MatchExpressions = []\<rparr>"

theorem resolveDeviceAttributes_last_name_wins_witness:
  "map_of (resolveDeviceAttributes match_labels_only (Some example_selector)
     [example_attrs ''b'' ''2'', example_attrs ''a'' ''1'']) ''x'' = Some (str_attr ''2'')"
proof -
  define das where "das = [example_attrs ''b'' ''2'', example_attrs ''a'' ''1'']"
  have pre: "distinct (map da_Name das)" "\<forall>da \<in> set das. wf_map (da_Attributes da)"
    by (simp_all add: das_def example_attrs_def)
  have sel: "selected match_labels_only example_selector das = set das"
    by (auto simp: selected_def match_labels_only_def das_def example_attrs_def)
  have "''a'' \<le> (''b'' :: string)" by (simp add: less_eq_list_code less_eq_char_simp)
  then show ?thesis
    using resolveDeviceAttributes_last_name_wins[OF pre, of match_labels_only example_selector "''x''" "str_attr ''2''"]
    unfolding sel das_def[symmetric] by (simp add: das_def example_attrs_def)
qed

section \<open>Lemmas: the device map\<close>

lemma match_devices_lookup:
  assumes "wf_map devs"
  shows "map_of (match_devices fs ra P devs) n =
    (if map_of P n \<noteq> None then map_of P n
     else case map_of devs n of None \<Rightarrow> None
       | Some d \<Rightarrow> if deviceMatchesFilters d fs then Some (mput_all [] ra) else None)"
  using assms
proof (induction fs ra P devs rule: match_devices.induct)
  case (2 fs ra P m d devs)
  then have "map_of devs m = None" by (simp add: mkeys_dom domIff)
  with 2 show ?case by (auto simp: mhas_def split: option.splits)
qed simp

lemma wf_match_devices: "wf_map P \<Longrightarrow> wf_map (match_devices fs ra P devs)"
  by (induction fs ra P devs rule: match_devices.induct) auto

text \<open>The configurations of the policies, in the order of the policies' names.\<close>

definition all_configs :: "SriovResourcePolicy list \<Rightarrow> Config list" where
  "all_configs policies = concat (map pol_Configs (sort_key pol_Name policies))"

lemma getPolicyDeviceMap_fold:
  "getPolicyDeviceMap asSel devs ps das = foldl (match_config asSel das devs) [] (all_configs ps)"
proof -
  have "foldl (match_policy asSel das devs) P qs = foldl (match_config asSel das devs) P (concat (map pol_Configs qs))"
    for P qs by (induction qs arbitrary: P) (simp_all add: match_policy_def)
  then show ?thesis by (simp add: getPolicyDeviceMap_def all_configs_def)
qed

lemma match_configs_lookup:
  assumes "wf_map devs"
  shows "map_of (foldl (match_config asSel das devs) P cs) n =
    (if map_of P n \<noteq> None then map_of P n
     else case map_of devs n of None \<Rightarrow> None
       | Some d \<Rightarrow> map_option (\<lambda>c. mput_all [] (resolveDeviceAttributes asSel (cfg_DeviceAttributesSelector c) das))
           (find (\<lambda>c. deviceMatchesFilters d (cfg_ResourceFilters c)) cs))"
  by (induction cs arbitrary: P)
     (auto simp: match_config_def match_devices_lookup[OF assms] split: option.splits)

lemma wf_match_configs: "wf_map P \<Longrightarrow> wf_map (foldl (match_config asSel das devs) P cs)"
  by (induction cs arbitrary: P) (simp_all add: match_config_def wf_match_devices)

text \<open>The configuration that decides about a device: the first one, policies by name, whose filters
  accept it.\<close>

definition deciding_config :: "SriovResourcePolicy list \<Rightarrow> Device \<Rightarrow> Config option" where
  "deciding_config policies d = find (\<lambda>c. deviceMatchesFilters d (cfg_ResourceFilters c)) (all_configs policies)"

lemma getPolicyDeviceMap_lookup:
  assumes "wf_map devs"
  shows "map_of (getPolicyDeviceMap asSel devs ps das) n =
    (case map_of devs n of None \<Rightarrow> None
     | Some d \<Rightarrow> map_option (\<lambda>c. mput_all [] (resolveDeviceAttributes asSel (cfg_DeviceAttributesSelector c) das))
         (deciding_config ps d))"
  by (simp add: getPolicyDeviceMap_fold match_configs_lookup[OF assms] deciding_config_def split: option.split)

lemma wf_getPolicyDeviceMap:
  assumes "wf_map devs" shows "wf_policies (getPolicyDeviceMap asSel devs ps das)"
proof -
  have wf: "wf_map (getPolicyDeviceMap asSel devs ps das)"
    by (simp add: getPolicyDeviceMap_fold wf_match_configs)
  moreover have "wf_map a" if "(n, a) \<in> set (getPolicyDeviceMap asSel devs ps das)" for n a
    using that unfolding map_of_in_set[OF wf] getPolicyDeviceMap_lookup[OF assms]
    by (auto split: option.splits)
  ultimately show ?thesis by (auto simp: wf_policies_def)
qed

text \<open>C19. \<^verbatim>\<open>getPolicyDeviceMap\<close> gives every discovered device the configuration that comes first among the
  policies sorted by name and matches it, with the attributes that configuration selects; a device no
  configuration matches, or that was not discovered, is not in the map. A later policy never overrides
  an earlier one.\<close>

theorem getPolicyDeviceMap_first_match:
  assumes "wf_map devs"
  shows "map_option map_of (map_of (getPolicyDeviceMap asSel devs ps das) n) =
    Option.bind (map_of devs n) (\<lambda>d. map_option
      (\<lambda>c. map_of (resolveDeviceAttributes asSel (cfg_DeviceAttributesSelector c) das)) (deciding_config ps d))"
  by (auto simp: getPolicyDeviceMap_lookup[OF assms] map_of_mput_all_wf[OF wf_resolveDeviceAttributes]
      map_option_case split: option.splits)

abbreviation example_policy :: "string \<Rightarrow> Config list \<Rightarrow> SriovResourcePolicy" where
  "example_policy n cs \<equiv> \<lparr>pol_Name = n, pol_Namespace = ''ns'', pol_NodeSelector = None, pol_Configs = cs\<rparr>"

theorem getPolicyDeviceMap_first_match_witness:
  "map_option map_of (map_of (getPolicyDeviceMap match_labels_only [(''vf0'', example_device)]
     [example_policy ''p'' [\<lparr>cfg_DeviceAttributesSelector = None, cfg_ResourceFilters = []\<rparr>]] []) ''vf0'') = Some Map.empty"
proof -
  have "wf_map [(''vf0'', example_device)]" by simp
  from getPolicyDeviceMap_first_match[OF this, of match_labels_only _ "[]" "''vf0''"] show ?thesis
    by (simp add: deciding_config_def all_configs_def deviceMatchesFilters_def resolveDeviceAttributes_def)
qed

section \<open>The contract of the device state\<close>

locale device_state =
  fixes alloc :: "'d \<Rightarrow> AllocatableDevices"
    and update :: "'d \<Rightarrow> (string, attributes) gomap \<Rightarrow> 'w \<Rightarrow> (unit res \<times> 'd) \<times> 'w"
    and inv :: "'d \<Rightarrow> bool"
    and adv :: "'d \<Rightarrow> string set"
  assumes alloc_wf: "inv d \<Longrightarrow> wf_map (alloc d)"
    and update_inv: "inv d \<Longrightarrow> wf_policies P \<Longrightarrow> inv (snd (fst (update d P w)))"
    and update_adv: "inv d \<Longrightarrow> wf_policies P \<Longrightarrow> adv (snd (fst (update d P w))) = mkeys P \<inter> mkeys (alloc d)"
    and update_devices: "inv d \<Longrightarrow> wf_policies P \<Longrightarrow>
      rel_option (\<lambda>x y. \<forall>k. is_reserved k \<longrightarrow> map_of (dev_Attributes x) k = map_of (dev_Attributes y) k)
        (map_of (alloc d) n) (map_of (alloc (snd (fst (update d P w)))) n)"
    and update_settles: "inv d \<Longrightarrow> wf_policies P \<Longrightarrow> wf_policies Q \<Longrightarrow> mkeys P \<subseteq> mkeys (alloc d) \<Longrightarrow>
      map_of Q = map_of P \<Longrightarrow> \<exists>v. update (snd (fst (update d P w))) Q w' = ((Ok (), v), w')"
begin

abbreviation ds :: "('d, 'w) DeviceState" where
  "ds \<equiv> \<lparr>ds_GetAllocatableDevices = alloc, ds_UpdatePolicyDevices = update\<rparr>"

text \<open>A reconcile whose reads succeed is one update with the matching devices.\<close>

lemma reconcile_update:
  fixes asSel rd r labels ps das d w
  assumes "rd_Get_node rd (rec_nodeName r) = Ok labels" "rd_List_policies rd (rec_namespace r) = Ok ps"
    "rd_List_attributes rd (rec_namespace r) = Ok das"
  defines "P \<equiv> getPolicyDeviceMap asSel (alloc d)
      (filter (\<lambda>p. matchesNodeSelector asSel labels (pol_NodeSelector p)) ps) das"
  shows "snd (fst (Reconcile asSel rd ds r d w)) = snd (fst (update d P w))"
    and "snd (Reconcile asSel rd ds r d w) = snd (update d P w)"
    and "fst (fst (update d P w)) = Ok () \<Longrightarrow> fst (fst (Reconcile asSel rd ds r d w)) = Ok \<lparr>RequeueAfter = 0\<rparr>"
  using assms(1-3) unfolding P_def
  by (auto simp: Reconcile_def case_prod_beta Let_def split: res.split)

lemma reconcile_advertises:
  assumes "inv d" "rd_Get_node rd (rec_nodeName r) = Ok labels" "rd_List_policies rd (rec_namespace r) = Ok ps"
    "rd_List_attributes rd (rec_namespace r) = Ok das"
  shows "adv (snd (fst (Reconcile asSel rd ds r d w))) =
    {n. \<exists>dev p c. map_of (alloc d) n = Some dev \<and> p \<in> set ps \<and> matchesNodeSelector asSel labels (pol_NodeSelector p) \<and>
       c \<in> set (pol_Configs p) \<and> deviceMatchesFilters dev (cfg_ResourceFilters c)}"
    and "inv (snd (fst (Reconcile asSel rd ds r d w)))"
proof -
  define qs where "qs = filter (\<lambda>p. matchesNodeSelector asSel labels (pol_NodeSelector p)) ps"
  define P where "P = getPolicyDeviceMap asSel (alloc d) qs das"
  note wf = alloc_wf[OF assms(1)]
  have wp: "wf_policies P" unfolding P_def by (rule wf_getPolicyDeviceMap[OF wf])
  have st: "snd (fst (Reconcile asSel rd ds r d w)) = snd (fst (update d P w))"
    unfolding P_def qs_def by (rule reconcile_update(1)[OF assms(2-4)])
  show "inv (snd (fst (Reconcile asSel rd ds r d w)))" unfolding st by (rule update_inv[OF assms(1) wp])
  have dc: "deciding_config qs dev \<noteq> None \<longleftrightarrow>
      (\<exists>p \<in> set qs. \<exists>c \<in> set (pol_Configs p). deviceMatchesFilters dev (cfg_ResourceFilters c))" for dev
    by (auto simp: deciding_config_def find_None_iff all_configs_def)
  have mem: "n \<in> mkeys P \<inter> mkeys (alloc d) \<longleftrightarrow> (\<exists>dev. map_of (alloc d) n = Some dev \<and>
      (\<exists>p \<in> set qs. \<exists>c \<in> set (pol_Configs p). deviceMatchesFilters dev (cfg_ResourceFilters c)))" for n
    unfolding dc[symmetric] by (auto simp: mkeys_iff P_def getPolicyDeviceMap_lookup[OF wf] split: option.splits)
  show "adv (snd (fst (Reconcile asSel rd ds r d w))) =
    {n. \<exists>dev p c. map_of (alloc d) n = Some dev \<and> p \<in> set ps \<and> matchesNodeSelector asSel labels (pol_NodeSelector p) \<and>
       c \<in> set (pol_Configs p) \<and> deviceMatchesFilters dev (cfg_ResourceFilters c)}"
    unfolding st update_adv[OF assms(1) wp] set_eq_iff mem by (auto simp: qs_def)
qed

text \<open>The device map only depends on the discovery attributes, which updates keep.\<close>

lemma device_map_stable:
  assumes "inv d" "wf_policies P"
  shows "map_of (getPolicyDeviceMap asSel (alloc (snd (fst (update d P w)))) qs das) =
    map_of (getPolicyDeviceMap asSel (alloc d) qs das)"
proof
  fix n
  have dc: "deciding_config qs x = deciding_config qs y"
    if "\<forall>k. is_reserved k \<longrightarrow> map_of (dev_Attributes x) k = map_of (dev_Attributes y) k" for x y
    using deviceMatchesFilters_cong[of x y] that by (simp add: deciding_config_def)
  note wfs = alloc_wf[OF assms(1)] alloc_wf[OF update_inv[OF assms]]
  show "map_of (getPolicyDeviceMap asSel (alloc (snd (fst (update d P w)))) qs das) n =
    map_of (getPolicyDeviceMap asSel (alloc d) qs das) n"
    using update_devices[OF assms, of n w]
    by (cases rule: option.rel_cases) (auto simp: getPolicyDeviceMap_lookup[OF wfs(1)]
        getPolicyDeviceMap_lookup[OF wfs(2)] dest: dc)
qed

lemma reconcile_settles:
  assumes "inv d" "rd_Get_node rd (rec_nodeName r) = Ok labels" "rd_List_policies rd (rec_namespace r) = Ok ps"
    "rd_List_attributes rd (rec_namespace r) = Ok das"
  shows "\<exists>v. Reconcile asSel rd ds r (snd (fst (Reconcile asSel rd ds r d w))) w' = ((Ok \<lparr>RequeueAfter = 0\<rparr>, v), w')"
proof -
  define qs where "qs = filter (\<lambda>p. matchesNodeSelector asSel labels (pol_NodeSelector p)) ps"
  define P where "P = getPolicyDeviceMap asSel (alloc d) qs das"
  define u where "u = snd (fst (update d P w))"
  define Q where "Q = getPolicyDeviceMap asSel (alloc u) qs das"
  note wf = alloc_wf[OF assms(1)]
  have wp: "wf_policies P" unfolding P_def by (rule wf_getPolicyDeviceMap[OF wf])
  have wq: "wf_policies Q"
    unfolding Q_def u_def by (rule wf_getPolicyDeviceMap[OF alloc_wf[OF update_inv[OF assms(1) wp]]])
  have "map_of Q = map_of P" unfolding Q_def P_def u_def by (rule device_map_stable[OF assms(1) wp, unfolded P_def])
  moreover have "mkeys P \<subseteq> mkeys (alloc d)"
    by (auto simp: mkeys_iff P_def getPolicyDeviceMap_lookup[OF wf] split: option.splits)
  ultimately obtain v where v: "update u Q w' = ((Ok (), v), w')"
    using update_settles[OF assms(1) wp wq] unfolding u_def by blast
  have "snd (fst (Reconcile asSel rd ds r d w)) = u"
    unfolding u_def P_def qs_def by (rule reconcile_update(1)[OF assms(2-4)])
  then show ?thesis
    using assms(2-4) v by (simp add: Reconcile_def Q_def qs_def)
qed

end

section \<open>The manager as device state\<close>

lemma attrs_of_lookup: "map_of (allocatable s) n = Some d \<Longrightarrow> attrs_of s n = map_of (dev_Attributes d)"
  by (simp add: attrs_of_def)

lemma reserved_attrs:
  assumes "manager_inv s" "is_reserved k" shows "attrs_of s n k = discovery_attrs s n k"
proof -
  have "k \<notin> policy_keys s n" using assms by (auto simp: manager_inv_def policy_keys_def split: option.splits)
  then show ?thesis by (simp add: discovery_attrs_def)
qed

lemma update_keeps_reserved:
  fixes s P
  assumes inv: "manager_inv s" and wf: "wf_policies P"
  defines "u \<equiv> snd (update_policy_state s P)"
  shows "rel_option (\<lambda>x y. \<forall>k. is_reserved k \<longrightarrow> map_of (dev_Attributes x) k = map_of (dev_Attributes y) k)
    (map_of (allocatable s) n) (map_of (allocatable u) n)"
proof -
  have "mkeys (allocatable u) = mkeys (allocatable s)"
    using update_policy_state_effect(4)[OF wf, of s] by (simp add: u_def same_frame_def)
  then have "map_of (allocatable u) n = None \<longleftrightarrow> map_of (allocatable s) n = None"
    by (metis mkeys_iff not_None_eq)
  moreover note ui = update_policy_state_inv[OF wf inv, folded u_def]
  have "is_reserved k \<Longrightarrow> attrs_of u n k = attrs_of s n k" for k
    using reserved_attrs[OF ui(1), of k n] reserved_attrs[OF inv, of k n] ui(2) by simp
  ultimately show ?thesis
    by (cases "map_of (allocatable s) n"; cases "map_of (allocatable u) n") (auto simp: attrs_of_lookup)
qed

interpretation managed: device_state GetAllocatableDevices "UpdatePolicyDevices cb" manager_inv advertised
proof (unfold_locales, goal_cases)
  case (1 d)
  then show ?case by (simp add: manager_inv_def GetAllocatableDevices_def)
next
  case (2 d P w)
  then show ?case by (simp add: UpdatePolicyDevices_state update_policy_state_inv(1))
next
  case (3 d P w)
  then show ?case
    using update_policy_state_inv(3)[OF 3(2,1)] update_policy_state_effect(4)[OF 3(2), of d]
    by (auto simp: UpdatePolicyDevices_state advertised_eq GetAllocatableDevices_def same_frame_def)
next
  case (4 d P n w)
  then show ?case using update_keeps_reserved by (simp add: UpdatePolicyDevices_state GetAllocatableDevices_def)
next
  case (5 d P Q w w')
  then have "\<not> fst (update_policy_state (snd (update_policy_state d P)) Q)"
    using repeat_unchanged[of d P Q] by (simp add: GetAllocatableDevices_def)
  from UpdatePolicyDevices_quiet[OF this, of cb w'] show ?case by (simp add: UpdatePolicyDevices_state)
qed

definition manager_ds :: "'w republish option \<Rightarrow> (Manager, 'w) DeviceState" where
  "manager_ds cb = \<lparr>ds_GetAllocatableDevices = GetAllocatableDevices, ds_UpdatePolicyDevices = UpdatePolicyDevices cb\<rparr>"

text \<open>C16. A reconcile whose reads succeed makes the node advertise exactly the discovered devices that
  some configuration of some policy for this node accepts, and re-establishes the manager's invariant,
  whether or not the republish succeeds.\<close>

theorem Reconcile_advertises:
  assumes "manager_inv s" "rd_Get_node rd (rec_nodeName r) = Ok nodeLabels"
    "rd_List_policies rd (rec_namespace r) = Ok ps" "rd_List_attributes rd (rec_namespace r) = Ok das"
  shows "advertised (snd (fst (Reconcile asSel rd (manager_ds cb) r s w))) =
    {n. \<exists>dev p c. GetAllocatableDeviceByName s n = Some dev \<and> p \<in> set ps \<and>
       matchesNodeSelector asSel nodeLabels (pol_NodeSelector p) \<and>
       c \<in> set (pol_Configs p) \<and> deviceMatchesFilters dev (cfg_ResourceFilters c)} \<and>
    manager_inv (snd (fst (Reconcile asSel rd (manager_ds cb) r s w)))"
  using managed.reconcile_advertises[where asSel = asSel and cb = cb and w = w, OF assms]
  by (simp add: manager_ds_def GetAllocatableDeviceByName_def GetAllocatableDevices_def)

definition example_reader :: "SriovResourcePolicy list \<Rightarrow> reader" where
  "example_reader ps = \<lparr>rd_Get_node = (\<lambda>_. Ok []), rd_List_policies = (\<lambda>_. Ok ps),
     rd_List_attributes = (\<lambda>_. Ok [example_attrs ''a'' ''1'']), rd_IsNotFound = (\<lambda>_. False)\<rparr>"

abbreviation example_reconciler :: Reconciler where
  "example_reconciler \<equiv> \<lparr>rec_nodeName = ''node'', rec_namespace = ''ns''\<rparr>"

abbreviation example_policies :: "SriovResourcePolicy list" where
  "example_policies \<equiv>
     [example_policy ''p'' [\<lparr>cfg_DeviceAttributesSelector = Some example_selector, cfg_ResourceFilters = []\<rparr>]]"

lemma example_manager_inv0: "manager_inv example_manager"
  using example_manager_inv[of "[]"] by (simp add: example_manager_def)

theorem Reconcile_advertises_witness:
  "advertised (snd (fst (Reconcile match_labels_only (example_reader example_policies) (manager_ds None)
     example_reconciler example_manager ()))) = {''vf0''}"
proof -
  have "rd_Get_node (example_reader example_policies) (rec_nodeName example_reconciler) = Ok []"
    "rd_List_policies (example_reader example_policies) (rec_namespace example_reconciler) = Ok example_policies"
    "rd_List_attributes (example_reader example_policies) (rec_namespace example_reconciler) = Ok [example_attrs ''a'' ''1'']"
    by (simp_all add: example_reader_def)
  from Reconcile_advertises[OF example_manager_inv0 this, of match_labels_only None "()"] show ?thesis
    by (simp add: matchesNodeSelector_def deviceMatchesFilters_def GetAllocatableDeviceByName_def
        example_manager_def)
qed

text \<open>C29. Reconciling settles: with unchanged node, policies and attribute objects a second reconcile
  succeeds, does not requeue and does not touch the world, because the filters only read discovery
  attributes, which no policy can change. A resync does not republish.\<close>

theorem Reconcile_settles:
  assumes "manager_inv s" "rd_Get_node rd (rec_nodeName r) = Ok nodeLabels"
    "rd_List_policies rd (rec_namespace r) = Ok ps" "rd_List_attributes rd (rec_namespace r) = Ok das"
  shows "\<exists>v. Reconcile asSel rd (manager_ds cb) r (snd (fst (Reconcile asSel rd (manager_ds cb) r s w))) w' =
    ((Ok \<lparr>RequeueAfter = 0\<rparr>, v), w')"
  using managed.reconcile_settles[where asSel = asSel and cb = cb and w = w and w' = w', OF assms]
  by (simp add: manager_ds_def)

theorem Reconcile_settles_witness:
  "\<exists>v. Reconcile match_labels_only (example_reader example_policies) (manager_ds (Some failing_callback))
     example_reconciler (snd (fst (Reconcile match_labels_only (example_reader example_policies)
       (manager_ds (Some failing_callback)) example_reconciler example_manager 0))) 7 =
     ((Ok \<lparr>RequeueAfter = 0\<rparr>, v), 7)"
proof -
  have "rd_Get_node (example_reader example_policies) (rec_nodeName example_reconciler) = Ok []"
    "rd_List_policies (example_reader example_policies) (rec_namespace example_reconciler) = Ok example_policies"
    "rd_List_attributes (example_reader example_policies) (rec_namespace example_reconciler) = Ok [example_attrs ''a'' ''1'']"
    by (simp_all add: example_reader_def)
  from Reconcile_settles[where asSel = match_labels_only and cb = "Some failing_callback" and w = 0 and w' = 7,
      OF example_manager_inv0 this] show ?thesis by blast
qed

section \<open>Events\<close>

text \<open>How the controller library combines a handler with the predicates of \<^verbatim>\<open>WithEventFilter\<close>, which it
  documents to apply to all watched objects: an event the predicate rejects is dropped before any
  handler.\<close>

definition event_filter_documented ::
    "((event \<Rightarrow> bool) \<Rightarrow> (event \<Rightarrow> request list) \<Rightarrow> event \<Rightarrow> request list) \<Rightarrow> bool" where
  "event_filter_documented deliver \<longleftrightarrow>
     (\<forall>p h e. deliver p h e = (if p e then h e else []))"

text \<open>C39. Node events never reach the work queue: a node is a cluster-scoped object without a namespace,
  and the namespace predicate that the controller sets for all its watches drops it whenever the
  driver runs in a namespace. A label change of the node, which the node handler means to act on, does
  not cause a reconcile.\<close>

theorem node_events_dropped:
  assumes "event_filter_documented deliver" "rec_namespace r \<noteq> []"
    "e = CreateEvent node \<or> e = UpdateEvent old_node node \<or> e = DeleteEvent node" "obj_Namespace node = []"
  shows "deliver (namespacePredicate r) (nodeEventHandler r) e = []"
  using assms by (auto simp: event_filter_documented_def namespacePredicate_def)

definition documented_deliver :: "(event \<Rightarrow> bool) \<Rightarrow> (event \<Rightarrow> request list) \<Rightarrow> event \<Rightarrow> request list" where
  "documented_deliver p h e = (if p e then h e else [])"

abbreviation example_node :: "string \<Rightarrow> watched" where
  "example_node zone \<equiv> \<lparr>obj_Name = ''node'', obj_Namespace = [], obj_Labels = [(''zone'', zone)]\<rparr>"

theorem node_events_dropped_witness:
  "nodeEventHandler example_reconciler (UpdateEvent (example_node ''a'') (example_node ''b'')) =
     [(''ns'', resourcePolicySyncEventName)] \<and>
   documented_deliver (namespacePredicate example_reconciler) (nodeEventHandler example_reconciler)
     (UpdateEvent (example_node ''a'') (example_node ''b'')) = []"
proof -
  have "event_filter_documented documented_deliver"
    by (simp add: event_filter_documented_def documented_deliver_def)
  from node_events_dropped[OF this, of example_reconciler "UpdateEvent (example_node ''a'') (example_node ''b'')"
      "example_node ''b''" "example_node ''a''"]
  show ?thesis by (simp add: nodeEventHandler_def labels_Equals_def qHandler_def)
qed

end
