(* ===== verification/Startup.thy ===== *)
theory Startup
  imports Driver NriChannel Controller
begin

text \<open>
  Start-up, publishing and shutdown: the driver's life cycle (\<^verbatim>\<open>pkg/driver/driver.go\<close>), its health check
  (\<^verbatim>\<open>pkg/driver/health.go\<close>), the client configuration (\<^verbatim>\<open>pkg/flags/kubeclient.go\<close>) and the composition of all
  components in \<^verbatim>\<open>RunPlugin\<close> (\<^verbatim>\<open>cmd/dra-driver-sriov/main.go\<close>). The kubelet plugin helper, gRPC, the controller
  library, the NRI stub and the operating system are the record \<open>proc\<close>.
\<close>

section \<open>Parameters\<close>

text \<open>The options of the kubelet plugin helper; the metadata version is the only one its library has.\<close>

datatype plugin_option =
    KubeClient
  | NodeName string
  | PluginDriverName string
  | RegistrarDirectoryPath string
  | PluginDataDirectoryPath string
  | EnableDeviceMetadata bool
  | CDIDirectory string
  | MetadataVersions

record RegistrationStatus =
  rs_PluginRegistered :: bool
  rs_Error :: string

text \<open>The slices of each pool, each with its devices.\<close>

type_synonym DriverResources = "(string, Device list list) gomap"

record 'w Helper =
  hp_RegistrationStatus :: "'w \<Rightarrow> RegistrationStatus option"
  hp_PublishResources :: "DriverResources \<Rightarrow> 'w \<Rightarrow> unit res \<times> 'w"
  hp_UpdateRequestMetadata :: "'w MetadataUpdater"
  hp_Stop :: "'w \<Rightarrow> 'w"

text \<open>What ends a wait of the registration loop, with the world at that time.\<close>

datatype wait_event = Timeout | Tick

type_synonym 'w rpc = "'w \<Rightarrow> unit res \<times> 'w"

text \<open>\<open>px_visit\<close> is the order in which Go ranges over the advertised devices, \<open>px_serve\<close> what happens until the main
  context is done.\<close>

record 'w proc =
  px_MkdirAll :: "string \<Rightarrow> 'w \<Rightarrow> unit res \<times> 'w"
  px_Stat_IsDir :: "string \<Rightarrow> 'w \<Rightarrow> bool res"
  px_IsNotExist :: "error \<Rightarrow> bool"
  px_Remove :: "string \<Rightarrow> 'w \<Rightarrow> unit res \<times> 'w"
  px_NewCache :: "string \<Rightarrow> 'w \<Rightarrow> 'w cdi_cache res \<times> 'w"
  px_os :: "'w os"
  px_NewCheckpointManager :: "string \<Rightarrow> 'w \<Rightarrow> 'w checkpoint_manager res \<times> 'w"
  px_kubeletplugin_Start :: "plugin_option list \<Rightarrow> 'w \<Rightarrow> 'w Helper res \<times> 'w"
  px_events :: "'w \<Rightarrow> nat \<Rightarrow> wait_event \<times> 'w"
  px_Listen :: "string \<Rightarrow> 'w \<Rightarrow> unit res \<times> 'w"
  px_regClient :: "string \<Rightarrow> 'w rpc res"
  px_draClient :: "string \<Rightarrow> 'w rpc res"
  px_Serve :: "'w \<Rightarrow> 'w"
  px_GracefulStop :: "'w \<Rightarrow> 'w"
  px_visit :: "AllocatableDevices \<Rightarrow> AllocatableDevices"
  px_NewClientSetConfig :: "unit res"
  px_ctrl_NewManager :: "string \<Rightarrow> string \<Rightarrow> 'w \<Rightarrow> unit res \<times> 'w"
  px_Complete :: "Reconciler \<Rightarrow> 'w \<Rightarrow> unit res \<times> 'w"
  px_mgr_Start :: "'w \<Rightarrow> 'w"
  px_WaitForCacheSync :: "'w \<Rightarrow> bool \<times> 'w"
  px_stub_New :: "'w \<Rightarrow> unit res \<times> 'w"
  px_stub_Start :: "'w \<Rightarrow> unit res \<times> 'w"
  px_stub_Stop :: "'w \<Rightarrow> 'w"
  px_serve :: "'w \<Rightarrow> 'w"

section \<open>Client configuration (pkg/flags/kubeclient.go)\<close>

text \<open>A configuration of the client library: its content \<open>'b\<close> and the two rate limits. \<open>to_float32\<close> is Go's conversion.\<close>

record 'q KubeClientConfig =
  kc_KubeConfig :: string
  kc_KubeAPIQPS :: 'q
  kc_KubeAPIBurst :: int

record ('b, 'q) rest_config =
  rc_base :: 'b
  rc_QPS :: 'q
  rc_Burst :: int

record ('b, 'q, 'c) client_lib =
  rest_InClusterConfig :: "('b, 'q) rest_config res"
  clientcmd_BuildConfigFromFlags :: "string \<Rightarrow> string \<Rightarrow> ('b, 'q) rest_config res"
  core_NewForConfig :: "('b, 'q) rest_config \<Rightarrow> 'c res"
  runtime_New :: "('b, 'q) rest_config \<Rightarrow> 'c res"
  to_float32 :: "'q \<Rightarrow> 'q"

text \<open>The defaults of the client's command line flags.\<close>

definition KubeClientConfig_Flags :: "('q :: numeral) KubeClientConfig" where
  "KubeClientConfig_Flags = \<lparr>kc_KubeConfig = [], kc_KubeAPIQPS = 5, kc_KubeAPIBurst = 10\<rparr>"

definition NewClientSetConfig :: "('b, 'q, 'c) client_lib \<Rightarrow> 'q KubeClientConfig \<Rightarrow> ('b, 'q) rest_config res" where
  "NewClientSetConfig lib k =
     bind_res (if kc_KubeConfig k = [] then wrap_err ''create in-cluster client configuration: %v'' (rest_InClusterConfig lib)
         else wrap_err ''create out-of-cluster client configuration: %v'' (clientcmd_BuildConfigFromFlags lib [] (kc_KubeConfig k)))
       (\<lambda>csconfig. Ok (csconfig\<lparr>rc_QPS := to_float32 lib (kc_KubeAPIQPS k), rc_Burst := kc_KubeAPIBurst k\<rparr>))"

definition NewClientSets :: "('b, 'q, 'c) client_lib \<Rightarrow> 'q KubeClientConfig \<Rightarrow> ('c \<times> 'c) res" where
  "NewClientSets lib k =
     bind_res (wrap_err ''create client configuration: %v'' (NewClientSetConfig lib k)) (\<lambda>csconfig.
     bind_res (wrap_err ''create core client: %v'' (core_NewForConfig lib csconfig)) (\<lambda>coreclient.
     bind_res (wrap_err ''create controller-runtime client: %v'' (runtime_New lib csconfig)) (\<lambda>ctrlruntimecli.
     Ok (coreclient, ctrlruntimecli))))"

section \<open>Health check (pkg/driver/health.go)\<close>

record 'w Healthcheck =
  hc_regClient :: "'w rpc"
  hc_draClient :: "'w rpc"

datatype ServingStatus = SERVING | NOT_SERVING

definition Check :: "'w Healthcheck \<Rightarrow> string \<Rightarrow> 'w \<Rightarrow> ServingStatus res \<times> 'w" where
  "Check h service w =
     (if service \<notin> {[], ''liveness''} then (Err (Errorf ''unknown service'' [External ''NotFound'']), w)
      else
     (case hc_regClient h w of
        (Err e, w1) \<Rightarrow> (Ok NOT_SERVING, w1)
      | (Panic p, w1) \<Rightarrow> (Panic p, w1)
      | (Ok _, w1) \<Rightarrow>
     (case hc_draClient h w1 of
        (Err e, w2) \<Rightarrow> (Ok NOT_SERVING, w2)
      | (Panic p, w2) \<Rightarrow> (Panic p, w2)
      | (Ok _, w2) \<Rightarrow> (Ok SERVING, w2))))"

text \<open>\<^verbatim>\<open>url.URL.String\<close> for the scheme unix, with the escaping of \<^verbatim>\<open>EscapedPath\<close>.\<close>

definition path_char :: "char \<Rightarrow> bool" where
  "path_char c \<longleftrightarrow> (CHR ''a'' \<le> c \<and> c \<le> CHR ''z'') \<or> (CHR ''A'' \<le> c \<and> c \<le> CHR ''Z'') \<or> (CHR ''0'' \<le> c \<and> c \<le> CHR ''9'') \<or>
     c \<in> set ''-_.~$&+,/:;=@''"

definition hex_digit :: "nat \<Rightarrow> char" where
  "hex_digit n = ''0123456789ABCDEF'' ! n"

definition escape_path :: "string \<Rightarrow> string" where
  "escape_path p = (if p = ''*'' then p else
     concat (map (\<lambda>c. if path_char c then [c] else [CHR ''%'', hex_digit (of_char c div 16), hex_digit (of_char c mod 16)]) p))"

definition unix_url :: "string \<Rightarrow> string" where
  "unix_url p = ''unix:'' @ (if p = [] then [] else ''//'' @ escape_path p)"

definition DriverPluginPath :: "Flags \<Rightarrow> string" where
  "DriverPluginPath flags = filepath_Join [fl_KubeletPluginsDirectoryPath flags, DriverName]"

definition registration_socket :: "Flags \<Rightarrow> string" where
  "registration_socket flags = filepath_Join [fl_KubeletRegistrarDirectoryPath flags, DriverName @ ''-reg.sock'']"

definition dra_socket :: "Flags \<Rightarrow> string" where
  "dra_socket flags = filepath_Join [DriverPluginPath flags, ''dra.sock'']"

definition startHealthcheck :: "'w proc \<Rightarrow> Flags \<Rightarrow> 'w \<Rightarrow> 'w Healthcheck option res \<times> 'w" where
  "startHealthcheck px flags w =
     (if fl_HealthcheckPort flags < 0 then (Ok None, w)
      else
     (case px_Listen px ('':'' @ Itoa (nat (fl_HealthcheckPort flags))) w of
        (Err err, w1) \<Rightarrow> (Err (Errorf ''failed to listen for healthcheck service at %s: %w'' [err]), w1)
      | (Panic p, w1) \<Rightarrow> (Panic p, w1)
      | (Ok _, w1) \<Rightarrow>
     (case wrap_err ''connect to registration socket: %w'' (px_regClient px (unix_url (registration_socket flags))) of
        Err err \<Rightarrow> (Err err, w1)
      | Panic p \<Rightarrow> (Panic p, w1)
      | Ok reg \<Rightarrow>
     (case wrap_err ''connect to DRA socket: %w'' (px_draClient px (unix_url (dra_socket flags))) of
        Err err \<Rightarrow> (Err err, w1)
      | Panic p \<Rightarrow> (Panic p, w1)
      | Ok dra \<Rightarrow> (Ok (Some \<lparr>hc_regClient = reg, hc_draClient = dra\<rparr>), px_Serve px w1)))))"

definition Stop_health :: "'w proc \<Rightarrow> 'w Healthcheck \<Rightarrow> 'w \<Rightarrow> 'w" where
  "Stop_health px h w = px_GracefulStop px w"

section \<open>The driver (pkg/driver/driver.go)\<close>

definition buildPluginOptions :: "Flags \<Rightarrow> plugin_option list" where
  "buildPluginOptions flags =
     [KubeClient, NodeName (fl_NodeName flags), PluginDriverName DriverName,
      RegistrarDirectoryPath (fl_KubeletRegistrarDirectoryPath flags), PluginDataDirectoryPath (DriverPluginPath flags)] @
     (if fl_EnableDeviceMetadata flags
      then [EnableDeviceMetadata True, CDIDirectory (fl_CdiRoot flags), MetadataVersions] else [])"

text \<open>The registration loop. It may wait forever as far as the loop itself goes, so a wait that does not end is \<open>None\<close>.\<close>

partial_function (option) registration_loop :: "'w Helper \<Rightarrow> (nat \<Rightarrow> wait_event \<times> 'w) \<Rightarrow> nat \<Rightarrow> (unit res \<times> 'w) option" where
  "registration_loop helper events i =
     (case events i of
        (Timeout, w) \<Rightarrow> Some (Err (Errorf ''timeout waiting for plugin registration'' []), w)
      | (Tick, w) \<Rightarrow>
          (case hp_RegistrationStatus helper w of
             None \<Rightarrow> registration_loop helper events (Suc i)
           | Some status \<Rightarrow>
               if rs_PluginRegistered status then Some (Ok (), w)
               else if rs_Error status \<noteq> [] then Some (Err (Errorf ''plugin registration failed: %s'' []), w)
               else registration_loop helper events (Suc i)))"

declare registration_loop.simps [code]

definition waitForRegistration :: "'w Helper \<Rightarrow> (nat \<Rightarrow> wait_event \<times> 'w) \<Rightarrow> (unit res \<times> 'w) option" where
  "waitForRegistration helper events = registration_loop helper events 0"

definition PublishResources :: "'w proc \<Rightarrow> Flags \<Rightarrow> 'w Helper \<Rightarrow> Manager \<Rightarrow> 'w \<Rightarrow> unit res \<times> 'w" where
  "PublishResources px flags helper m w =
     (let devices = map snd (px_visit px (GetAdvertisedDevices m));
          resources = [(fl_NodeName flags, [devices])]
      in hp_PublishResources helper resources w)"

definition UpdateRequestMetadata :: "'w Helper option \<Rightarrow> 'w MetadataUpdater" where
  "UpdateRequestMetadata helper claimNamespace claimName claimUID requestName devices w =
     (case helper of
        None \<Rightarrow> (Err (Errorf ''kubelet plugin helper is not initialized'' []), w)
      | Some h \<Rightarrow> hp_UpdateRequestMetadata h claimNamespace claimName claimUID requestName devices w)"

record 'w Started =
  sd_helper :: "'w Helper"
  sd_healthcheck :: "'w Healthcheck option"

text \<open>\<open>None\<close> when the wait for the registration does not end.\<close>

definition Start :: "'w proc \<Rightarrow> Flags \<Rightarrow> Manager \<Rightarrow> 'w \<Rightarrow> ('w Started res \<times> 'w) option" where
  "Start px flags m w =
     (case px_kubeletplugin_Start px (buildPluginOptions flags) w of
        (Err err, w1) \<Rightarrow> Some (Err err, w1)
      | (Panic p, w1) \<Rightarrow> Some (Panic p, w1)
      | (Ok helper, w1) \<Rightarrow>
     (case waitForRegistration helper (px_events px w1) of
        None \<Rightarrow> None
      | Some (Err err, w2) \<Rightarrow> Some (Err err, w2)
      | Some (Panic p, w2) \<Rightarrow> Some (Panic p, w2)
      | Some (Ok _, w2) \<Rightarrow>
     (case startHealthcheck px flags w2 of
        (Err err, w3) \<Rightarrow> Some (Err (Errorf ''start healthcheck: %w'' [err]), w3)
      | (Panic p, w3) \<Rightarrow> Some (Panic p, w3)
      | (Ok health, w3) \<Rightarrow>
     (case PublishResources px flags helper m w3 of
        (Err err, w4) \<Rightarrow> Some (Err (Errorf ''failed to publish resources: %w'' [err]), w4)
      | (Panic p, w4) \<Rightarrow> Some (Panic p, w4)
      | (Ok _, w4) \<Rightarrow> Some (Ok \<lparr>sd_helper = helper, sd_healthcheck = health\<rparr>, w4)))))"

text \<open>Removing a socket; a missing one is fine.\<close>

definition remove_socket :: "'w proc \<Rightarrow> string \<Rightarrow> 'w \<Rightarrow> unit res \<times> 'w" where
  "remove_socket px path w =
     (case px_Remove px path w of
        (Err err, w') \<Rightarrow> if px_IsNotExist px err then (Ok (), w') else (Err (Errorf ''error removing socket file: %w'' [err]), w')
      | (r, w') \<Rightarrow> (r, w'))"

definition Shutdown :: "'w proc \<Rightarrow> Flags \<Rightarrow> 'w Started \<Rightarrow> 'w \<Rightarrow> unit res \<times> 'w" where
  "Shutdown px flags d w =
     (let w1 = (case sd_healthcheck d of None \<Rightarrow> w | Some h \<Rightarrow> Stop_health px h w);
          w2 = hp_Stop (sd_helper d) w1
      in bind_io (remove_socket px (registration_socket flags) w2) (\<lambda>_ w3. remove_socket px (dra_socket flags) w3))"

section \<open>The process (cmd/dra-driver-sriov/main.go)\<close>

definition NewHandler :: "'w proc \<Rightarrow> string \<Rightarrow> 'w \<Rightarrow> 'w cdi_cache res \<times> 'w" where
  "NewHandler px cdiRootPath w = (let (r, w') = px_NewCache px cdiRootPath w in (wrap_err ''unable to create a new CDI cache: %w'' r, w'))"

definition NewPodManager :: "'w proc \<Rightarrow> Flags \<Rightarrow> 'w \<Rightarrow> ('w checkpoint_manager \<times> PodManager) res \<times> 'w" where
  "NewPodManager px flags w =
     (case px_NewCheckpointManager px (DriverPluginPath flags) w of
        (Err err, w1) \<Rightarrow> (Err (Errorf ''unable to create checkpoint manager: %v'' [err]), w1)
      | (Panic p, w1) \<Rightarrow> (Panic p, w1)
      | (Ok cm, w1) \<Rightarrow> bind_io (newPodManager cm w1) (\<lambda>s w2. (Ok (cm, s), w2)))"

definition NewSriovResourcePolicyReconciler :: "Flags \<Rightarrow> Reconciler" where
  "NewSriovResourcePolicyReconciler flags = \<lparr>rec_nodeName = fl_NodeName flags, rec_namespace = fl_Namespace flags\<rparr>"

text \<open>The CDI root directory is made when it is missing.\<close>

definition ensure_cdi_root :: "'w proc \<Rightarrow> Flags \<Rightarrow> 'w \<Rightarrow> unit res \<times> 'w" where
  "ensure_cdi_root px flags w =
     (case px_Stat_IsDir px (fl_CdiRoot flags) w of
        Err err \<Rightarrow> if px_IsNotExist px err then px_MkdirAll px (fl_CdiRoot flags) w else (Err err, w)
      | Panic p \<Rightarrow> (Panic p, w)
      | Ok isDir \<Rightarrow> if isDir then (Ok (), w) else (Err (Errorf ''path for cdi file generation is not a directory: %q'' []), w))"

definition wrap_io :: "string \<Rightarrow> 'a res \<times> 'w \<Rightarrow> 'a res \<times> 'w" where
  "wrap_io msg rw = (wrap_err msg (fst rw), snd rw)"

text \<open>The parts that are set up before the driver is started.\<close>

record 'w Parts =
  pa_cdi :: "'w cdi_cache"
  pa_manager :: Manager
  pa_cm :: "'w checkpoint_manager"
  pa_pods :: PodManager

definition make_parts :: "'w proc \<Rightarrow> Flags \<Rightarrow> 'w \<Rightarrow> 'w Parts res \<times> 'w" where
  "make_parts px flags w =
     bind_io (px_MkdirAll px (DriverPluginPath flags) w) (\<lambda>_ w1.
     bind_io (ensure_cdi_root px flags w1) (\<lambda>_ w2.
     bind_io (wrap_io ''unable to create CDI handler: %v'' (NewHandler px (fl_CdiRoot flags) w2)) (\<lambda>cdi w3.
     bind_io (NewManager (px_os px) (Some (Some flags)) True w3, w3) (\<lambda>m w4.
     bind_io (NewPodManager px flags w4) (\<lambda>(cm, pods) w5.
     (Ok \<lparr>pa_cdi = cdi, pa_manager = m, pa_cm = cm, pa_pods = pods\<rparr>, w5))))))"

text \<open>The controller: its manager is started in a goroutine, and the cache has to be in sync.\<close>

definition start_controller :: "'w proc \<Rightarrow> Flags \<Rightarrow> 'w \<Rightarrow> unit res \<times> 'w" where
  "start_controller px flags w =
     bind_io (wrap_err ''failed to create REST config: %w'' (px_NewClientSetConfig px), w) (\<lambda>_ w1.
     bind_io (wrap_io ''failed to create controller manager: %w'' (px_ctrl_NewManager px (fl_Namespace flags) (fl_MetricsBindAddress flags) w1)) (\<lambda>_ w2.
     bind_io (wrap_io ''failed to setup resource policy controller: %w'' (px_Complete px (NewSriovResourcePolicyReconciler flags) w2)) (\<lambda>_ w3.
     let (synced, w4) = px_WaitForCacheSync px (px_mgr_Start px w3) in
     if synced then (Ok (), w4) else (Err (Errorf ''cache not synced'' []), w4))))"

text \<open>The NRI plugin. Its channel and its goroutine are those of \<open>started\<close> in \<open>NriChannel\<close>.\<close>

definition NewNRIPlugin :: "'w proc \<Rightarrow> 'w \<Rightarrow> unit res \<times> 'w" where
  "NewNRIPlugin px w = wrap_io ''failed to create plugin stub: %w'' (px_stub_New px w)"

definition Start_nri :: "'w proc \<Rightarrow> 'w \<Rightarrow> unit res \<times> 'w" where
  "Start_nri px w = wrap_io ''failed to start NRI plugin: %w'' (px_stub_Start px w)"

definition start_nri :: "'w proc \<Rightarrow> Flags \<Rightarrow> 'w \<Rightarrow> bool res \<times> 'w" where
  "start_nri px flags w =
     (if fl_ConfigurationMode flags \<noteq> ConfigurationModeMultus then
        bind_io (wrap_io ''failed to create NRI plugin: %w'' (NewNRIPlugin px w)) (\<lambda>_ w1.
        bind_io (wrap_io ''failed to start NRI plugin: %w'' (Start_nri px w1)) (\<lambda>_ w2.
        (Ok True, w2)))
      else (Ok False, w))"

record 'w Running =
  rn_parts :: "'w Parts"
  rn_driver :: "'w Started"
  rn_nri :: bool

text \<open>Everything up to the wait for the end of the main context.\<close>

definition start_all :: "'w proc \<Rightarrow> Flags \<Rightarrow> 'w \<Rightarrow> ('w Running res \<times> 'w) option" where
  "start_all px flags w =
     (case make_parts px flags w of
        (Err err, w1) \<Rightarrow> Some (Err err, w1)
      | (Panic p, w1) \<Rightarrow> Some (Panic p, w1)
      | (Ok parts, w1) \<Rightarrow>
     (case Start px flags (pa_manager parts) w1 of
        None \<Rightarrow> None
      | Some rw \<Rightarrow> Some (
          bind_io (wrap_io ''failed to start DRA driver: %w'' rw) (\<lambda>dvr w2.
          bind_io (start_controller px flags w2) (\<lambda>_ w3.
          bind_io (start_nri px flags w3) (\<lambda>nri w4.
          (Ok \<lparr>rn_parts = parts, rn_driver = dvr, rn_nri = nri\<rparr>, w4)))))))"

text \<open>An error of the shutdown is only logged.\<close>

definition RunPlugin :: "'w proc \<Rightarrow> Flags \<Rightarrow> 'w \<Rightarrow> (unit res \<times> 'w) option" where
  "RunPlugin px flags w =
     (case start_all px flags w of
        None \<Rightarrow> None
      | Some (Err err, w1) \<Rightarrow> Some (Err err, w1)
      | Some (Panic p, w1) \<Rightarrow> Some (Panic p, w1)
      | Some (Ok rn, w1) \<Rightarrow>
          let w2 = px_serve px w1;
              w3 = (if rn_nri rn then px_stub_Stop px w2 else w2);
              (r, w4) = Shutdown px flags (rn_driver rn) w3
          in (case r of Panic p \<Rightarrow> Some (Panic p, w4) | _ \<Rightarrow> Some (Ok (), w4)))"

text \<open>The command line: the defaults of the flags, with the two kubelet directories of its library, and the two steps
  of the application. \<open>apply_logging\<close> is the outcome of the logging set-up.\<close>

definition newApp_flags :: "string \<Rightarrow> string \<Rightarrow> string \<Rightarrow> Flags" where
  "newApp_flags registryDir pluginsDir nodeName = \<lparr>fl_NodeName = nodeName, fl_Namespace = ''dra-driver-sriov'', fl_CdiRoot = ''/var/run/cdi'',
     fl_KubeletRegistrarDirectoryPath = registryDir, fl_KubeletPluginsDirectoryPath = pluginsDir, fl_HealthcheckPort = - 1,
     fl_MetricsBindAddress = ''0'', fl_DefaultInterfacePrefix = ''vfnet'', fl_ConfigurationMode = ConfigurationModeStandalone,
     fl_EnableDeviceMetadata = False\<rparr>"

definition newApp_Before :: "unit res \<Rightarrow> string list \<Rightarrow> unit res" where
  "newApp_Before apply_logging args = (if length args > 0 then Err (Errorf ''arguments not supported: %v'' []) else apply_logging)"

definition newApp_Action :: "('b, 'q, 'c) client_lib \<Rightarrow> 'q KubeClientConfig \<Rightarrow> 'w proc \<Rightarrow> Flags \<Rightarrow> 'w \<Rightarrow> (unit res \<times> 'w) option" where
  "newApp_Action lib k px flags w =
     (case NewClientSets lib k of
        Err err \<Rightarrow> Some (Err (Errorf ''create client: %v'' [err]), w)
      | Panic p \<Rightarrow> Some (Panic p, w)
      | Ok _ \<Rightarrow> RunPlugin (px\<lparr>px_NewClientSetConfig := bind_res (NewClientSetConfig lib k) (\<lambda>_. Ok ())\<rparr>) flags w)"

section \<open>Lemmas\<close>

lemma advertised_lookup:
  "map_of (GetAdvertisedDevices s) n = (if n \<in> mkeys (policyAttrKeys s) then map_of (allocatable s) n else None)"
proof -
  have "map_of (advertised_devices s r ns) n = (if n \<in> set ns \<and> map_of (allocatable s) n \<noteq> None then map_of (allocatable s) n else map_of r n)" for r ns
    by (induction ns arbitrary: r) (auto split: option.splits)
  then show ?thesis by (auto simp: GetAdvertisedDevices_def mkeys_def)
qed

lemma advertised_wf: "wf_map (GetAdvertisedDevices s)"
proof -
  have "wf_map r \<Longrightarrow> wf_map (advertised_devices s r ns)" for r ns
    by (induction ns arbitrary: r) (auto split: option.splits)
  then show ?thesis by (simp add: GetAdvertisedDevices_def)
qed

lemma visits_all_Nil: "visits_all visit \<Longrightarrow> visit [] = []"
  by (metis mset_zero_iff visits_all_def)

text \<open>The slice that is published: the advertised devices, each once, in some order.\<close>

lemma published_devices:
  assumes "visits_all (px_visit px)"
  shows "set (map snd (px_visit px (GetAdvertisedDevices m))) = {dev. \<exists>n \<in> advertised m. GetAllocatableDeviceByName m n = Some dev}"
    and "length (map snd (px_visit px (GetAdvertisedDevices m))) = card (advertised m)"
proof -
  have v: "wf_map (px_visit px (GetAdvertisedDevices m))" "map_of (px_visit px (GetAdvertisedDevices m)) = map_of (GetAdvertisedDevices m)"
    using visits_all_map[OF assms advertised_wf] by blast+
  have "set (map snd (px_visit px (GetAdvertisedDevices m))) = ran (map_of (GetAdvertisedDevices m))"
    using v by (metis ran_distinct set_map wf_map_def)
  then show "set (map snd (px_visit px (GetAdvertisedDevices m))) = {dev. \<exists>n \<in> advertised m. GetAllocatableDeviceByName m n = Some dev}"
    by (auto simp: ran_def advertised_lookup advertised_eq GetAllocatableDeviceByName_def mkeys_dom dom_def)
  show "length (map snd (px_visit px (GetAdvertisedDevices m))) = card (advertised m)"
    using length_wf_map[OF v(1)] v(2) by (simp add: advertised_def mkeys_dom)
qed

text \<open>The events that end the wait for the registration, and what they give.\<close>

definition decisive :: "'w Helper \<Rightarrow> wait_event \<times> 'w \<Rightarrow> bool" where
  "decisive helper e = (case e of (Timeout, w) \<Rightarrow> True
     | (Tick, w) \<Rightarrow> (case hp_RegistrationStatus helper w of None \<Rightarrow> False | Some st \<Rightarrow> rs_PluginRegistered st \<or> rs_Error st \<noteq> []))"

definition verdict :: "'w Helper \<Rightarrow> wait_event \<times> 'w \<Rightarrow> unit res" where
  "verdict helper e = (case e of (Timeout, w) \<Rightarrow> Err (Errorf ''timeout waiting for plugin registration'' [])
     | (Tick, w) \<Rightarrow> if rs_PluginRegistered (the (hp_RegistrationStatus helper w)) then Ok ()
         else Err (Errorf ''plugin registration failed: %s'' []))"

lemma registration_loop_step:
  "registration_loop helper events i = (if decisive helper (events i) then Some (verdict helper (events i), snd (events i))
     else registration_loop helper events (Suc i))"
  by (subst registration_loop.simps)
     (auto simp: decisive_def verdict_def split: prod.split wait_event.split option.split)

lemma registration_loop_first:
  assumes "decisive helper (events (i + k))"
  shows "\<exists>j \<le> k. (\<forall>l < j. \<not> decisive helper (events (i + l))) \<and> decisive helper (events (i + j)) \<and>
    registration_loop helper events i = Some (verdict helper (events (i + j)), snd (events (i + j)))"
  using assms
proof (induction k arbitrary: i)
  case 0
  then show ?case by (simp add: registration_loop_step[of helper events i])
next
  case (Suc k)
  show ?case
  proof (cases "decisive helper (events i)")
    case True
    then show ?thesis by (intro exI[of _ 0]) (simp add: registration_loop_step[of helper events i])
  next
    case False
    obtain j where j: "j \<le> k" "\<forall>l < j. \<not> decisive helper (events (Suc i + l))" "decisive helper (events (Suc i + j))"
      "registration_loop helper events (Suc i) = Some (verdict helper (events (Suc i + j)), snd (events (Suc i + j)))"
      using Suc.IH[of "Suc i"] Suc.prems by auto
    have "\<not> decisive helper (events (i + l))" if "l < Suc j" for l
      using that j(2) False by (cases l) auto
    then show ?thesis
      using j False by (intro exI[of _ "Suc j"]) (simp add: registration_loop_step[of helper events i])
  qed
qed

text \<open>A wait that ends without an error saw the plugin registered.\<close>

definition registered :: "'w Helper \<Rightarrow> 'w \<Rightarrow> bool" where
  "registered helper w = (case hp_RegistrationStatus helper w of None \<Rightarrow> False | Some st \<Rightarrow> rs_PluginRegistered st)"

lemma registration_loop_registered:
  assumes "registration_loop helper events i = Some (Ok (), w)" shows "registered helper w"
proof -
  have "fst rw = Ok () \<longrightarrow> registered helper (snd rw)" if "registration_loop helper events i = Some rw" for rw
    using that
  proof (rule registration_loop.raw_induct[where P = "\<lambda>helper events i rw. fst rw = Ok () \<longrightarrow> registered helper (snd rw)", rotated], goal_cases)
    case (1 f helper events i rw)
    from 1(2) 1(1)[of helper events "Suc i" rw] show ?case
      by (auto simp: registered_def split: prod.splits wait_event.splits option.splits if_splits)
  qed
  with assms show ?thesis by fastforce
qed

lemma bind_io_Ok: "bind_io rw f = (Ok y, w2) \<Longrightarrow> (\<And>x w1. rw = (Ok x, w1) \<Longrightarrow> f x w1 = (Ok y, w2) \<Longrightarrow> thesis) \<Longrightarrow> thesis"
  by (auto simp: bind_io_eq_Ok)

lemma wrap_io_Ok: "wrap_io msg rw = (Ok x, w) \<longleftrightarrow> rw = (Ok x, w)"
  by (cases rw; cases "fst rw") (auto simp: wrap_io_def wrap_err_def)

lemma NewManager_mode:
  "NewManager os (Some (Some flags)) True v = Ok m \<Longrightarrow> isStandaloneMode m \<longleftrightarrow> fl_ConfigurationMode flags \<noteq> ConfigurationModeMultus"
  by (auto simp: NewManager_def normalizeConfigurationMode_def isStandaloneMode_def ConfigurationModeStandalone_def
      ConfigurationModeMultus_def split: if_splits)

text \<open>What start-up publishes is observed by a log: each entry has the resources of a successful \<^verbatim>\<open>PublishResources\<close> of the helper and says whether the
  plugin was registered at that moment. Documented of the libraries: no other call publishes, a listener and a health server do not change the registration,
  and checkpoint managers behave as described for the pod manager. Only the controller, once it is started, publishes on its own,
  the entries \<open>ctl\<close>.\<close>

type_synonym publish_log = "(bool \<times> DriverResources) list"

definition logs_publish :: "('w \<Rightarrow> publish_log) \<Rightarrow> 'w Helper \<Rightarrow> bool" where
  "logs_publish log helper \<longleftrightarrow> (\<forall>res w w'. hp_PublishResources helper res w = (Ok (), w') \<longrightarrow> log w' = log w @ [(registered helper w, res)])"

definition startup_documented :: "'w proc \<Rightarrow> ('w \<Rightarrow> publish_log) \<Rightarrow> ('w \<Rightarrow> publish_log) \<Rightarrow> bool" where
  "startup_documented px log ctl \<longleftrightarrow>
     (\<forall>p w. log (snd (px_MkdirAll px p w)) = log w) \<and> (\<forall>d w. log (snd (px_NewCache px d w)) = log w) \<and>
     (\<forall>d w r w'. px_NewCheckpointManager px d w = (r, w') \<longrightarrow> log w' = log w \<and>
        (\<forall>cm. r = Ok cm \<longrightarrow> checkpointing_documented cm \<and> (\<forall>n cp v. log (snd (cm_CreateCheckpoint cm n cp v)) = log v))) \<and>
     (\<forall>opts w r w'. px_kubeletplugin_Start px opts w = (r, w') \<longrightarrow> log w' = log w \<and>
        (\<forall>helper. r = Ok helper \<longrightarrow> logs_publish log helper \<and>
           (\<forall>a v. registered helper (snd (px_Listen px a v)) = registered helper v) \<and> (\<forall>v. registered helper (px_Serve px v) = registered helper v))) \<and>
     (\<forall>w i. log (snd (px_events px w i)) = log w) \<and> (\<forall>a w. log (snd (px_Listen px a w)) = log w) \<and> (\<forall>w. log (px_Serve px w) = log w) \<and>
     (\<forall>ns a w. log (snd (px_ctrl_NewManager px ns a w)) = log w) \<and> (\<forall>r w. log (snd (px_Complete px r w)) = log w) \<and>
     (\<forall>w. log (snd (px_WaitForCacheSync px (px_mgr_Start px w))) = log w @ ctl w) \<and>
     (\<forall>w. log (snd (px_stub_New px w)) = log w) \<and> (\<forall>w. log (snd (px_stub_Start px w)) = log w)"

lemma startup_documentedD:
  assumes "startup_documented px log ctl"
  shows "px_MkdirAll px p w = (r1, w') \<Longrightarrow> log w' = log w" "px_NewCache px p w = (r2, w') \<Longrightarrow> log w' = log w"
    "px_NewCheckpointManager px p w = (Ok cm, w') \<Longrightarrow> log w' = log w \<and> checkpointing_documented cm \<and> (\<forall>n cp v. log (snd (cm_CreateCheckpoint cm n cp v)) = log v)"
    "px_kubeletplugin_Start px opts w = (Ok helper, w') \<Longrightarrow> log w' = log w \<and> logs_publish log helper \<and>
       (\<forall>a v. registered helper (snd (px_Listen px a v)) = registered helper v) \<and> (\<forall>v. registered helper (px_Serve px v) = registered helper v)"
    "log (snd (px_events px w i)) = log w" "log (snd (px_Listen px p w)) = log w" "log (px_Serve px w) = log w"
    "px_ctrl_NewManager px ns p w = (r1, w') \<Longrightarrow> log w' = log w" "px_Complete px rc w = (r1, w') \<Longrightarrow> log w' = log w"
    "px_WaitForCacheSync px (px_mgr_Start px w) = (b, w') \<Longrightarrow> log w' = log w @ ctl w"
    "px_stub_New px w = (r1, w') \<Longrightarrow> log w' = log w" "px_stub_Start px w = (r1, w') \<Longrightarrow> log w' = log w"
  using assms unfolding startup_documented_def by (metis snd_conv)+

lemma new_pods_log:
  assumes "\<forall>n cp v. log (snd (cm_CreateCheckpoint cm n cp v)) = log v" "newPodManager cm w = (r, w')" shows "log w' = log w"
proof -
  have "w' = w \<or> (\<exists>n cp. w' = snd (cm_CreateCheckpoint cm n cp w))"
    using assms(2) by (auto simp: newPodManager_def split: res.splits if_splits option.splits prod.splits) (metis snd_conv)+
  then show ?thesis using assms(1) by auto
qed

lemma make_parts_Ok:
  assumes run: "make_parts px flags w = (Ok parts, w')" and doc: "startup_documented px log ctl"
  shows "\<exists>v. NewManager (px_os px) (Some (Some flags)) True v = Ok (pa_manager parts)" "pm_inv (pa_pods parts)" "log w' = log w"
proof -
  note D = startup_documentedD[OF doc]
  from run obtain x1 w1 x2 w2 cdi v m cm pods where "px_MkdirAll px (DriverPluginPath flags) w = (Ok x1, w1)" "ensure_cdi_root px flags w1 = (Ok x2, w2)"
      "wrap_io ''unable to create CDI handler: %v'' (NewHandler px (fl_CdiRoot flags) w2) = (Ok cdi, v)"
      and m: "NewManager (px_os px) (Some (Some flags)) True v = Ok m"
      and pods: "NewPodManager px flags v = (Ok (cm, pods), w')" and parts: "parts = \<lparr>pa_cdi = cdi, pa_manager = m, pa_cm = cm, pa_pods = pods\<rparr>"
    unfolding make_parts_def by (elim bind_io_Ok) (auto split: prod.splits)
  then have "log w1 = log w" "log w2 = log w1" "log v = log w2"
    using D(1,2) by (auto simp: ensure_cdi_root_def wrap_io_Ok NewHandler_def Let_def split: res.splits if_splits prod.splits)
  moreover obtain v1 where v1: "px_NewCheckpointManager px (DriverPluginPath flags) v = (Ok cm, v1)" "newPodManager cm v1 = (Ok pods, w')"
    using pods by (auto simp: NewPodManager_def bind_io_eq_Ok split: prod.splits res.splits)
  moreover note cm = D(3)[OF v1(1)]
  ultimately show "log w' = log w" using new_pods_log[OF _ v1(2), of log] by simp
  show "\<exists>v. NewManager (px_os px) (Some (Some flags)) True v = Ok (pa_manager parts)" using m parts by auto
  show "pm_inv (pa_pods parts)" using newPodManager_inv[OF _ v1(2)] cm parts by simp
qed

lemma registration_loop_world:
  assumes "registration_loop helper events i = Some (r, w)" shows "\<exists>j. w = snd (events j)"
proof -
  have "\<exists>j. snd rw = snd (events j)" if "registration_loop helper events i = Some rw" for rw
    using that
  proof (rule registration_loop.raw_induct[where P = "\<lambda>helper events i rw. \<exists>j. snd rw = snd (events j)", rotated], goal_cases)
    case (1 f helper events i rw)
    from 1(2) 1(1)[of helper events "Suc i" rw] show ?case
      by (auto split: prod.splits wait_event.splits option.splits if_splits) (metis snd_conv)+
  qed
  with assms show ?thesis by fastforce
qed

lemma startHealthcheck_keeps:
  assumes "\<forall>a v. P (snd (px_Listen px a v)) = P v" "\<forall>v. P (px_Serve px v) = P v" "startHealthcheck px flags w = (r, w')" shows "P w' = P w"
proof -
  have "P w1 = P v" if "px_Listen px a v = (x, w1)" for a v x w1 using assms(1) that by (metis snd_conv)
  then show ?thesis using assms(2,3) by (auto simp: startHealthcheck_def split: if_splits prod.splits res.splits)
qed

lemma Start_Ok:
  assumes run: "Start px flags m w = Some (Ok d, w')" and doc: "startup_documented px log ctl"
  shows "log w' = log w @ [(True, [(fl_NodeName flags, [map snd (px_visit px (GetAdvertisedDevices m))])])]"
proof -
  note D = startup_documentedD[OF doc]
  obtain helper w1 w2 health w3 where 1: "px_kubeletplugin_Start px (buildPluginOptions flags) w = (Ok helper, w1)"
    and 2: "registration_loop helper (px_events px w1) 0 = Some (Ok (), w2)" and 3: "startHealthcheck px flags w2 = (Ok health, w3)"
    and 4: "PublishResources px flags helper m w3 = (Ok (), w')"
    using run by (auto simp: Start_def waitForRegistration_def split: prod.splits res.splits option.splits)
  note h = D(4)[OF 1]
  have "log w2 = log w" using registration_loop_world[OF 2] D(5) h by auto
  moreover have "log w3 = log w2" using startHealthcheck_keeps[OF _ _ 3, of log] D(6,7) by blast
  moreover have "registered helper w3"
    using startHealthcheck_keeps[OF _ _ 3, of "registered helper"] h registration_loop_registered[OF 2] by blast
  ultimately show ?thesis using h 4 by (simp add: logs_publish_def PublishResources_def)
qed

lemma start_rest_log:
  assumes "startup_documented px log ctl" "start_controller px flags w = (Ok (), w1)" "start_nri px flags w1 = (Ok b, w2)"
  shows "\<exists>v. log w2 = log w @ ctl v"
proof -
  note D = startup_documentedD[OF assms(1)]
  obtain x1 v1 x2 v2 where c: "px_ctrl_NewManager px (fl_Namespace flags) (fl_MetricsBindAddress flags) w = (Ok x1, v1)"
      "px_Complete px (NewSriovResourcePolicyReconciler flags) v1 = (Ok x2, v2)" "px_WaitForCacheSync px (px_mgr_Start px v2) = (True, w1)"
    using assms(2) unfolding start_controller_def
    by (elim bind_io_Ok) (auto simp: wrap_io_Ok Let_def split: prod.splits if_splits)
  have "log w1 = log w @ ctl v2" using D(8)[OF c(1)] D(9)[OF c(2)] D(10)[OF c(3)] by simp
  moreover have "log w2 = log w1"
  proof (cases "fl_ConfigurationMode flags \<noteq> ConfigurationModeMultus")
    case True
    then obtain x1 v1 x2 where "px_stub_New px w1 = (Ok x1, v1)" "px_stub_Start px v1 = (Ok x2, w2)"
      using assms(3) unfolding start_nri_def NewNRIPlugin_def Start_nri_def if_P[OF True] by (elim bind_io_Ok) (auto simp: wrap_io_Ok)
    then show ?thesis using D(11,12) by simp
  qed (use assms(3) in \<open>simp add: start_nri_def\<close>)
  ultimately show ?thesis by auto
qed

section \<open>Properties\<close>

text \<open>C27. The wait for the registration with the kubelet ends: when the timer fires at event \<open>n\<close> at the latest, the
  loop returns the verdict of the first event that decides, which is success for a registered plugin and an error for a
  failed registration or the timeout.\<close>

theorem waitForRegistration_returns:
  assumes "fst (events n) = Timeout"
  shows "\<exists>i \<le> n. (\<forall>j < i. \<not> decisive helper (events j)) \<and> decisive helper (events i) \<and>
    waitForRegistration helper events = Some (verdict helper (events i), snd (events i))"
proof -
  have "decisive helper (events (0 + n))" using assms by (cases "events n") (simp add: decisive_def)
  then show ?thesis using registration_loop_first[of helper events 0 n] by (simp add: waitForRegistration_def)
qed

text \<open>C12. From policies to the scheduler: a reconcile that succeeds with the driver's \<^verbatim>\<open>PublishResources\<close> as callback
  either leaves the world alone or publishes one slice for the node that has exactly the discovered devices that some
  configuration of some policy for this node accepts, each once and with the attributes of the new state.\<close>

theorem Reconcile_publishes:
  assumes inv: "manager_inv s" and reads: "rd_Get_node rd (rec_nodeName r) = Ok nodeLabels"
      "rd_List_policies rd (rec_namespace r) = Ok ps" "rd_List_attributes rd (rec_namespace r) = Ok das"
    and visits: "visits_all (px_visit px)"
    and helper: "\<forall>res w w'. hp_PublishResources helper res w = (Ok (), w') \<longrightarrow> published w' = res"
    and run: "Reconcile asSel rd (manager_ds (SetRepublishCallback None (PublishResources px flags helper))) r s w = ((Ok res, s'), w')"
  shows "w' = w \<or> (\<exists>devices. published w' = [(fl_NodeName flags, [devices])] \<and>
    set devices = {dev. \<exists>n p c old. GetAllocatableDeviceByName s n = Some old \<and> p \<in> set ps \<and>
        matchesNodeSelector asSel nodeLabels (pol_NodeSelector p) \<and> c \<in> set (pol_Configs p) \<and>
        deviceMatchesFilters old (cfg_ResourceFilters c) \<and> GetAllocatableDeviceByName s' n = Some dev} \<and>
    length devices = card (advertised s'))"
proof -
  define cb where "cb = SetRepublishCallback None (PublishResources px flags helper)"
  define P where "P = getPolicyDeviceMap asSel (GetAllocatableDevices s) (filter (\<lambda>p. matchesNodeSelector asSel nodeLabels (pol_NodeSelector p)) ps) das"
  have up: "snd (fst (UpdatePolicyDevices cb s P w)) = s'" "snd (UpdatePolicyDevices cb s P w) = w'"
    using managed.reconcile_update(1,2)[where asSel = asSel and cb = cb and w = w and d = s, OF reads] run
    by (simp_all add: manager_ds_def cb_def P_def)
  have ok: "fst (fst (UpdatePolicyDevices cb s P w)) = Ok ()"
    using run reads by (auto simp: Reconcile_def manager_ds_def cb_def[symmetric] P_def Let_def split: prod.splits res.splits)
  have "w' = w \<or> PublishResources px flags helper s' w = (Ok (), w')"
    using up ok by (auto simp: UpdatePolicyDevices_def cb_def SetRepublishCallback_def split: prod.splits if_splits res.splits)
  moreover have adv: "advertised s' = {n. \<exists>dev p c. GetAllocatableDeviceByName s n = Some dev \<and> p \<in> set ps \<and>
       matchesNodeSelector asSel nodeLabels (pol_NodeSelector p) \<and> c \<in> set (pol_Configs p) \<and> deviceMatchesFilters dev (cfg_ResourceFilters c)}"
    using managed.reconcile_advertises(1)[where asSel = asSel and cb = cb and w = w, OF inv reads] run
    by (simp add: manager_ds_def cb_def GetAllocatableDeviceByName_def GetAllocatableDevices_def)
  ultimately show ?thesis
    using helper published_devices[OF visits, of s'] by (fastforce simp: PublishResources_def Let_def adv)
qed

text \<open>C26. When start-up succeeds, it has published once, after the plugin was registered with the kubelet: one slice for the node, which has no devices; what is
  published after that comes from the controller, which is started later. The device manager and the pod manager are
  in their invariants, nothing is advertised yet, and the NRI plugin runs exactly when the device manager is in standalone mode.\<close>

theorem start_all_ready:
  assumes run: "start_all px flags w = Some (Ok rn, w')" and visits: "visits_all (px_visit px)" and doc: "startup_documented px log ctl"
  shows "(\<exists>v. log w' = log w @ [(True, [(fl_NodeName flags, [[]])])] @ ctl v) \<and>
    manager_inv (pa_manager (rn_parts rn)) \<and> advertised (pa_manager (rn_parts rn)) = {} \<and> pm_inv (pa_pods (rn_parts rn)) \<and>
    (rn_nri rn \<longleftrightarrow> isStandaloneMode (pa_manager (rn_parts rn)))"
proof -
  obtain w1 w2 w3 where parts: "make_parts px flags w = (Ok (rn_parts rn), w1)"
    and start: "Start px flags (pa_manager (rn_parts rn)) w1 = Some (Ok (rn_driver rn), w2)"
    and ctrl: "start_controller px flags w2 = (Ok (), w3)" and nri: "start_nri px flags w3 = (Ok (rn_nri rn), w')"
    using run by (auto simp: start_all_def bind_io_eq_Ok wrap_io_Ok split: prod.splits res.splits option.splits)
  note p = make_parts_Ok[OF parts doc]
  obtain v where m: "NewManager (px_os px) (Some (Some flags)) True v = Ok (pa_manager (rn_parts rn))" using p(1) by blast
  note ready = NewManager_ready[OF m]
  have "GetAdvertisedDevices (pa_manager (rn_parts rn)) = []" using ready by (simp add: advertised_def mkeys_def)
  then have "log w2 = log w @ [(True, [(fl_NodeName flags, [[]])])]" using Start_Ok[OF start doc] p(3) visits_all_Nil[OF visits] by simp
  then have "\<exists>v. log w' = log w @ [(True, [(fl_NodeName flags, [[]])])] @ ctl v" using start_rest_log[OF doc ctrl nri] by auto
  moreover have "rn_nri rn \<longleftrightarrow> fl_ConfigurationMode flags \<noteq> ConfigurationModeMultus"
    using nri by (auto simp: start_nri_def bind_io_eq_Ok split: if_splits)
  moreover have "isStandaloneMode (pa_manager (rn_parts rn)) \<longleftrightarrow> fl_ConfigurationMode flags \<noteq> ConfigurationModeMultus"
    by (rule NewManager_mode[OF m])
  ultimately show ?thesis using p(2) ready by simp
qed

text \<open>The health check answers \<open>SERVING\<close> exactly for the two known services when the registration socket and then
  the DRA socket answer without an error; any other service is an error.\<close>

theorem Check_serving:
  "fst (Check h service w) = Ok SERVING \<longleftrightarrow> service \<in> {[], ''liveness''} \<and> fst (hc_regClient h w) = Ok () \<and>
     fst (hc_draClient h (snd (hc_regClient h w))) = Ok ()"
  by (auto simp: Check_def split: prod.splits res.splits)

section \<open>Witnesses\<close>

definition example_helper :: "('w \<Rightarrow> bool) \<Rightarrow> (DriverResources \<Rightarrow> 'w \<Rightarrow> 'w) \<Rightarrow> 'w Helper" where
  "example_helper reg publish = \<lparr>
     hp_RegistrationStatus = \<lambda>w. Some \<lparr>rs_PluginRegistered = reg w, rs_Error = []\<rparr>,
     hp_PublishResources = \<lambda>res w. (Ok (), publish res w),
     hp_UpdateRequestMetadata = \<lambda>ns n uid r ds w. (Ok (), w), hp_Stop = \<lambda>w. w\<rparr>"

definition example_proc :: "'w os \<Rightarrow> 'w Helper \<Rightarrow> 'w proc" where
  "example_proc os helper = \<lparr>
     px_MkdirAll = \<lambda>p w. (Ok (), w), px_Stat_IsDir = \<lambda>p w. Ok True, px_IsNotExist = \<lambda>e. e = External ''NotExist'', px_Remove = \<lambda>p w. (Ok (), w),
     px_NewCache = \<lambda>d w. (Ok undefined, w), px_os = os,
     px_NewCheckpointManager = \<lambda>d w. (Ok \<lparr>cm_ListCheckpoints = \<lambda>w. Ok [DriverPluginCheckpointFile],
       cm_GetCheckpoint = \<lambda>n w. Ok \<lparr>cp_Checksum = 0, cp_V1 = Some []\<rparr>, cm_CreateCheckpoint = \<lambda>n cp w. (Err (External ''read-only''), w)\<rparr>, w),
     px_kubeletplugin_Start = \<lambda>opts w. (Ok helper, w), px_events = \<lambda>w i. (Tick, w),
     px_Listen = \<lambda>a w. (Ok (), w), px_regClient = \<lambda>p. Ok (\<lambda>w. (Ok (), w)), px_draClient = \<lambda>p. Ok (\<lambda>w. (Ok (), w)), px_Serve = \<lambda>w. w,
     px_GracefulStop = \<lambda>w. w, px_visit = rev, px_NewClientSetConfig = Ok (), px_ctrl_NewManager = \<lambda>ns m w. (Ok (), w),
     px_Complete = \<lambda>r w. (Ok (), w), px_mgr_Start = \<lambda>w. w, px_WaitForCacheSync = \<lambda>w. (True, w),
     px_stub_New = \<lambda>w. (Ok (), w), px_stub_Start = \<lambda>w. (Ok (), w), px_stub_Stop = \<lambda>w. w, px_serve = \<lambda>w. w\<rparr>"

text \<open>A plugin that is registered at the third tick, before the timer fires.\<close>

definition example_events :: "nat \<Rightarrow> wait_event \<times> nat" where
  "example_events i = (if i < 5 then Tick else Timeout, i)"

theorem waitForRegistration_returns_witness:
  "waitForRegistration (example_helper (\<lambda>w. 2 \<le> w) (\<lambda>res w. w)) example_events = Some (Ok (), 2)"
proof -
  let ?h = "example_helper (\<lambda>w :: nat. 2 \<le> w) (\<lambda>res w. w)"
  have d: "decisive ?h (example_events i) \<longleftrightarrow> 2 \<le> i" for i
    by (auto simp: decisive_def example_events_def example_helper_def split: wait_event.split)
  obtain i where "i \<le> 5" "\<forall>j < i. \<not> decisive ?h (example_events j)" "decisive ?h (example_events i)"
    "waitForRegistration ?h example_events = Some (verdict ?h (example_events i), snd (example_events i))"
    using waitForRegistration_returns[of example_events 5 ?h] by (auto simp: example_events_def)
  moreover from this(2,3) have "i = 2" unfolding d by (metis le_antisym not_le order.refl)
  ultimately show ?thesis by (simp add: verdict_def example_events_def example_helper_def)
qed

theorem Reconcile_publishes_witness:
  "\<exists>devices. snd (Reconcile match_labels_only (example_reader example_policies) (manager_ds (SetRepublishCallback None (PublishResources
      (example_proc undefined (example_helper (\<lambda>w. True) (\<lambda>res w. res))) pf_flags (example_helper (\<lambda>w. True) (\<lambda>res w. res)))))
      example_reconciler example_manager []) = [(fl_NodeName pf_flags, [devices])] \<and> length devices = 1"
proof -
  let ?h = "example_helper (\<lambda>w :: DriverResources. True) (\<lambda>res w. res)"
  define px where "px = example_proc undefined ?h"
  have reads: "rd_Get_node (example_reader example_policies) (rec_nodeName example_reconciler) = Ok []"
    "rd_List_policies (example_reader example_policies) (rec_namespace example_reconciler) = Ok example_policies"
    "rd_List_attributes (example_reader example_policies) (rec_namespace example_reconciler) = Ok [example_attrs ''a'' ''1'']"
    by (simp_all add: example_reader_def)
  have visits: "visits_all (px_visit px)" by (simp add: px_def example_proc_def visits_all_rev)
  have pub: "\<forall>res w w'. hp_PublishResources ?h res w = (Ok (), w') \<longrightarrow> w' = res" by (simp add: example_helper_def)
  have ok: "fst (fst (Reconcile match_labels_only (example_reader example_policies) (manager_ds (SetRepublishCallback None (PublishResources px pf_flags ?h)))
      example_reconciler example_manager [])) = Ok \<lparr>RequeueAfter = 0\<rparr>"
    and new: "snd (Reconcile match_labels_only (example_reader example_policies) (manager_ds (SetRepublishCallback None (PublishResources px pf_flags ?h)))
      example_reconciler example_manager []) \<noteq> []"
    and adv: "card (mkeys (GetAdvertisedDevices (snd (fst (Reconcile match_labels_only (example_reader example_policies)
      (manager_ds (SetRepublishCallback None (PublishResources px pf_flags ?h))) example_reconciler example_manager []))))) = 1"
    unfolding px_def example_proc_def by code_simp+
  obtain s' w' where run: "Reconcile match_labels_only (example_reader example_policies) (manager_ds (SetRepublishCallback None (PublishResources px pf_flags ?h)))
      example_reconciler example_manager [] = ((Ok \<lparr>RequeueAfter = 0\<rparr>, s'), w')" using ok by (metis prod.collapse)
  from Reconcile_publishes[where published = "\<lambda>w. w", OF example_manager_inv0 reads visits pub run] run new adv
  show ?thesis unfolding px_def by (auto simp: advertised_def)
qed

text \<open>A process whose world is the log of what is published.\<close>

definition log_proc :: "publish_log proc" where
  "log_proc = example_proc pf_os (example_helper (\<lambda>w. True) (\<lambda>res w. w @ [(True, res)]))"

lemma log_proc_documented: "startup_documented log_proc (\<lambda>w. w) (\<lambda>w. [])"
  by (auto simp: startup_documented_def log_proc_def example_proc_def example_helper_def logs_publish_def registered_def
      checkpointing_documented_def claims_wf_def)

theorem start_all_ready_witness:
  "\<exists>rn. start_all log_proc pf_flags [] = Some (Ok rn, [(True, [(''node'', [[]])])]) \<and>
     rn_nri rn = isStandaloneMode (pa_manager (rn_parts rn)) \<and> advertised (pa_manager (rn_parts rn)) = {}"
proof -
  note eval = log_proc_def example_proc_def wrap_io_def wrap_err_def
  obtain d where "DiscoverSriovDevices pf_os ([] :: publish_log) = Ok [(''0000-01-00-1'', d)]" using pf_discovers[of "[] :: publish_log"] by blast
  then obtain m where "NewManager pf_os (Some (Some pf_flags)) True ([] :: publish_log) = Ok m"
    by (simp add: NewManager_def normalizeConfigurationMode_def)
  then obtain parts where "make_parts log_proc pf_flags [] = (Ok parts, [])"
    by (simp add: make_parts_def eval ensure_cdi_root_def NewHandler_def NewPodManager_def newPodManager_def)
  moreover have "\<exists>d v. Start log_proc pf_flags m' [] = Some (Ok d, v)" for m'
    by (simp add: Start_def eval waitForRegistration_def registration_loop.simps example_helper_def startHealthcheck_def PublishResources_def)
  then obtain d v where "Start log_proc pf_flags (pa_manager parts) [] = Some (Ok d, v)" by blast
  moreover have "\<exists>b. start_nri log_proc pf_flags v = (Ok b, v)" by (auto simp: start_nri_def NewNRIPlugin_def Start_nri_def eval)
  moreover have "start_controller log_proc pf_flags v = (Ok (), v)" by (simp add: start_controller_def eval)
  ultimately obtain rn w' where run: "start_all log_proc pf_flags [] = Some (Ok rn, w')"
    by (auto simp: start_all_def wrap_io_def wrap_err_def)
  have "visits_all (px_visit log_proc)" by (simp add: eval visits_all_rev)
  from start_all_ready[OF run this log_proc_documented] run show ?thesis by auto
qed

end
