(* ===== verification/AttributeTypes.thy ===== *)
theory AttributeTypes
  imports Startup
begin

text \<open>
  A type system for device attributes. The Kubernetes API asks every attribute for exactly one value; the driver's own code
  dereferences the value of a reserved attribute without a check. Discovery gives every reserved attribute the value
  field the code expects, and policies keep it so, whatever the \<^verbatim>\<open>DeviceAttributes\<close> objects contain: no such dereference meets a nil
  pointer. All other attributes are values of these objects, which are passed on without a check.
\<close>

section \<open>Types\<close>

datatype attr_type = IntT | BoolT | StringT | VersionT

text \<open>The value fields of an attribute that are set.\<close>

definition set_fields :: "DeviceAttribute \<Rightarrow> attr_type set" where
  "set_fields a = (if IntValue a \<noteq> None then {IntT} else {}) \<union> (if BoolValue a \<noteq> None then {BoolT} else {}) \<union>
     (if StringValue a \<noteq> None then {StringT} else {}) \<union> (if VersionValue a \<noteq> None then {VersionT} else {})"

text \<open>The types of the attributes that discovery writes.\<close>

definition reserved_type :: "QualifiedName \<Rightarrow> attr_type option" where
  "reserved_type k = (if \<not> is_reserved k then None
     else if k = AttributeVFID \<or> k = AttributeNUMANode then Some IntT
     else if k = AttributeRDMACapable then Some BoolT else Some StringT)"

text \<open>Attributes of a device over a set \<open>A\<close> of values that policies may set: a reserved attribute has exactly one value, in the
  field of its type; every other one is a value of \<open>A\<close>.\<close>

definition typed_over :: "DeviceAttribute set \<Rightarrow> (QualifiedName \<rightharpoonup> DeviceAttribute) \<Rightarrow> bool" where
  "typed_over A f \<longleftrightarrow> (\<forall>k a. f k = Some a \<longrightarrow> (case reserved_type k of Some t \<Rightarrow> set_fields a = {t} | None \<Rightarrow> a \<in> A))"

definition typed_manager :: "DeviceAttribute set \<Rightarrow> Manager \<Rightarrow> bool" where
  "typed_manager A m \<longleftrightarrow> manager_inv m \<and> (\<forall>n d. GetAllocatableDeviceByName m n = Some d \<longrightarrow>
     typed_over A (map_of (dev_Attributes d)) \<and> (\<forall>k. is_reserved k \<longrightarrow> map_of (dev_Attributes d) k \<noteq> None))"

text \<open>The attribute values of the \<^verbatim>\<open>DeviceAttributes\<close> objects of a list, and of those that a reconcile reads.\<close>

definition object_values :: "DeviceAttributes list \<Rightarrow> DeviceAttribute set" where
  "object_values das = (\<Union>da \<in> set das. snd ` set (da_Attributes da))"

definition values_read :: "reader \<Rightarrow> Reconciler \<Rightarrow> DeviceAttribute set" where
  "values_read rd r = (case rd_List_attributes rd (rec_namespace r) of Ok das \<Rightarrow> object_values das | _ \<Rightarrow> {})"

text \<open>The states of the device manager, with the attribute values that were read: the constructor, and any number of reconciles on
  any policies and objects, whether or not the attributes of these have exactly one value.\<close>

inductive policy_run :: "as_selector \<Rightarrow> 'w republish option \<Rightarrow> 'w os \<Rightarrow> DeviceAttribute set \<Rightarrow> Manager \<Rightarrow> bool" for asSel cb os where
  new: "NewManager os config has_cdi w = Ok m \<Longrightarrow> policy_run asSel cb os {} m"
| reconcile: "policy_run asSel cb os A m \<Longrightarrow> Reconcile asSel rd (manager_ds cb) r m w = ((x, m'), w') \<Longrightarrow>
    policy_run asSel cb os (A \<union> values_read rd r) m'"

section \<open>Lemmas\<close>

lemma typed_overI: "(\<And>k a. f k = Some a \<Longrightarrow> case reserved_type k of Some t \<Rightarrow> set_fields a = {t} | None \<Rightarrow> a \<in> A) \<Longrightarrow> typed_over A f"
  unfolding typed_over_def by blast

lemma typed_over_add: "typed_over A f \<Longrightarrow> typed_over A g \<Longrightarrow> typed_over A (f ++ g)"
  unfolding typed_over_def by (metis map_add_Some_iff)

lemma typed_over_restrict: "typed_over A f \<Longrightarrow> typed_over A (f |` B)"
  by (auto simp: typed_over_def restrict_map_def split: if_splits)

lemma typed_over_mono: "typed_over A f \<Longrightarrow> A \<subseteq> B \<Longrightarrow> typed_over B f"
  unfolding typed_over_def by (fastforce split: option.splits)

lemma typed_manager_mono: "typed_manager A m \<Longrightarrow> A \<subseteq> B \<Longrightarrow> typed_manager B m"
  unfolding typed_manager_def using typed_over_mono by blast

lemma reserved_type_None [simp]: "reserved_type k = None \<longleftrightarrow> \<not> is_reserved k"
  by (simp add: reserved_type_def)

lemma value_fields [simp]: "set_fields (str_attr s) = {StringT}" "set_fields (int_attr i) = {IntT}" "set_fields (bool_attr b) = {BoolT}"
  by (simp_all add: set_fields_def str_attr_def int_attr_def bool_attr_def)

lemma reserved_types:
  "reserved_type AttributeVendorID = Some StringT" "reserved_type AttributeDeviceID = Some StringT" "reserved_type AttributePFDeviceID = Some StringT"
  "reserved_type AttributePciAddress = Some StringT" "reserved_type AttributeMultusDeviceID = Some StringT" "reserved_type AttributePFName = Some StringT"
  "reserved_type AttributeEswitchMode = Some StringT" "reserved_type AttributeVFID = Some IntT" "reserved_type AttributePCIeRoot = Some StringT"
  "reserved_type AttributePfPciAddress = Some StringT" "reserved_type AttributeStandardPciAddress = Some StringT"
  "reserved_type AttributeLinkType = Some StringT" "reserved_type AttributeRDMACapable = Some BoolT" "reserved_type AttributeNUMANode = Some IntT"
  by code_simp+

lemma vf_attributes_typed: "typed_over {} (map_of (vf_attributes pf nn rc vf))"
proof (rule typed_overI)
  fix k a assume "map_of (vf_attributes pf nn rc vf) k = Some a"
  then have in_set: "(k, a) \<in> set (vf_attributes pf nn rc vf)" by (rule map_of_SomeD)
  have "list_all (\<lambda>(k, a). case reserved_type k of Some t \<Rightarrow> set_fields a = {t} | None \<Rightarrow> a \<in> {}) (vf_attributes pf nn rc vf)"
    by (simp add: vf_attributes_def reserved_types)
  then show "case reserved_type k of Some t \<Rightarrow> set_fields a = {t} | None \<Rightarrow> a \<in> {}" using in_set unfolding list_all_iff by blast
qed

definition typed_devices :: "AllocatableDevices \<Rightarrow> bool" where
  "typed_devices devs \<longleftrightarrow> (\<forall>n d. map_of devs n = Some d \<longrightarrow> typed_over {} (map_of (dev_Attributes d)))"

lemma typed_devices_mput: "typed_devices devs \<Longrightarrow> typed_over {} (map_of (dev_Attributes d)) \<Longrightarrow> typed_devices (mput devs n d)"
  by (simp add: typed_devices_def)

lemma discovered_typed: "discover_vfs os w acc pfs = Ok devs \<Longrightarrow> typed_devices acc \<Longrightarrow> typed_devices devs"
proof (induction pfs arbitrary: acc)
  case (Cons pf pfs)
  define f where "f = vf_device os w pf (case ParseInt 10 (pf_NumaNode pf) of Some n \<Rightarrow> n | None \<Rightarrow> -1)"
  have "typed_devices m \<Longrightarrow> typed_devices (foldl (\<lambda>acc x. let d = f x in mput acc (dev_Name d) d) m xs)" for m xs
  proof (induction xs arbitrary: m)
    case (Cons x xs)
    have "typed_over {} (map_of (dev_Attributes (f x)))" by (simp add: f_def vf_device_def vf_attributes_typed)
    then have "typed_devices (mput m (dev_Name (f x)) (f x))" by (rule typed_devices_mput[OF Cons.prems])
    from Cons.IH[OF this] show ?case by (simp add: Let_def)
  qed simp
  then show ?case using Cons.prems Cons.IH by (auto simp: f_def Let_def)
qed simp

lemma new_typed:
  assumes "NewManager os config has_cdi w = Ok m" shows "typed_manager {} m"
proof -
  obtain devs pfs where "allocatable m = devs" "discover_vfs os w [] pfs = Ok devs"
    using assms by (auto simp: NewManager_def DiscoverSriovDevices_def split: option.splits if_splits)
  then have "typed_devices (allocatable m)" using discovered_typed[of os w "[]" pfs devs] by (simp add: typed_devices_def)
  moreover have "map_of (dev_Attributes d) k \<noteq> None" if "discovered_device n d" "is_reserved k" for n d k
  proof -
    have "k \<in> mkeys (dev_Attributes d)" using that by (simp add: discovered_device_def)
    then show ?thesis by (auto simp: mkeys_iff)
  qed
  ultimately show ?thesis
    using NewManager_ready[OF assms] unfolding typed_manager_def typed_devices_def GetAllocatableDeviceByName_def by blast
qed

lemma merge_values: "map_of (merge_attributes das) k = Some a \<Longrightarrow> a \<in> object_values das"
proof (induction das arbitrary: a rule: rev_induct)
  case (snoc da das)
  then have "map_of (rev (da_Attributes da)) k = Some a \<or> map_of (merge_attributes das) k = Some a"
    by (auto simp: merge_attributes_snoc map_of_mput_all)
  then show ?case
  proof
    assume "map_of (rev (da_Attributes da)) k = Some a"
    then have "(k, a) \<in> set (da_Attributes da)" by (auto dest: map_of_SomeD)
    then show ?thesis by (force simp: object_values_def)
  next
    assume "map_of (merge_attributes das) k = Some a"
    from snoc.IH[OF this] show ?thesis by (simp add: object_values_def)
  qed
qed (simp add: merge_attributes_def)

lemma resolve_values:
  assumes "map_of (resolveDeviceAttributes asSel sel das) k = Some a" shows "a \<in> object_values das"
proof -
  obtain p where "map_of (merge_attributes (sort_key da_Name (filter (\<lambda>da. p (da_Labels da)) das))) k = Some a"
    using assms by (auto simp: resolveDeviceAttributes_def split: option.splits res.splits)
  from merge_values[OF this] show ?thesis by (auto simp: object_values_def)
qed

lemma policy_map_typed:
  assumes "wf_map devs" "map_of (getPolicyDeviceMap asSel devs ps das) n = Some attrs"
  shows "typed_over (object_values das) (permitted attrs)"
proof (rule typed_overI)
  fix k a assume k: "permitted attrs k = Some a"
  obtain sel where "attrs = mput_all [] (resolveDeviceAttributes asSel sel das)"
    using assms(2) unfolding getPolicyDeviceMap_lookup[OF assms(1)] by (auto split: option.splits)
  then have "map_of (resolveDeviceAttributes asSel sel das) k = Some a" "\<not> is_reserved k"
    using k by (auto simp: permitted_def restrict_map_def map_of_mput_all_wf[OF wf_resolveDeviceAttributes] split: if_splits)
  then show "case reserved_type k of Some t \<Rightarrow> set_fields a = {t} | None \<Rightarrow> a \<in> object_values das"
    using resolve_values by (auto simp: reserved_type_def)
qed

lemma update_typed:
  assumes m: "typed_manager A m" and P: "wf_policies P" "\<And>n attrs. map_of P n = Some attrs \<Longrightarrow> typed_over A (permitted attrs)"
  shows "typed_manager A (snd (update_policy_state m P))"
proof -
  define u where "u = snd (update_policy_state m P)"
  have inv: "manager_inv m" using m by (simp add: typed_manager_def)
  have "typed_over A (map_of (dev_Attributes d)) \<and> (\<forall>k. is_reserved k \<longrightarrow> map_of (dev_Attributes d) k \<noteq> None)"
    if d: "map_of (allocatable u) n = Some d" for n d
  proof -
    obtain d0 where d0: "map_of (allocatable m) n = Some d0"
      "\<forall>k. is_reserved k \<longrightarrow> map_of (dev_Attributes d0) k = map_of (dev_Attributes d) k"
      using update_keeps_reserved[OF inv P(1), of n] d by (cases "map_of (allocatable m) n") (auto simp: u_def)
    have t0: "typed_over A (map_of (dev_Attributes d0))" "\<forall>k. is_reserved k \<longrightarrow> map_of (dev_Attributes d0) k \<noteq> None"
      using m d0(1) by (simp_all add: typed_manager_def GetAllocatableDeviceByName_def)
    have "typed_over A (policy_attrs m P n)"
      using P(2)[of n] by (auto simp: policy_attrs_def matched_def restrict_map_def typed_over_def split: option.splits if_splits)
    moreover have "typed_over A (discovery_attrs m n)" using t0(1) d0(1) by (simp add: discovery_attrs_def attrs_of_def typed_over_restrict)
    moreover have "map_of (dev_Attributes d) = discovery_attrs m n ++ policy_attrs m P n"
      using update_policy_state_effect(1)[OF P(1), of m n] d by (simp add: u_def attrs_of_def)
    ultimately show ?thesis using t0(2) d0(2) by (simp add: typed_over_add)
  qed
  then show ?thesis
    using update_policy_state_inv(1)[OF P(1) inv] unfolding typed_manager_def u_def GetAllocatableDeviceByName_def by blast
qed

lemma policy_run_typed: "policy_run asSel cb os A m \<Longrightarrow> typed_manager A m"
proof (induction rule: policy_run.induct)
  case (new config has_cdi w m)
  then show ?case by (rule new_typed)
next
  case (reconcile A m rd r w x m' w')
  let ?B = "A \<union> values_read rd r"
  have m: "typed_manager ?B m" by (rule typed_manager_mono[OF reconcile.IH]) simp
  have wf: "wf_map (allocatable m)" using m by (simp add: typed_manager_def manager_inv_def)
  have "m' = m \<or> (\<exists>P. wf_policies P \<and> (\<forall>n attrs. map_of P n = Some attrs \<longrightarrow> typed_over ?B (permitted attrs)) \<and> m' = snd (update_policy_state m P))"
  proof (cases "\<exists>labels ps das. rd_Get_node rd (rec_nodeName r) = Ok labels \<and> rd_List_policies rd (rec_namespace r) = Ok ps \<and>
      rd_List_attributes rd (rec_namespace r) = Ok das")
    case False
    then show ?thesis using reconcile.hyps(2) by (auto simp: Reconcile_def split: res.splits if_splits)
  next
    case True
    then obtain labels ps das where r: "rd_Get_node rd (rec_nodeName r) = Ok labels" "rd_List_policies rd (rec_namespace r) = Ok ps"
      "rd_List_attributes rd (rec_namespace r) = Ok das" by blast
    define P where "P = getPolicyDeviceMap asSel (allocatable m) (filter (\<lambda>p. matchesNodeSelector asSel labels (pol_NodeSelector p)) ps) das"
    have "m' = snd (update_policy_state m P)"
      using managed.reconcile_update(1)[OF r, of asSel cb m w] reconcile.hyps(2)
      by (simp add: UpdatePolicyDevices_state P_def manager_ds_def GetAllocatableDevices_def)
    moreover have "typed_over ?B (permitted attrs)" if "map_of P n = Some attrs" for n attrs
      using typed_over_mono[OF policy_map_typed[OF wf that[unfolded P_def]], of ?B] r(3) by (simp add: values_read_def)
    ultimately show ?thesis using wf_getPolicyDeviceMap[OF wf] unfolding P_def by blast
  qed
  then show ?case using update_typed[OF m] m by blast
qed

lemma typed_pci:
  assumes "typed_manager A m" "GetAllocatableDeviceByName m n = Some d" shows "\<exists>a. pci_address d = Ok a"
proof -
  have "is_reserved AttributePciAddress" using reserved_type_None[of AttributePciAddress] reserved_types(4) by simp
  then obtain a where a: "map_of (dev_Attributes d) AttributePciAddress = Some a"
    using assms unfolding typed_manager_def by blast
  have "typed_over A (map_of (dev_Attributes d))" using assms unfolding typed_manager_def by blast
  then have "set_fields a = {StringT}" using a reserved_types(4) unfolding typed_over_def by (elim allE[of _ AttributePciAddress] allE[of _ a]) simp
  then have "StringValue a \<noteq> None" by (auto simp: set_fields_def split: if_splits)
  then show ?thesis using a by (auto simp: pci_address_def)
qed

lemma typed_addresses: "typed_manager A m \<Longrightarrow> \<not> is_panic (pod_addresses m acc (map Some ds))"
proof (induction ds arbitrary: acc)
  case (Cons p ds)
  show ?case
  proof (cases "GetAllocatableDeviceByName m (pd_DeviceName p)")
    case (Some d)
    then show ?thesis using typed_pci[OF Cons.prems Some] Cons by auto
  qed simp
qed simp

section \<open>Properties\<close>

text \<open>C8. Reserved attributes are type safe. In every state that the constructor and any sequence of reconciles reach, whatever the policies
  and the \<^verbatim>\<open>DeviceAttributes\<close> objects they read contain (also attributes with no value or several): every reserved attribute of every device has exactly
  one value, in the field that the code dereferences, and every other attribute is a value of an object that one of these reconciles
  read. So the PCI address of a device of the manager is always found, the addresses of a pod's
  devices are collected without a panic, and \<^verbatim>\<open>PublishResources\<close> publishes such devices only.\<close>

theorem attribute_type_safety:
  assumes "policy_run asSel cb os A m"
  shows "(\<forall>n d. GetAllocatableDeviceByName m n = Some d \<longrightarrow> typed_over A (map_of (dev_Attributes d)) \<and> (\<exists>a. pci_address d = Ok a)) \<and>
    (\<forall>ds. \<not> is_panic (pod_addresses m [] (map Some ds))) \<and>
    (\<forall>(px :: 'v proc) flags helper w. visits_all (px_visit px) \<longrightarrow>
      (\<exists>devs. PublishResources px flags helper m w = hp_PublishResources helper [(fl_NodeName flags, [devs])] w \<and>
        (\<forall>dev \<in> set devs. typed_over A (map_of (dev_Attributes dev)))))"
proof -
  have m: "typed_manager A m" by (rule policy_run_typed[OF assms])
  have "\<exists>devs. PublishResources px flags helper m w = hp_PublishResources helper [(fl_NodeName flags, [devs])] w \<and>
      (\<forall>dev \<in> set devs. typed_over A (map_of (dev_Attributes dev)))" if v: "visits_all (px_visit px)" for px :: "'v proc" and flags helper w
  proof (intro exI conjI)
    show "PublishResources px flags helper m w =
        hp_PublishResources helper [(fl_NodeName flags, [map snd (px_visit px (GetAdvertisedDevices m))])] w" by (simp add: PublishResources_def)
    show "\<forall>dev \<in> set (map snd (px_visit px (GetAdvertisedDevices m))). typed_over A (map_of (dev_Attributes dev))"
      using m unfolding published_devices(1)[OF v] typed_manager_def by blast
  qed
  then show ?thesis using m typed_pci[OF m] typed_addresses[OF m] unfolding typed_manager_def by blast
qed

theorem attribute_type_safety_witness:
  "\<exists>m m' d a. NewManager pf_os (Some (Some pf_flags)) True () = Ok m \<and>
     m' = snd (fst (Reconcile match_labels_only (example_reader example_policies) (manager_ds None) example_reconciler m ())) \<and>
     GetAllocatableDeviceByName m' ''0000-01-00-1'' = Some d \<and>
     typed_over (values_read (example_reader example_policies) example_reconciler) (map_of (dev_Attributes d)) \<and> pci_address d = Ok a"
proof -
  obtain d where d: "DiscoverSriovDevices pf_os () = Ok [(''0000-01-00-1'', d)]" using pf_discovers[of "()"] by blast
  then obtain m where m: "NewManager pf_os (Some (Some pf_flags)) True () = Ok m" "allocatable m = [(''0000-01-00-1'', d)]"
    by (simp add: NewManager_def normalizeConfigurationMode_def)
  have r: "policy_run match_labels_only None (pf_os :: unit os) {} m" by (rule policy_run.new[OF m(1)])
  obtain x m' w' where m': "Reconcile match_labels_only (example_reader example_policies) (manager_ds None) example_reconciler m () = ((x, m'), w')"
    by (metis prod.exhaust)
  from policy_run.reconcile[OF r m']
  have r': "policy_run match_labels_only None (pf_os :: unit os) (values_read (example_reader example_policies) example_reconciler) m'" by simp
  have inv: "manager_inv m" using NewManager_ready[OF m(1)] by blast
  have wp: "wf_policies (getPolicyDeviceMap match_labels_only (allocatable m) ps das)" for ps das
    by (rule wf_getPolicyDeviceMap) (use inv in \<open>simp add: manager_inv_def\<close>)
  have "\<exists>P. wf_policies P \<and> m' = snd (update_policy_state m P)"
    using managed.reconcile_update(1)[of "example_reader example_policies" example_reconciler "[]" example_policies "[example_attrs ''a'' ''1'']"
        match_labels_only None m "()"] m' wp
    by (auto simp: example_reader_def UpdatePolicyDevices_state manager_ds_def GetAllocatableDevices_def)
  then obtain P where P: "wf_policies P" "m' = snd (update_policy_state m P)" by blast
  then obtain d' where "map_of (allocatable m') ''0000-01-00-1'' = Some d'"
    using update_keeps_reserved[OF inv P(1), of "''0000-01-00-1''"] m(2)
    by (cases "map_of (allocatable (snd (update_policy_state m P))) ''0000-01-00-1''") auto
  then have g: "GetAllocatableDeviceByName m' ''0000-01-00-1'' = Some d'" by (simp add: GetAllocatableDeviceByName_def)
  then obtain a where t: "typed_over (values_read (example_reader example_policies) example_reconciler) (map_of (dev_Attributes d'))" and a: "pci_address d' = Ok a"
    using conjunct1[OF attribute_type_safety[OF r']] by blast
  have "m' = snd (fst (Reconcile match_labels_only (example_reader example_policies) (manager_ds None) example_reconciler m ()))" by (simp add: m')
  then show ?thesis using m(1) g t a by (intro exI conjI) assumption+
qed

end
