(* ===== verification/WorldFrame.thy ===== *)
theory WorldFrame
  imports Prepare
begin

text \<open>
  What the device manager leaves alone. The operations of \<^verbatim>\<open>state.go\<close> act on the node only through the operating
  system, the CDI cache and the device-info store: an observation of the world that none of the three changes is
  the same after every operation, whatever its outcome. The node's state machine uses it for the checkpoint file.
\<close>

definition os_keeps :: "'w os \<Rightarrow> ('w \<Rightarrow> 'x) \<Rightarrow> bool" where
  "os_keeps os f \<longleftrightarrow> (\<forall>p x w. f (snd (os_WriteFile os p x w)) = f w) \<and> (\<forall>m w. f (snd (os_modprobe os m w)) = f w)"

definition dis_keeps :: "'w DeviceInfoStore \<Rightarrow> ('w \<Rightarrow> 'x) \<Rightarrow> bool" where
  "dis_keeps dis f \<longleftrightarrow> (\<forall>a b w. f (snd (CleanDeviceInfoForDP dis a b w)) = f w) \<and> (\<forall>a b i w. f (snd (SaveDeviceInfoForDP dis a b i w)) = f w)"

definition cdi_keeps :: "'w cdi_cache \<Rightarrow> ('w \<Rightarrow> 'x) \<Rightarrow> bool" where
  "cdi_keeps cdi f \<longleftrightarrow> (\<forall>spec n w. f (snd (cdi_WriteSpec cdi spec n w)) = f w) \<and> (\<forall>n w. f (snd (cdi_RemoveSpec cdi n w)) = f w)"

definition env_keeps :: "'w env \<Rightarrow> ('w \<Rightarrow> 'x) \<Rightarrow> bool" where
  "env_keeps env f \<longleftrightarrow> os_keeps (env_os env) f \<and> dis_keeps (env_dis env) f \<and> cdi_keeps (env_cdi env) f"

named_theorems frame "an operation keeps an observation of the world"

lemma keeps_base [frame]:
  "os_keeps os f \<Longrightarrow> f (snd (os_WriteFile os p x w)) = f w"
  "os_keeps os f \<Longrightarrow> f (snd (os_modprobe os m w)) = f w"
  "dis_keeps dis f \<Longrightarrow> f (snd (CleanDeviceInfoForDP dis a b w)) = f w"
  "dis_keeps dis f \<Longrightarrow> f (snd (SaveDeviceInfoForDP dis a b i w)) = f w"
  "cdi_keeps cdi f \<Longrightarrow> f (snd (cdi_WriteSpec cdi spec n w)) = f w"
  "cdi_keeps cdi f \<Longrightarrow> f (snd (cdi_RemoveSpec cdi n w)) = f w"
  by (simp_all add: os_keeps_def dis_keeps_def cdi_keeps_def)

lemmas frame_splits = case_prod_beta bind_io_def Let_def

lemma env_keeps_parts [frame]:
  "env_keeps env f \<Longrightarrow> os_keeps (env_os env) f" "env_keeps env f \<Longrightarrow> dis_keeps (env_dis env) f" "env_keeps env f \<Longrightarrow> cdi_keeps (env_cdi env) f"
  by (simp_all add: env_keeps_def)

section \<open>Kernel modules and drivers\<close>

lemma load_missing_frame [frame]: "os_keeps os f \<Longrightarrow> f (snd (load_missing os errs ms w)) = f w"
  by (induction ms arbitrary: errs w) (simp_all add: LoadKernelModule_def wrap_err_def frame frame_splits split: res.split)

lemma ensure_modules_frame [frame]: "os_keeps os f \<Longrightarrow> f (snd (ensure_modules os msg ms w)) = f w"
  by (simp add: ensure_modules_def frame frame_splits split: res.split)

lemma ensure_loaded_frame [frame]:
  "os_keeps os f \<Longrightarrow> f (snd (EnsureDpdkModuleLoaded os n w)) = f w"
  "os_keeps os f \<Longrightarrow> f (snd (EnsureVhostModulesLoaded os w)) = f w"
  by (simp_all add: EnsureDpdkModuleLoaded_def EnsureVhostModulesLoaded_def frame)

lemma driver_writes_frame [frame]:
  "os_keeps os f \<Longrightarrow> f (snd (bindDriver os d n w)) = f w"
  "os_keeps os f \<Longrightarrow> f (snd (probeDriver os d w)) = f w"
  "os_keeps os f \<Longrightarrow> f (snd (setDriverOverride os d x w)) = f w"
  "os_keeps os f \<Longrightarrow> f (snd (UnbindDriverByBusAndDevice os d w)) = f w"
  by (simp_all add: bindDriver_def unbindDriver_def probeDriver_def setDriverOverride_def UnbindDriverByBusAndDevice_def frame frame_splits
      split: res.split)

lemma bind_frame [frame]:
  "os_keeps os f \<Longrightarrow> f (snd (BindDriverByBusAndDevice os d n w)) = f w"
  "os_keeps os f \<Longrightarrow> f (snd (BindDefaultDriver os d w)) = f w"
  by (simp_all add: BindDriverByBusAndDevice_def BindDefaultDriver_def frame frame_splits split: res.split)

lemma restore_frame [frame]:
  "os_keeps os f \<Longrightarrow> f (snd (BindDeviceDriver os d c w)) = f w"
  "os_keeps os f \<Longrightarrow> f (snd (RestoreDeviceDriver os d n w)) = f w"
  by (simp_all add: BindDeviceDriver_def RestoreDeviceDriver_def frame frame_splits split: res.split)

section \<open>Devices and claims\<close>

lemma container_edits_frame [frame]: "os_keeps os f \<Longrightarrow> f (snd (container_edits os s c d a n w)) = f w"
  by (simp add: container_edits_def frame frame_splits split: res.split)

lemma on_error_frame [frame]: "os_keeps os f \<Longrightarrow> f (snd (restoreDriverOnError os c a orig e w)) = f w"
  by (simp add: restoreDriverOnError_def frame frame_splits split: res.split)

lemma apply_config_frame [frame]: "env_keeps env f \<Longrightarrow> f (snd (applyConfigOnDevice env s i claim c r w)) = f w"
  by (simp add: applyConfigOnDevice_def frame frame_splits split: res.split option.split list.split)

lemma unprepare_devices_frame [frame]: "os_keeps os f \<Longrightarrow> f (snd (unprepareDevices os ps w)) = f w"
proof (induction ps arbitrary: w)
  case (Cons p ps)
  then show ?case by (cases p) (simp_all add: frame frame_splits split: res.split option.split)
qed simp

lemma prepare_results_frame [frame]: "env_keeps env f \<Longrightarrow> f (snd (prepare_results env s rc i claim ds rs w)) = f w"
  by (induction rs arbitrary: i claim ds w) (simp_all add: frame frame_splits split: res.split prod.split)

lemma clean_infos_frame [frame]: "dis_keeps dis f \<Longrightarrow> f (snd (clean_infos dis errs ps w)) = f w"
proof (induction ps arbitrary: errs w)
  case (Cons p ps)
  then show ?case by (cases p) (simp_all add: frame frame_splits split: res.split option.split)
qed simp

lemma save_info_frame [frame]: "dis_keeps dis f \<Longrightarrow> f (snd (saveDeviceInfoForPreparedDevice os dis p w)) = f w"
  by (simp add: saveDeviceInfoForPreparedDevice_def frame frame_splits split: res.split)

lemma sync_infos_frame [frame]: "dis_keeps dis f \<Longrightarrow> f (snd (sync_infos os dis errs ps w)) = f w"
proof (induction ps arbitrary: errs w)
  case (Cons p ps)
  then show ?case by (cases p) (simp_all add: frame frame_splits split: res.split option.split)
qed simp

lemma device_info_files_frame [frame]:
  "dis_keeps dis f \<Longrightarrow> f (snd (cleanDeviceInfoFilesForPreparedDevicesIfNeeded dis s ps w)) = f w"
  "dis_keeps dis f \<Longrightarrow> f (snd (syncDeviceInfoFilesForPreparedDevicesIfNeeded os dis s ps w)) = f w"
  by (simp_all add: cleanDeviceInfoFilesForPreparedDevicesIfNeeded_def syncDeviceInfoFilesForPreparedDevicesIfNeeded_def
      cleanDeviceInfoFilesForPreparedDevices_def syncDeviceInfoFilesForPreparedDevices_def frame frame_splits split: res.split)

lemma spec_files_frame [frame]:
  "cdi_keeps cdi f \<Longrightarrow> f (snd (CreateClaimSpecFile cdi ps w)) = f w"
  "cdi_keeps cdi f \<Longrightarrow> f (snd (CreateGlobalPodSpecFile cdi u as w)) = f w"
  "cdi_keeps cdi f \<Longrightarrow> f (snd (DeleteSpecFile cdi u w)) = f w"
  by (simp_all add: CreateClaimSpecFile_def CreateGlobalPodSpecFile_def DeleteSpecFile_def write_versioned_def frame frame_splits
      split: res.split list.split option.split)

lemma rollback_frame [frame]: "env_keeps env f \<Longrightarrow> f (snd (rollback_prepared env s m e ps w)) = f w"
  by (simp add: rollback_prepared_def frame frame_splits split: res.split)

lemma prepare_claim_frame [frame]: "env_keeps env f \<Longrightarrow> f (snd (PrepareDevicesForClaim env s i claim w)) = f w"
  by (simp add: PrepareDevicesForClaim_def prepareDevices_def frame frame_splits split: res.split option.split)

lemma collect_frame: "f (snd (step w)) = f w \<Longrightarrow> f (snd (collect m step errs w)) = f w"
  by (simp add: collect_def frame_splits split: res.split)

lemma bind_io_frame: "f (snd rw) = f w \<Longrightarrow> (\<And>x v. f (snd (k x v)) = f v) \<Longrightarrow> f (snd (bind_io rw k)) = f w"
  by (cases "fst rw") (simp_all add: bind_io_def case_prod_beta)

lemma unprepare_claim_frame [frame]: "env_keeps env f \<Longrightarrow> f (snd (Unprepare env s u ps w)) = f w"
  unfolding Unprepare_def
  by (intro bind_io_frame collect_frame) (simp_all add: collect_frame frame split: list.split option.split)

end
