(* ===== verification/NodeMachine.thy ===== *)
theory NodeMachine
  imports Driver WorldFrame Discovery Controller
begin

text \<open>
  The driver on its node as one state machine: the pod manager, the device manager and the world, changed by the
  kubelet's calls, by the controller, by single writes of network data (the granularity of the pod manager's lock,
  so the NRI goroutine can be interrupted between any two devices), by restarts of the process and by
  everything else that happens on the node. The theory shows that no device is left on a foreign driver: along every
  run, a device that no stored claim holds is bound to the driver it had when the node was set up.
\<close>

section \<open>Views of the store\<close>

type_synonym claims_view = "UID \<Rightarrow> UID \<rightharpoonup> PreparedDevices"

text \<open>What a restart would load: the claims in the checkpoint file.\<close>

definition checkpoint_file :: "'w checkpoint_manager \<Rightarrow> 'w \<Rightarrow> string list res \<times> Checkpoint res" where
  "checkpoint_file cm w = (cm_ListCheckpoints cm w, cm_GetCheckpoint cm DriverPluginCheckpointFile w)"

definition saved_claims :: "'w checkpoint_manager \<Rightarrow> 'w \<Rightarrow> claims_view" where
  "saved_claims cm w = (case fst (newPodManager cm w) of Ok s \<Rightarrow> Get s | _ \<Rightarrow> (\<lambda>p. Map.empty))"

definition entries :: "claims_view \<Rightarrow> PreparedDevice set" where
  "entries v = {q. \<exists>p c ds. v p c = Some ds \<and> Some q \<in> set ds}"

definition held :: "claims_view \<Rightarrow> string set" where
  "held v = pd_PciAddress ` {q \<in> entries v. rebound q}"

text \<open>A virtual function that had a driver when the node was set up, as \<open>base\<close> says.\<close>

definition known_vf :: "(string \<rightharpoonup> string) \<Rightarrow> string \<Rightarrow> bool" where
  "known_vf base a \<longleftrightarrow> is_bdf a \<and> is_name a \<and> (\<exists>orig. base a = Some orig \<and> is_name orig)"

definition recorded :: "(string \<rightharpoonup> string) \<Rightarrow> PreparedDevice \<Rightarrow> bool" where
  "recorded base q \<longleftrightarrow> known_vf base (pd_PciAddress q) \<and> pd_DeviceName q = device_name (pd_PciAddress q) \<and>
     (rebound q \<longrightarrow> base (pd_PciAddress q) = Some (pd_OriginalDriver q))"

text \<open>Every foreign binding is accounted for by a stored device, which records the driver to go back to.\<close>

definition accounted :: "(string \<rightharpoonup> string) \<Rightarrow> (string \<rightharpoonup> string) \<Rightarrow> claims_view \<Rightarrow> bool" where
  "accounted base bound v \<longleftrightarrow> (\<forall>q \<in> entries v. recorded base q) \<and> (\<forall>a. a \<notin> held v \<longrightarrow> bound a = base a)"

definition lone :: "claims_view \<Rightarrow> bool" where
  "lone v \<longleftrightarrow> (\<forall>p c c'. v p c \<noteq> None \<longrightarrow> v p c' \<noteq> None \<longrightarrow> c = c')"

section \<open>The state machine\<close>

record 'w node =
  nd_store :: PodManager
  nd_manager :: Manager
  nd_world :: 'w

text \<open>What the scheduler and the kubelet promise of a claim they ask to prepare: its devices are different, a
  pod has one claim of this driver, and no device of a claim that is not prepared yet is in use by another one.\<close>

definition admissible :: "decoder \<Rightarrow> PodManager \<Rightarrow> ResourceClaim \<Rightarrow> bool" where
  "admissible dec s claim \<longleftrightarrow> (\<forall>pod al. claim_ReservedFor claim = [pod] \<longrightarrow> claim_Allocation claim = Some al \<longrightarrow>
     (\<forall>rc. getMapOfOpaqueDeviceConfigForDevice dec (al_Config al) = Ok rc \<longrightarrow> valid_configs rc) \<and>
     distinct (map r_Device (own_results (al_Results al))) \<and>
     (\<forall>c. Get s pod c \<noteq> None \<longrightarrow> c = claim_UID claim) \<and>
     (Get s pod (claim_UID claim) = None \<longrightarrow> (\<forall>q \<in> entries (Get s). pd_DeviceName q \<notin> r_Device ` set (own_results (al_Results al)))))"

text \<open>The call did not report that a bind, a restore or a clean-up failed.\<close>

definition undamaged_result :: "PrepareResult \<Rightarrow> bool" where
  "undamaged_result r \<longleftrightarrow> (\<forall>e. pr_Err r = Some e \<longrightarrow> undamaged e \<and>
     (\<forall>es. e \<noteq> Errorf ''error setting prepared devices for pod %s into pod manager: %w; cleanup failed: %v'' es))"

inductive node_step :: "(PodManager, 'w) Driver \<Rightarrow> 'w checkpoint_manager \<Rightarrow> Flags \<Rightarrow> 'w republish option \<Rightarrow> ('w \<Rightarrow> string \<rightharpoonup> string) \<Rightarrow>
    'w node \<Rightarrow> 'w node \<Rightarrow> bool" for d cm flags cb drv where
  prepare: "admissible (env_decode (d_env d)) (nd_store nd) claim \<Longrightarrow>
      prepareResourceClaim d (nd_manager nd) idx claim (nd_store nd) (nd_world nd) = ((Ok r, idx', s'), w') \<Longrightarrow> undamaged_result r \<Longrightarrow>
      node_step d cm flags cb drv nd (nd\<lparr>nd_store := s', nd_world := w'\<rparr>)"
| unprepare: "unprepareResourceClaim d (nd_manager nd) claim (nd_store nd) (nd_world nd) = ((r, s'), w') \<Longrightarrow> \<not> is_panic r \<Longrightarrow>
      node_step d cm flags cb drv nd (nd\<lparr>nd_store := s', nd_world := w'\<rparr>)"
| network: "i < length (pm_heap (nd_store nd)) \<Longrightarrow>
      UpdatePreparedDeviceNetworkData cm (nd_store nd) (Some i) networkData (nd_world nd) = ((r, s'), w') \<Longrightarrow>
      node_step d cm flags cb drv nd (nd\<lparr>nd_store := s', nd_world := w'\<rparr>)"
| reconcile: "Reconcile asSel rd (manager_ds cb) rec (nd_manager nd) (nd_world nd) = ((r, m'), w') \<Longrightarrow>
      node_step d cm flags cb drv nd (nd\<lparr>nd_manager := m', nd_world := w'\<rparr>)"
| restart: "NewManager (env_os (d_env d)) (Some (Some flags)) True (nd_world nd) = Ok m' \<Longrightarrow> newPodManager cm (nd_world nd) = (Ok s', w') \<Longrightarrow>
      node_step d cm flags cb drv nd \<lparr>nd_store = s', nd_manager = m', nd_world = w'\<rparr>"
| other: "drv w' = drv (nd_world nd) \<Longrightarrow> checkpoint_file cm w' = checkpoint_file cm (nd_world nd) \<Longrightarrow>
      node_step d cm flags cb drv nd (nd\<lparr>nd_world := w'\<rparr>)"

text \<open>What the kernel lists of the PCI devices: names, and links from a physical function to the addresses of virtual functions.\<close>

definition pci_listing :: "'w os \<Rightarrow> 'w \<Rightarrow> bool" where
  "pci_listing os w \<longleftrightarrow> (\<forall>ds. ghw_PCI os w = Ok ds \<longrightarrow> (\<forall>x \<in> set ds. is_name (pci_Address x))) \<and>
     (\<forall>p es. os_ReadDir os p w = Ok es \<longrightarrow> (\<forall>e \<in> set es. is_name e)) \<and>
     (\<forall>pf e t. is_name pf \<longrightarrow> is_name e \<longrightarrow> HasPrefix e ''virtfn'' \<longrightarrow> os_Readlink os (dev_file pf e) w = Ok t \<longrightarrow>
        is_bdf (filepath_Base t) \<and> is_name (filepath_Base t))"

text \<open>Not documented, but a condition of the theorems about the node: every virtual function that a physical function ever lists
  had a driver when the node was set up. (A device without one is brought to the kernel's default driver when it is restored,
  so it would not come back to its state.)\<close>

definition bound_at_setup :: "'w os \<Rightarrow> (string \<rightharpoonup> string) \<Rightarrow> bool" where
  "bound_at_setup os base \<longleftrightarrow> (\<forall>w pf e t. is_name pf \<longrightarrow> is_name e \<longrightarrow> HasPrefix e ''virtfn'' \<longrightarrow> os_Readlink os (dev_file pf e) w = Ok t \<longrightarrow>
     (\<exists>orig. base (filepath_Base t) = Some orig \<and> is_name orig))"

text \<open>What is documented of everything around the driver: besides the laws of the earlier theories, only the
  checkpoint manager writes the checkpoint file, atomically, neither it nor the API server binds drivers, and the links
  \<^verbatim>\<open>virtfn\<close> of a physical function lead to virtual functions.\<close>

definition node_documented :: "(PodManager, 'w) Driver \<Rightarrow> 'w checkpoint_manager \<Rightarrow> 'w republish option \<Rightarrow>
    ('w \<Rightarrow> string \<rightharpoonup> string) \<Rightarrow> bool" where
  "node_documented d cm cb drv \<longleftrightarrow> d_store d = pod_store cm \<and> plugin_documented d drv \<and> checkpointing_documented cm \<and>
     (\<forall>n cp w. drv (snd (cm_CreateCheckpoint cm n cp w)) = drv w \<and> \<not> is_panic (fst (cm_CreateCheckpoint cm n cp w)) \<and>
        (is_err (fst (cm_CreateCheckpoint cm n cp w)) \<longrightarrow> checkpoint_file cm (snd (cm_CreateCheckpoint cm n cp w)) = checkpoint_file cm w)) \<and>
     env_keeps (d_env d) (checkpoint_file cm) \<and>
     (\<forall>ns c w. checkpoint_file cm (snd (UpdateClaimStatusWithRetry (d_errors d) (d_backoff d) (d_ctxErr d) (d_claims d ns) c DriverName w)) =
        checkpoint_file cm w) \<and>
     (\<forall>f m w. cb = Some f \<longrightarrow> drv (snd (f m w)) = drv w \<and> checkpoint_file cm (snd (f m w)) = checkpoint_file cm w) \<and>
     (\<forall>w. pci_listing (env_os (d_env d)) w)"

definition node_setup :: "(PodManager, 'w) Driver \<Rightarrow> 'w checkpoint_manager \<Rightarrow> 'w republish option \<Rightarrow>
    ('w \<Rightarrow> string \<rightharpoonup> string) \<Rightarrow> (string \<rightharpoonup> string) \<Rightarrow> bool" where
  "node_setup d cm cb drv base \<longleftrightarrow> node_documented d cm cb drv \<and> bound_at_setup (env_os (d_env d)) base"

section \<open>The invariant\<close>

definition vf_hardware :: "(string \<rightharpoonup> string) \<Rightarrow> Manager \<Rightarrow> bool" where
  "vf_hardware base m \<longleftrightarrow> manager_inv m \<and>
     (\<forall>n d. map_of (allocatable m) n = Some d \<longrightarrow> (\<exists>a. pci_address d = Ok a \<and> n = device_name a \<and> known_vf base a))"

definition node_inv :: "'w checkpoint_manager \<Rightarrow> ('w \<Rightarrow> string \<rightharpoonup> string) \<Rightarrow> (string \<rightharpoonup> string) \<Rightarrow> 'w node \<Rightarrow> bool" where
  "node_inv cm drv base nd \<longleftrightarrow> pm_inv (nd_store nd) \<and> vf_hardware base (nd_manager nd) \<and>
     (\<forall>v \<in> {Get (nd_store nd), saved_claims cm (nd_world nd)}. accounted base (drv (nd_world nd)) v \<and> lone v)"

section \<open>Lemmas: views\<close>

lemma entriesI: "v p c = Some ds \<Longrightarrow> Some q \<in> set ds \<Longrightarrow> q \<in> entries v"
  unfolding entries_def by blast

lemma entries_put:
  fixes v :: claims_view
  assumes "v p c = None" shows "entries (v(p := (v p)(c \<mapsto> map Some ds))) = entries v \<union> set ds"
proof (intro subset_antisym subsetI)
  fix q assume "q \<in> entries (v(p := (v p)(c \<mapsto> map Some ds)))"
  then obtain p' c' ds' where "(v(p := (v p)(c \<mapsto> map Some ds))) p' c' = Some ds'" "Some q \<in> set ds'"
    unfolding entries_def by blast
  then show "q \<in> entries v \<union> set ds" by (cases "p' = p \<and> c' = c") (auto split: if_splits intro: entriesI)
next
  fix q assume "q \<in> entries v \<union> set ds"
  then show "q \<in> entries (v(p := (v p)(c \<mapsto> map Some ds)))"
  proof
    assume "q \<in> entries v"
    then obtain p' c' ds' where "v p' c' = Some ds'" "Some q \<in> set ds'" by (auto simp: entries_def)
    moreover from this(1) have "(v(p := (v p)(c \<mapsto> map Some ds))) p' c' = Some ds'" using assms by auto
    ultimately show ?thesis by (blast intro: entriesI)
  next
    assume "q \<in> set ds"
    then show ?thesis by (intro entriesI[of _ p c "map Some ds"]) simp_all
  qed
qed

lemma entries_drop:
  fixes v :: claims_view
  assumes "lone v" "v p c = Some ds" shows "entries v = entries (v(p := Map.empty)) \<union> {q. Some q \<in> set ds}"
proof (intro subset_antisym subsetI)
  fix q assume "q \<in> entries v"
  then obtain p' c' ds' where q: "v p' c' = Some ds'" "Some q \<in> set ds'" by (auto simp: entries_def)
  show "q \<in> entries (v(p := Map.empty)) \<union> {q. Some q \<in> set ds}"
  proof (cases "p' = p")
    case True
    then have "c' = c" using assms q(1) by (auto simp: lone_def)
    then show ?thesis using True q assms(2) by simp
  next
    case False
    then show ?thesis using q by (intro UnI1 entriesI[of _ p' c' ds']) simp_all
  qed
next
  fix q assume "q \<in> entries (v(p := Map.empty)) \<union> {q. Some q \<in> set ds}"
  then show "q \<in> entries v" using assms(2) by (auto simp: entries_def split: if_splits)
qed

lemma held_Un: "entries v = A \<union> B \<Longrightarrow> held v = pd_PciAddress ` {q \<in> A. rebound q} \<union> pd_PciAddress ` {q \<in> B. rebound q}"
  by (auto simp: held_def)

lemma lone_put: "lone v \<Longrightarrow> (\<And>c'. v p c' \<noteq> None \<Longrightarrow> c' = c) \<Longrightarrow> lone (v(p := (v p)(c \<mapsto> ds)))"
  by (auto simp: lone_def)

lemma lone_drop: "lone v \<Longrightarrow> lone (v(p := Map.empty))"
  by (simp add: lone_def)

lemma accounted_put:
  fixes v :: claims_view
  assumes "accounted base b v" "v p c = None" "\<forall>q \<in> set ds. recorded base q"
    and "\<And>a. (\<forall>q \<in> set ds. rebound q \<longrightarrow> pd_PciAddress q \<noteq> a) \<Longrightarrow> b' a = b a"
  shows "accounted base b' (v(p := (v p)(c \<mapsto> map Some ds)))"
proof -
  have e: "entries (v(p := (v p)(c \<mapsto> map Some ds))) = entries v \<union> set ds" using assms(2) by (rule entries_put)
  have "b' a = base a" if "a \<notin> held (v(p := (v p)(c \<mapsto> map Some ds)))" for a
  proof -
    have "held (v(p := (v p)(c \<mapsto> map Some ds))) = held v \<union> pd_PciAddress ` {q \<in> set ds. rebound q}"
      using held_Un[OF e] unfolding held_def .
    then have "a \<notin> held v" "\<forall>q \<in> set ds. rebound q \<longrightarrow> pd_PciAddress q \<noteq> a" using that by auto
    then show ?thesis using assms(1) assms(4)[of a] by (simp add: accounted_def)
  qed
  then show ?thesis using assms(1,3) by (auto simp: accounted_def e)
qed

lemma accounted_drop:
  fixes v :: claims_view
  assumes "accounted base b v" "lone v" "v p c = Some ds"
    and "\<And>a. a \<notin> held v \<Longrightarrow> b' a = b a" "\<And>q. Some q \<in> set ds \<Longrightarrow> rebound q \<Longrightarrow> b' (pd_PciAddress q) = base (pd_PciAddress q)"
  shows "accounted base b' (v(p := Map.empty))"
proof -
  have e: "entries v = entries (v(p := Map.empty)) \<union> {q. Some q \<in> set ds}" using assms(2,3) by (rule entries_drop)
  have h: "held v = held (v(p := Map.empty)) \<union> pd_PciAddress ` {q \<in> {q. Some q \<in> set ds}. rebound q}"
    using held_Un[OF e] unfolding held_def .
  have "b' a = base a" if "a \<notin> held (v(p := Map.empty))" for a
  proof (cases "a \<in> held v")
    case True
    then show ?thesis using that h assms(5) by auto
  qed (use assms(1,4) in \<open>simp add: accounted_def\<close>)
  then show ?thesis using assms(1) by (auto simp: accounted_def e)
qed

lemma accounted_keep:
  assumes "accounted base b v" "\<And>a. a \<notin> held v \<Longrightarrow> b' a = b a" shows "accounted base b' v"
  using assms by (simp add: accounted_def)

text \<open>The observation of the checkpoint file decides what a restart loads.\<close>

lemma saved_cong: "checkpoint_file cm w' = checkpoint_file cm w \<Longrightarrow> saved_claims cm w' = saved_claims cm w"
  by (auto simp: checkpoint_file_def saved_claims_def newPodManager_def fun_eq_iff Get_def Get_refs_def
      split: res.splits prod.splits option.splits)

section \<open>Lemmas: the environment\<close>

lemma node_setupD:
  assumes "node_setup d cm cb drv base"
  shows "d_store d = pod_store cm" "plugin_documented d drv" "checkpointing_documented cm" "env_documented (d_env d) drv"
    "sysfs_documented (env_os (d_env d)) drv" "env_keeps (d_env d) (checkpoint_file cm)"
proof -
  note doc = assms[unfolded node_setup_def node_documented_def]
  show "d_store d = pod_store cm" "checkpointing_documented cm" "env_keeps (d_env d) (checkpoint_file cm)" using doc by simp_all
  show p: "plugin_documented d drv" using doc by simp
  show e: "env_documented (d_env d) drv" using p unfolding plugin_documented_def by (elim conjE)
  show "sysfs_documented (env_os (d_env d)) drv" using e unfolding env_documented_def by (elim conjE)
qed

lemma sync_saved:
  assumes doc: "node_setup d cm cb drv base" and sync: "syncToCheckpoint cm s w = (r, w')"
  shows "drv w' = drv w" "saved_claims cm w' = (if r = Ok () then Get s else saved_claims cm w)"
proof -
  obtain x where c: "cm_CreateCheckpoint cm DriverPluginCheckpointFile (NewCheckpoint\<lparr>cp_V1 := Some (snapshot s)\<rparr>) w = (x, w')"
    "r = wrap_err ''unable to sync to checkpoint: %v'' x"
    using sync by (auto simp: syncToCheckpoint_def split: prod.splits)
  have law: "drv w' = drv w \<and> \<not> is_panic x \<and> (is_err x \<longrightarrow> checkpoint_file cm w' = checkpoint_file cm w)"
    using doc c(1) unfolding node_setup_def node_documented_def by (metis fst_conv snd_conv)
  show "drv w' = drv w" using law by simp
  show "saved_claims cm w' = (if r = Ok () then Get s else saved_claims cm w)"
  proof (cases x)
    case (Ok u)
    then have "syncToCheckpoint cm s w = (Ok (), w')" using sync c by (simp add: wrap_err_def)
    then obtain t where "newPodManager cm w' = (Ok t, w')" "Get t = Get s"
      using restart_after_sync[OF node_setupD(3)[OF doc]] by blast
    then show ?thesis using Ok c(2) by (simp add: saved_claims_def wrap_err_def)
  next
    case (Err e)
    then show ?thesis using law c(2) saved_cong[of cm w' w] by (simp add: wrap_err_def is_err_def)
  qed (use law in \<open>simp add: is_panic_def\<close>)
qed

section \<open>Lemmas: restoring drivers\<close>

definition rebound_addresses :: "PreparedDevices \<Rightarrow> string set" where
  "rebound_addresses ps = pd_PciAddress ` {q. Some q \<in> set ps \<and> rebound q}"

lemma rebound_addresses_Cons:
  "rebound_addresses (None # ps) = rebound_addresses ps"
  "rebound_addresses (Some q # ps) = (if rebound q then insert (pd_PciAddress q) (rebound_addresses ps) else rebound_addresses ps)"
  by (auto simp: rebound_addresses_def)

text \<open>A device that is on its original driver already is left there, whatever the outcome.\<close>

lemma bind_same_drv:
  assumes doc: "sysfs_documented os drv" and d: "is_name a" "is_name n" "drv w a = Some n"
    and run: "BindDriverByBusAndDevice os a n w = (r, w')"
  shows "drv w' = drv w"
proof -
  obtain e w1 where e: "EnsureDpdkModuleLoaded os n w = (e, w1)" by (metis prod.exhaust)
  have w1: "drv w1 = drv w" using ensure_dpdk_drv[OF doc, of n w] e by simp
  show ?thesis
  proof (cases "\<exists>u cur. e = Ok u \<and> GetDriverByBusAndDevice os a w1 = Ok cur")
    case True
    then obtain u cur where ok: "e = Ok u" "GetDriverByBusAndDevice os a w1 = Ok cur" by blast
    have "cur = n" using get_driver(1)[OF doc d(1) ok(2)] w1 d(2,3) by (auto simp: driver_name_def is_name_def split: if_splits)
    then show ?thesis using run e ok w1 d(2) by (simp add: BindDriverByBusAndDevice_def is_name_def)
  qed (use run e w1 in \<open>auto simp: BindDriverByBusAndDevice_def split: res.splits\<close>)
qed

lemma unprepare_devices_stays:
  assumes doc: "sysfs_documented os drv"
  shows "(\<And>q. Some q \<in> set ps \<Longrightarrow> recorded base q) \<Longrightarrow> drv w a = base a \<Longrightarrow> drv (snd (unprepareDevices os ps w)) a = base a"
proof (induction ps arbitrary: w)
  case (Cons p ps)
  show ?case
  proof (cases "\<exists>q. p = Some q \<and> rebound q")
    case False
    then have "unprepareDevices os (p # ps) w = unprepareDevices os ps w" by (cases p) (auto simp: rebound_def split: option.splits)
    then show ?thesis using Cons by simp
  next
    case True
    then obtain q where q: "p = Some q" "rebound q" by blast
    have rec: "is_name (pd_PciAddress q)" "base (pd_PciAddress q) = Some (pd_OriginalDriver q)" "is_name (pd_OriginalDriver q)"
      using Cons.prems(1)[of q] q by (auto simp: recorded_def known_vf_def)
    obtain x v where x: "RestoreDeviceDriver os (pd_PciAddress q) (pd_OriginalDriver q) w = (x, v)" by (metis prod.exhaust)
    then have b: "BindDriverByBusAndDevice os (pd_PciAddress q) (pd_OriginalDriver q) w = (x, v)"
      using rec(3) by (simp add: RestoreDeviceDriver_def is_name_def)
    have v: "drv v a = base a"
    proof (cases "a = pd_PciAddress q")
      case True
      then show ?thesis using bind_same_drv[OF doc rec(1,3) _ b] Cons.prems(2) rec(2) by simp
    qed (use bind_driver_drv[OF doc rec(1,3) b] Cons.prems(2) in simp)
    have "snd (unprepareDevices os (p # ps) w) = (case x of Ok _ \<Rightarrow> snd (unprepareDevices os ps v) | _ \<Rightarrow> v)"
      using q x by (auto simp: rebound_def split: option.splits res.split)
    then show ?thesis using v Cons.IH[OF _ v] Cons.prems(1) by (cases x) simp_all
  qed
qed simp

lemma unprepare_devices_drv:
  assumes doc: "sysfs_documented os drv"
  shows "(\<And>q. Some q \<in> set ps \<Longrightarrow> recorded base q) \<Longrightarrow> unprepareDevices os ps w = (r, w') \<Longrightarrow>
    drv w' |` (- rebound_addresses ps) = drv w |` (- rebound_addresses ps) \<and>
    (r = Ok () \<longrightarrow> (\<forall>a. drv w' a = (if a \<in> rebound_addresses ps then base a else drv w a)))"
proof (induction ps arbitrary: w)
  case Nil
  then show ?case by (simp add: rebound_addresses_def)
next
  case (Cons p ps)
  have ih: "drv w' |` (- rebound_addresses ps) = drv v |` (- rebound_addresses ps) \<and>
      (r = Ok () \<longrightarrow> (\<forall>a. drv w' a = (if a \<in> rebound_addresses ps then base a else drv v a)))"
    if "unprepareDevices os ps v = (r, w')" for v by (rule Cons.IH[OF _ that]) (simp add: Cons.prems(1))
  show ?case
  proof (cases "\<exists>q. p = Some q \<and> rebound q")
    case False
    then have "unprepareDevices os ps w = (r, w')" "rebound_addresses (p # ps) = rebound_addresses ps"
      using Cons.prems(2) by (cases p; auto simp: rebound_def rebound_addresses_Cons split: option.splits)+
    then show ?thesis using ih by simp
  next
    case True
    then obtain q where q: "p = Some q" "rebound q" by blast
    have rec: "is_name (pd_PciAddress q)" "base (pd_PciAddress q) = Some (pd_OriginalDriver q)" "is_name (pd_OriginalDriver q)"
      using Cons.prems(1)[of q] q by (auto simp: recorded_def known_vf_def)
    obtain x v where x: "RestoreDeviceDriver os (pd_PciAddress q) (pd_OriginalDriver q) w = (x, v)" by (metis prod.exhaust)
    have "BindDriverByBusAndDevice os (pd_PciAddress q) (pd_OriginalDriver q) w = (x, v)"
      using x rec(3) by (simp add: RestoreDeviceDriver_def is_name_def)
    note b = bind_driver_drv[OF doc rec(1,3) this]
    show ?thesis
    proof (cases x)
      case (Ok u)
      then have "unprepareDevices os ps v = (r, w')"
        using Cons.prems(2) q x by (auto simp: rebound_def split: option.splits)
      from ih[OF this] show ?thesis using b Ok q rec(2) by (auto simp: rebound_addresses_Cons restrict_map_def fun_eq_iff split: if_splits)
    qed (use Cons.prems(2) q x b in \<open>auto simp: rebound_def rebound_addresses_Cons restrict_map_def fun_eq_iff split: option.splits\<close>)
  qed
qed

lemma bind_io_inv: "P (snd rw) \<Longrightarrow> (\<And>x v. P v \<Longrightarrow> P (snd (k x v))) \<Longrightarrow> P (snd (bind_io rw k))"
  by (cases "fst rw") (simp_all add: bind_io_def case_prod_beta)

lemma collect_inv: "P (snd (step w)) \<Longrightarrow> P (snd (collect m step errs w))"
  by (simp add: collect_def case_prod_beta split: res.split)

lemma unprepare_drv:
  assumes doc: "env_documented env drv" and rec: "\<And>q. Some q \<in> set ps \<Longrightarrow> recorded base q"
    and run: "Unprepare env m u ps w = (r, w')"
  shows "drv w' |` (- rebound_addresses ps) = drv w |` (- rebound_addresses ps)"
    and "drv w a = base a \<Longrightarrow> drv w' a = base a"
    and "r = Ok () \<Longrightarrow> drv w' a = (if a \<in> rebound_addresses ps then base a else drv w a)"
proof -
  have sys: "sysfs_documented (env_os env) drv" using doc by (simp add: env_documented_def)
  define f where "f v = drv v |` (- rebound_addresses ps)" for v
  have clean: "f (snd (cleanDeviceInfoFilesForPreparedDevicesIfNeeded (env_dis env) m ps v)) = f v" for v
    using clean_files_drv[OF doc] unfolding f_def by (metis prod.exhaust_sel)
  have spec: "f (snd (DeleteSpecFile (env_cdi env) u v)) = f v" for u v
    using spec_delete_drv[OF doc] unfolding f_def by (metis prod.exhaust_sel)
  have dev: "f (snd (unprepareDevices (env_os env) ps v)) = f v" for v
    using unprepare_devices_drv[OF sys rec] unfolding f_def by (metis prod.exhaust_sel)
  have "f (snd (Unprepare env m u ps w)) = f w"
    unfolding Unprepare_def
    by (intro bind_io_frame collect_frame clean dev spec) (simp_all add: collect_frame spec split: list.split option.split)
  then show "drv w' |` (- rebound_addresses ps) = drv w |` (- rebound_addresses ps)" using run by (simp add: f_def)
  have clean': "drv (snd (cleanDeviceInfoFilesForPreparedDevicesIfNeeded (env_dis env) m ps v)) = drv v" for v
    using clean_files_drv[OF doc] by (metis prod.exhaust_sel)
  have spec': "drv (snd (DeleteSpecFile (env_cdi env) u v)) = drv v" for u v using spec_delete_drv[OF doc] by (metis prod.exhaust_sel)
  have "drv (snd (Unprepare env m u ps w)) a = base a" if start: "drv w a = base a"
  proof -
    define P where "P v \<longleftrightarrow> drv v a = base a" for v
    have c: "P (snd (collect msg (cleanDeviceInfoFilesForPreparedDevicesIfNeeded (env_dis env) m ps) errs v))"
      "P (snd (collect msg (unprepareDevices (env_os env) ps) errs v))"
      "P (snd (collect msg (DeleteSpecFile (env_cdi env) u) errs v))" if "P v" for msg errs v u
      by (rule collect_inv[where P = P], use that in \<open>simp add: P_def clean' spec' unprepare_devices_stays[OF sys rec]\<close>)+
    have l: "P (snd (case ps of Some p # _ \<Rightarrow> collect msg (DeleteSpecFile (env_cdi env) (pd_PodUID p)) errs v | _ \<Rightarrow> (Ok errs, v)))"
      if "P v" for msg errs v using that c(3)[OF that] by (auto split: list.split option.split)
    have "P (snd (Unprepare env m u ps w))"
      unfolding Unprepare_def
      by (rule bind_io_inv[where P = P], rule c, simp add: P_def start, rule bind_io_inv[where P = P], erule c,
          rule bind_io_inv[where P = P], erule c, rule bind_io_inv[where P = P], erule l, simp)
    then show ?thesis by (simp add: P_def)
  qed
  then show "drv w a = base a \<Longrightarrow> drv w' a = base a" using run by simp
  assume "r = Ok ()"
  then obtain w1 w2 where "drv w1 = drv w" "unprepareDevices (env_os env) ps w1 = (Ok (), w2)" "drv w' = drv w2"
    using Unprepare_Ok[OF doc] run by blast
  then show "drv w' a = (if a \<in> rebound_addresses ps then base a else drv w a)"
    using unprepare_devices_drv[OF sys rec] by metis
qed

section \<open>Lemmas: devices of a claim\<close>

lemma distinct_map_filter:
  "distinct (map g xs) \<Longrightarrow> (\<And>x a. x \<in> set xs \<Longrightarrow> f x = Some a \<Longrightarrow> g x = h a) \<Longrightarrow> distinct (List.map_filter f xs)"
proof (induction xs)
  case (Cons x xs)
  have "a \<notin> set (List.map_filter f xs)" if "f x = Some a" for a
  proof
    assume "a \<in> set (List.map_filter f xs)"
    then obtain y where "y \<in> set xs" "f y = Some a" by (auto simp: in_map_filter)
    then have "g y = g x" using Cons.prems(2)[of x a] Cons.prems(2)[of y a] that by simp
    then show False using Cons.prems(1) \<open>y \<in> set xs\<close> by (auto simp: image_iff)
  qed
  then show ?case using Cons by (auto split: option.split)
qed simp

lemma hardware_result:
  assumes "vf_hardware base m" "result_pci m r = Some a" shows "r_Device r = device_name a \<and> known_vf base a"
proof -
  obtain d where d: "map_of (allocatable m) (r_Device r) = Some d" "pci_address d = Ok a"
    using assms(2) by (auto simp: result_pci_def split: option.splits res.splits)
  then obtain a' where "pci_address d = Ok a'" "r_Device r = device_name a' \<and> known_vf base a'"
    using assms(1) unfolding vf_hardware_def by blast
  then show ?thesis using d(2) by simp
qed

text \<open>A device that is not in use is on its original driver.\<close>

lemma free_device:
  assumes "accounted base b v" "known_vf base a" "\<forall>q \<in> entries v. pd_DeviceName q \<noteq> device_name a"
  shows "b a = base a"
proof -
  have "a \<notin> held v" using assms by (auto simp: held_def accounted_def recorded_def)
  then show ?thesis using assms(1) by (simp add: accounted_def)
qed

lemma admitted_bound:
  assumes hw: "vf_hardware base m" and acc: "accounted base (drv w) v"
    and adm: "distinct (map r_Device (own_results rs))" "\<forall>q \<in> entries v. pd_DeviceName q \<notin> r_Device ` set (own_results rs)"
  shows "bound_results drv m rs w"
proof -
  have free: "drv w a = base a" if "r \<in> set (own_results rs)" "result_pci m r = Some a" for r a
    using hardware_result[OF hw that(2)] adm(2) that(1) by (intro free_device[OF acc]) (metis imageI)+
  have "distinct (List.map_filter (result_pci m) (own_results rs))"
    by (rule distinct_map_filter[OF adm(1), of _ device_name]) (use hardware_result[OF hw] in blast)
  moreover have "is_name a \<and> (\<exists>orig. drv w a = Some orig \<and> is_name orig)" if "r \<in> set (own_results rs)" "result_pci m r = Some a" for r a
    using hardware_result[OF hw that(2)] free[OF that] by (simp add: known_vf_def)
  ultimately show ?thesis unfolding bound_results_def by blast
qed

lemma admitted_recorded:
  assumes hw: "vf_hardware base m" and acc: "accounted base (drv w) v"
    and adm: "\<forall>q \<in> entries v. pd_DeviceName q \<notin> r_Device ` set (own_results rs)"
    and prep: "list_all2 (prepared_for env m rc claim) (own_results rs) ds" and tr: "tracked drv w ds w'" and q: "q \<in> set ds"
  shows "recorded base q"
proof -
  obtain i where i: "i < length ds" "q = ds ! i" using q by (metis in_set_conv_nth)
  then have r: "prepared_for env m rc claim (own_results rs ! i) q" "own_results rs ! i \<in> set (own_results rs)"
    using prep by (simp_all add: list_all2_conv_all_nth)
  then have name: "pd_DeviceName q = r_Device (own_results rs ! i)" and pci: "result_pci m (own_results rs ! i) = Some (pd_PciAddress q)"
    by (simp_all add: prepared_for_def)
  note h = hardware_result[OF hw pci]
  have "drv w (pd_PciAddress q) = base (pd_PciAddress q)"
    using h adm r(2) by (intro free_device[OF acc]) (metis imageI)+
  then show ?thesis using h name tr q by (auto simp: recorded_def tracked_def)
qed

section \<open>Lemmas: the kubelet's calls\<close>

text \<open>The ways a prepare call ends without a panic.\<close>

lemma prepare_cases:
  assumes "prepareResourceClaim d m idx claim s w = ((Ok r, idx', s'), w')"
  obtains (idle) "s' = s" "w' = w"
  | (failed) pod al e c where "claim_ReservedFor claim = [pod]" "claim_Allocation claim = Some al"
      "st_Get (d_store d) s pod (claim_UID claim) = None" "PrepareDevicesForClaim (d_env d) m idx claim w = ((Err e, idx', c), w')"
      "s' = s" "pr_Err r = Some (Errorf ''error preparing devices for claim %v: %w'' [e])"
  | (stored) pod al ds c w1 w2 where "claim_ReservedFor claim = [pod]" "claim_Allocation claim = Some al"
      "st_Get (d_store d) s pod (claim_UID claim) = None" "PrepareDevicesForClaim (d_env d) m idx claim w = ((Ok ds, idx', c), w1)"
      "st_Set (d_store d) s pod (claim_UID claim) (map Some ds) w1 = ((Ok (), s'), w2)"
      "w' = snd (UpdateClaimStatusWithRetry (d_errors d) (d_backoff d) (d_ctxErr d) (d_claims d (claim_Namespace claim)) c DriverName w2)"
  | (unstored) pod al ds c w1 e w2 u where "claim_ReservedFor claim = [pod]" "claim_Allocation claim = Some al"
      "st_Get (d_store d) s pod (claim_UID claim) = None" "PrepareDevicesForClaim (d_env d) m idx claim w = ((Ok ds, idx', c), w1)"
      "st_Set (d_store d) s pod (claim_UID claim) (map Some ds) w1 = ((Err e, s'), w2)"
      "Unprepare (d_env d) m (claim_UID claim) (map Some ds) w2 = (u, w')"
      "u = Ok () \<or> (\<exists>es. pr_Err r = Some (Errorf ''error setting prepared devices for pod %s into pod manager: %w; cleanup failed: %v'' es))"
proof -
  consider (no) "claim_ReservedFor claim = []" | (many) p q ps where "claim_ReservedFor claim = p # q # ps"
    | (one) pod where "claim_ReservedFor claim = [pod]" by (metis list.exhaust)
  then show ?thesis
  proof cases
    case no
    then show ?thesis using assms by (intro idle) (simp_all add: prepareResourceClaim_def)
  next
    case many
    then show ?thesis using assms by (intro idle) (simp_all add: prepareResourceClaim_def)
  next
    case (one pod)
    show ?thesis
    proof (cases "claim_Allocation claim = None \<or> st_Get (d_store d) s pod (claim_UID claim) \<noteq> None")
      case True
      then show ?thesis using assms one by (intro idle) (auto simp: prepareResourceClaim_def split: if_splits)
    next
      case False
      then obtain al where al: "claim_Allocation claim = Some al" and none: "st_Get (d_store d) s pod (claim_UID claim) = None" by auto
      obtain a i c w1 where p: "PrepareDevicesForClaim (d_env d) m idx claim w = ((a, i, c), w1)" by (metis prod.exhaust)
      note run = assms one al none p
      show ?thesis
      proof (cases a)
        case (Ok ds)
        obtain b s1 w2 where b: "st_Set (d_store d) s pod (claim_UID claim) (map Some ds) w1 = ((b, s1), w2)" by (metis prod.exhaust)
        show ?thesis
        proof (cases b)
          case (Err e)
          obtain u w3 where u: "Unprepare (d_env d) m (claim_UID claim) (map Some ds) w2 = (u, w3)" by (metis prod.exhaust)
          have "s1 = s' \<and> i = idx' \<and> w3 = w' \<and> (u = Ok () \<or>
              (\<exists>es. pr_Err r = Some (Errorf ''error setting prepared devices for pod %s into pod manager: %w; cleanup failed: %v'' es)))"
            using run Ok b Err u by (cases u) (auto simp: prepareResourceClaim_def prepare_error_def)
          then show ?thesis using unstored[OF one al none, of ds c w1 e w2 u] p Ok b Err u by simp
        qed (use run stored[OF one al none] p Ok b in \<open>auto simp: prepareResourceClaim_def case_prod_beta\<close>)
      qed (use run failed[OF one al none] p in \<open>auto simp: prepareResourceClaim_def prepare_error_def\<close>)
    qed
  qed
qed

lemma set_view:
  assumes "pm_inv s" "Set cm s p c ds w = ((r, s'), w')"
  shows "pm_inv s'" "Get s' = (Get s)(p := (Get s p)(c \<mapsto> ds))" "syncToCheckpoint cm s' w = (r, w')"
  using Set_state[OF assms(1), of cm p c ds w] assms(2) by (auto simp: Set_def case_prod_beta Let_def prod_eq_iff)

lemma node_invD:
  assumes "node_inv cm drv base nd"
  shows "pm_inv (nd_store nd)" "vf_hardware base (nd_manager nd)"
    "accounted base (drv (nd_world nd)) (Get (nd_store nd))" "lone (Get (nd_store nd))"
    "accounted base (drv (nd_world nd)) (saved_claims cm (nd_world nd))" "lone (saved_claims cm (nd_world nd))"
  using assms by (simp_all add: node_inv_def)

text \<open>What an admissible claim that is not prepared yet finds, and what its devices record.\<close>

lemma admissibleD:
  assumes "admissible dec s claim" "claim_ReservedFor claim = [pod]" "claim_Allocation claim = Some al" "Get s pod (claim_UID claim) = None"
  shows "getMapOfOpaqueDeviceConfigForDevice dec (al_Config al) = Ok rc \<Longrightarrow> valid_configs rc"
    "distinct (map r_Device (own_results (al_Results al)))"
    "\<forall>q \<in> entries (Get s). pd_DeviceName q \<notin> r_Device ` set (own_results (al_Results al))"
    "Get s pod c \<noteq> None \<Longrightarrow> c = claim_UID claim"
  using assms unfolding admissible_def by blast+

lemma prepared_claim:
  assumes env: "env_documented env drv" and hw: "vf_hardware base m" and acc: "accounted base (drv w) (Get s)"
    and adm: "admissible (env_decode env) s claim" "claim_ReservedFor claim = [pod]" "claim_Allocation claim = Some al" "Get s pod (claim_UID claim) = None"
    and run: "PrepareDevicesForClaim env m idx claim w = ((Ok ds, idx', c), w')"
  shows "\<forall>q \<in> set ds. recorded base q" "\<And>a. (\<forall>q \<in> set ds. rebound q \<longrightarrow> pd_PciAddress q \<noteq> a) \<Longrightarrow> drv w' a = drv w a"
    "drv v = drv w' \<Longrightarrow> Unprepare env m' u (map Some ds) v = (Ok (), v') \<Longrightarrow> drv v' = drv w"
proof -
  note A = admissibleD[OF adm]
  have bound: "bound_results drv m (al_Results al) w" by (rule admitted_bound[OF hw, where drv = drv and w = w, OF acc A(2,3)])
  obtain al' rc w1 w2 where "claim_Allocation claim = Some al'" and rc: "getMapOfOpaqueDeviceConfigForDevice (env_decode env) (al_Config al') = Ok rc"
    and p: "prepare_results env m rc idx claim [] (al_Results al') w = ((Ok ds, idx', c), w1)"
    using prepare_claim_Ok[OF run] by metis
  then have al: "al' = al" using adm(3) by simp
  have tr: "tracked drv w ds w'"
    using claim_prepared_drv[OF env A(1)[OF rc[unfolded al]] adm(3) rc[unfolded al] bound run] by (simp add: driver_inv_def)
  show "\<forall>q \<in> set ds. recorded base q"
    using admitted_recorded[OF hw acc A(3) results_prepared(1)[OF p[unfolded al]] tr] by blast
  show "drv w' a = drv w a" if "\<forall>q \<in> set ds. rebound q \<longrightarrow> pd_PciAddress q \<noteq> a" for a
    using tr that by (simp add: tracked_def)
  show "drv v' = drv w" if "drv v = drv w'" "Unprepare env m' u (map Some ds) v = (Ok (), v')"
    by (rule unprepare_after_prepare[OF env A(1)[OF rc[unfolded al]] adm(3) rc[unfolded al] bound run that])
qed

lemma prepare_inv:
  assumes doc: "node_setup d cm cb drv base" and inv: "node_inv cm drv base nd"
    and adm: "admissible (env_decode (d_env d)) (nd_store nd) claim"
    and run: "prepareResourceClaim d (nd_manager nd) idx claim (nd_store nd) (nd_world nd) = ((Ok r, idx', s'), w')" and ok: "undamaged_result r"
  shows "node_inv cm drv base (nd\<lparr>nd_store := s', nd_world := w'\<rparr>)"
proof -
  obtain s m w where nd: "nd = \<lparr>nd_store = s, nd_manager = m, nd_world = w\<rparr>" by (cases nd)
  note I = node_invD[OF inv, unfolded nd, simplified]
  note D = node_setupD[OF doc]
  have adm': "admissible (env_decode (d_env d)) s claim" using adm by (simp add: nd)
  have get: "st_Get (d_store d) = Get" and set: "st_Set (d_store d) = Set cm" by (simp_all add: D(1) pod_store_def)
  have saved_env: "saved_claims cm (snd (PrepareDevicesForClaim (d_env d) m idx claim w)) = saved_claims cm w"
    "saved_claims cm (snd (Unprepare (d_env d) m u ps v)) = saved_claims cm v" for u ps v
    using D(6) by (auto intro!: saved_cong simp: frame)
  have same: "node_inv cm drv base (nd\<lparr>nd_store := s, nd_world := v\<rparr>)" if "drv v = drv w" "saved_claims cm v = saved_claims cm w" for v
    using I that by (simp add: nd node_inv_def)
  from run[unfolded nd, simplified] show ?thesis
  proof (cases rule: prepare_cases)
    case idle
    then show ?thesis using same[of w] by simp
  next
    case (failed pod al e c)
    note A = admissibleD[OF adm' failed(1,2) failed(3)[unfolded get]]
    have bound: "bound_results drv m (al_Results al) w" by (rule admitted_bound[OF I(2), where drv = drv and w = w, OF I(3) A(2,3)])
    have e: "undamaged e" using ok failed(6) by (simp add: undamaged_result_def)
    have "drv w' = drv w" by (rule failed_prepare_drv[OF D(4) failed(2) A(1) bound failed(4) e])
    then show ?thesis using same[of w'] saved_env(1) failed(4,5) by simp
  next
    case (stored pod al ds c w1 w2)
    note P = prepared_claim[OF D(4) I(2,3) adm' stored(1,2) stored(3)[unfolded get] stored(4)]
    note S = set_view[OF I(1) stored(5)[unfolded set]]
    note sync = sync_saved[OF doc S(3)]
    have st: "drv w' = drv w2" "saved_claims cm w' = saved_claims cm w2"
      using doc unfolding stored(6) node_setup_def node_documented_def plugin_documented_def by (auto intro!: saved_cong)
    have acc: "accounted base (drv w') (Get s')"
      unfolding S(2) by (rule accounted_put[OF I(3) stored(3)[unfolded get] P(1)]) (use P(2) st sync in simp)
    have one: "lone (Get s')" unfolding S(2) by (rule lone_put[OF I(4) admissibleD(4)[OF adm' stored(1,2) stored(3)[unfolded get]]])
    show ?thesis using S(1) I(2) acc one st sync by (simp add: nd node_inv_def)
  next
    case (unstored pod al ds c w1 e w2 u)
    note P = prepared_claim[OF D(4) I(2,3) adm' unstored(1,2) unstored(3)[unfolded get] unstored(4)]
    note S = set_view[OF I(1) unstored(5)[unfolded set]]
    note sync = sync_saved[OF doc S(3)]
    have u: "u = Ok ()" using unstored(7) ok by (auto simp: undamaged_result_def)
    have drv: "drv w' = drv w" by (rule P(3)[OF _ unstored(6)[unfolded u]]) (simp add: sync)
    have sv: "saved_claims cm w' = saved_claims cm w" using saved_env unstored(4,6) sync by (metis res.distinct(1) snd_conv)
    have acc: "accounted base (drv w') (Get s')"
      unfolding S(2) by (rule accounted_put[OF I(3) unstored(3)[unfolded get] P(1)]) (simp add: drv)
    have one: "lone (Get s')" unfolding S(2) by (rule lone_put[OF I(4) admissibleD(4)[OF adm' unstored(1,2) unstored(3)[unfolded get]]])
    show ?thesis using S(1) I(2) acc one I(5,6) drv sv by (simp add: nd node_inv_def)
  qed
qed

lemma delete_view:
  assumes "pm_inv s" "pod_of_claim s (no_UID cl) = Some (p, rs)" "DeleteClaim cm s cl w = ((r, s'), w')"
  shows "pm_inv s'" "Get s' = (Get s)(p := Map.empty)" "syncToCheckpoint cm s' w = (r, w')"
  using DeleteClaim_state[OF assms(1), where cm = cm and cl = cl and w = w] assms(2,3)
  by (auto simp: DeleteClaim_def case_prod_beta Let_def prod_eq_iff)

lemma unprepare_inv:
  assumes doc: "node_setup d cm cb drv base" and inv: "node_inv cm drv base nd"
    and run: "unprepareResourceClaim d (nd_manager nd) claim (nd_store nd) (nd_world nd) = ((r, s'), w')" and ok: "\<not> is_panic r"
  shows "node_inv cm drv base (nd\<lparr>nd_store := s', nd_world := w'\<rparr>)"
proof -
  obtain s m w where nd: "nd = \<lparr>nd_store = s, nd_manager = m, nd_world = w\<rparr>" by (cases nd)
  note I = node_invD[OF inv, unfolded nd, simplified]
  note D = node_setupD[OF doc]
  note run' = run[unfolded nd unprepareResourceClaim_def D(1) pod_store_def, simplified]
  show ?thesis
  proof (cases "pod_of_claim s (no_UID claim)")
    case None
    then show ?thesis using run' inv by (simp add: nd GetByClaim_def)
  next
    case (Some pr)
    obtain p rs where p: "pod_of_claim s (no_UID claim) = Some (p, rs)" using Some by (metis prod.exhaust)
    define ds where "ds = deref_all (pm_heap s) rs"
    have g: "GetByClaim s claim = Some ds" "Get s p (no_UID claim) = Some ds"
      using p pod_of_claim_Some[OF I(1) p] by (simp_all add: GetByClaim_def ds_def)
    have rec: "recorded base q" "rebound q \<Longrightarrow> pd_PciAddress q \<in> held (Get s)" if "Some q \<in> set ds" for q
      using I(3) entriesI[where v = "Get s", OF g(2) that] by (auto simp: accounted_def held_def)
    obtain u w1 where u: "Unprepare (d_env d) m (no_UID claim) ds w = (u, w1)" by (metis prod.exhaust)
    note U = unprepare_drv[OF D(4) rec(1) u]
    have frame1: "drv w1 a = drv w a" if "a \<notin> held (Get s)" for a
      using that I(3) U(2)[of a] by (simp add: accounted_def)
    have "checkpoint_file cm w1 = checkpoint_file cm w" using unprepare_claim_frame[OF D(6), of m "no_UID claim" ds w] u by simp
    then have sv1: "saved_claims cm w1 = saved_claims cm w" by (rule saved_cong)
    have acc1: "accounted base (drv w1) (Get s)" "accounted base (drv w1) (saved_claims cm w)"
      using I(3,5) U(2) by (auto simp: accounted_def)
    show ?thesis
    proof (cases u)
      case (Ok x)
      obtain r2 where del: "DeleteClaim cm s claim w1 = ((r2, s'), w')"
        using run' g u Ok by (auto split: prod.splits)
      note V = delete_view[OF I(1) p del]
      note sync = sync_saved[OF doc V(3)]
      have acc: "accounted base (drv w') (Get s')"
        unfolding V(2) by (rule accounted_drop[OF I(3,4) g(2)]) (use frame1 U(3) sync Ok in \<open>auto simp: rebound_addresses_def\<close>)
      have one: "lone (Get s')" unfolding V(2) by (rule lone_drop[OF I(4)])
      show ?thesis using V(1) I(2,6) acc one acc1(2) sync sv1 by (simp add: nd node_inv_def)
    qed (use run' g u I acc1 sv1 ok in \<open>auto simp: nd node_inv_def is_panic_def\<close>)
  qed
qed

section \<open>Lemmas: network data, policies and restarts\<close>

text \<open>What the accounting looks at in a device; writes of network data keep it.\<close>

definition binding_of :: "PreparedDevice \<Rightarrow> string \<times> string \<times> VfConfig option \<times> string" where
  "binding_of q = (pd_PciAddress q, pd_DeviceName q, pd_Config q, pd_OriginalDriver q)"

lemma binding_of_eq:
  assumes "binding_of q = binding_of q'"
  shows "pd_PciAddress q = pd_PciAddress q'" "rebound q = rebound q'" "recorded base q = recorded base q'"
  using assms by (simp_all add: binding_of_def rebound_def recorded_def)

lemma held_bindings: "held v = (\<lambda>(a, n, c, d). a) ` {b \<in> binding_of ` entries v. case b of (a, n, Some c, d) \<Rightarrow> vf_Driver c \<noteq> [] | _ \<Rightarrow> False}"
proof -
  have "rebound q \<longleftrightarrow> (case binding_of q of (a, n, Some c, d) \<Rightarrow> vf_Driver c \<noteq> [] | _ \<Rightarrow> False)" for q
    by (simp add: rebound_def binding_of_def split: option.split)
  then show ?thesis by (force simp: held_def binding_of_def)
qed

lemma accounted_bindings:
  assumes "binding_of ` entries v' = binding_of ` entries v" shows "accounted base b v' = accounted base b v"
proof -
  have "(\<forall>q \<in> entries x. recorded base q) \<Longrightarrow> binding_of ` entries y = binding_of ` entries x \<Longrightarrow> q \<in> entries y \<Longrightarrow> recorded base q" for x y q
    using binding_of_eq(3) by (metis imageE imageI)
  then have "(\<forall>q \<in> entries v'. recorded base q) \<longleftrightarrow> (\<forall>q \<in> entries v. recorded base q)" using assms by metis
  then show ?thesis using assms by (simp add: accounted_def held_bindings)
qed

lemma network_view:
  assumes "i < length (pm_heap s)" "UpdatePreparedDeviceNetworkData cm s (Some i) data w = ((r, s'), w')"
  shows "binding_of ` entries (Get s') = binding_of ` entries (Get s)" "Get s' p c = None \<longleftrightarrow> Get s p c = None"
    "syncToCheckpoint cm s' w = (r, w')"
proof -
  define h where "h = (pm_heap s)[i := SetNetworkDeviceData (pm_heap s ! i) data]"
  have s': "s' = s\<lparr>pm_heap := h\<rparr>" "syncToCheckpoint cm s' w = (r, w')"
    using assms(2) by (auto simp: UpdatePreparedDeviceNetworkData_def h_def case_prod_beta Let_def prod_eq_iff)
  have refs: "Get_refs s' = Get_refs s" by (simp add: fun_eq_iff Get_refs_def s')
  have bind: "map_option binding_of (deref h x) = map_option binding_of (deref (pm_heap s) x)" for x
    using assms(1) by (auto simp: deref_def h_def nth_list_update SetNetworkDeviceData_def binding_of_def split: option.split)
  have ent: "binding_of ` entries (Get t) = {b. \<exists>p c rs x. Get_refs t p c = Some rs \<and> x \<in> set rs \<and> map_option binding_of (deref (pm_heap t) x) = Some b}" for t
    by (force simp: entries_def Get_def deref_all_def)
  show "binding_of ` entries (Get s') = binding_of ` entries (Get s)" unfolding ent refs by (simp add: s' bind)
  show "Get s' p c = None \<longleftrightarrow> Get s p c = None" by (simp add: Get_def refs)
  show "syncToCheckpoint cm s' w = (r, w')" by (rule s'(2))
qed

lemma network_inv:
  assumes doc: "node_setup d cm cb drv base" and inv: "node_inv cm drv base nd" and i: "i < length (pm_heap (nd_store nd))"
    and run: "UpdatePreparedDeviceNetworkData cm (nd_store nd) (Some i) data (nd_world nd) = ((r, s'), w')"
  shows "node_inv cm drv base (nd\<lparr>nd_store := s', nd_world := w'\<rparr>)"
proof -
  note I = node_invD[OF inv]
  note V = network_view[OF i run]
  note sync = sync_saved[OF doc V(3)]
  have "lone (Get s')" using I(4) V(2) by (simp add: lone_def)
  moreover have "pm_inv s'" using run update_inv[OF I(1), of i data] by (auto simp: UpdatePreparedDeviceNetworkData_def case_prod_beta Let_def)
  ultimately show ?thesis using I sync accounted_bindings[OF V(1)] by (simp add: node_inv_def)
qed

lemma hardware_update:
  assumes hw: "vf_hardware base m" and wf: "wf_policies P"
  shows "vf_hardware base (snd (update_policy_state m P))"
proof -
  have inv: "manager_inv m" using hw by (simp add: vf_hardware_def)
  have "\<exists>a. pci_address d = Ok a \<and> n = device_name a \<and> known_vf base a"
    if look: "map_of (allocatable (snd (update_policy_state m P))) n = Some d" for n d
  proof -
    obtain d0 where d0: "map_of (allocatable m) n = Some d0"
      "\<forall>k. is_reserved k \<longrightarrow> map_of (dev_Attributes d0) k = map_of (dev_Attributes d) k"
      using update_keeps_reserved[OF inv wf, of n] look by (cases "map_of (allocatable m) n") auto
    have "is_reserved AttributePciAddress" by (simp add: is_reserved_def ReservedAttributes_def)
    then have "pci_address d = pci_address d0" using d0(2) by (simp add: pci_address_def)
    then show ?thesis using hw d0(1) by (auto simp: vf_hardware_def)
  qed
  then show ?thesis using update_policy_state_inv(1)[OF wf inv] by (simp add: vf_hardware_def)
qed

lemma reconcile_state:
  assumes "manager_inv m" "Reconcile asSel rd (manager_ds cb) rec m w = ((r, m'), w')"
  obtains "m' = m" "w' = w"
  | P where "wf_policies P" "m' = snd (update_policy_state m P)" "w' = w \<or> (\<exists>f. cb = Some f \<and> w' = snd (f m' w))"
proof -
  have wf: "wf_map (allocatable m)" using assms(1) by (simp add: manager_inv_def)
  have "(m' = m \<and> w' = w) \<or> (\<exists>P x. wf_policies P \<and> UpdatePolicyDevices cb m P w = ((x, m'), w'))"
    using assms(2) wf_getPolicyDeviceMap[OF wf]
    by (auto simp: Reconcile_def manager_ds_def GetAllocatableDevices_def Let_def split: res.splits if_splits prod.splits)
  then consider "m' = m" "w' = w" | (update) P x where "wf_policies P" "UpdatePolicyDevices cb m P w = ((x, m'), w')" by blast
  then show ?thesis
  proof cases
    case (update P x)
    have m': "m' = snd (update_policy_state m P)" using update(2) UpdatePolicyDevices_state[of cb m P w] by simp
    have "w' = w \<or> (\<exists>f. cb = Some f \<and> w' = snd (f m' w))"
      using update(2) by (auto simp: UpdatePolicyDevices_def m' case_prod_beta Let_def split: if_splits option.splits prod.splits res.splits)
    then show ?thesis by (rule that(2)[OF update(1) m'])
  qed (rule that(1))
qed

lemma reconcile_world:
  assumes doc: "node_setup d cm cb drv base" and inv: "manager_inv m" and run: "Reconcile asSel rd (manager_ds cb) rec m w = ((r, m'), w')"
  shows "drv w' = drv w" "saved_claims cm w' = saved_claims cm w"
  using reconcile_state[OF inv run] doc unfolding node_setup_def node_documented_def by (metis saved_cong)+

lemma reconcile_inv:
  assumes doc: "node_setup d cm cb drv base" and inv: "node_inv cm drv base nd"
    and run: "Reconcile asSel rd (manager_ds cb) rec (nd_manager nd) (nd_world nd) = ((r, m'), w')"
  shows "node_inv cm drv base (nd\<lparr>nd_manager := m', nd_world := w'\<rparr>)"
proof -
  note I = node_invD[OF inv]
  have m: "manager_inv (nd_manager nd)" using I(2) by (simp add: vf_hardware_def)
  have "vf_hardware base m'" using reconcile_state[OF m run] I(2) hardware_update[OF I(2)] by metis
  then show ?thesis using I reconcile_world[OF doc m run] by (simp add: node_inv_def)
qed

lemma pf_path:
  assumes "sysfs_documented os drv" "is_name pf" "is_name e"
  shows "filepath_Join [buildSysBusPciPath os pf [], e] = dev_file pf e"
proof -
  have eq: "SysBusPci = abs_path [''sys'', ''bus'', ''pci'', ''devices'']" by (simp add: SysBusPci_def abs_path_def)
  have nm: "is_name ''sys''" "is_name ''bus''" "is_name ''pci''" "is_name ''devices''" by (simp_all add: is_name_def)
  have root: "os_RootDir os = []" using assms(1) by (simp add: sysfs_documented_def)
  show ?thesis
    unfolding buildSysBusPciPath_def buildSysPath_def eq dev_file_def using root nm assms(2,3) by (simp add: Join_abs_path Let_def)
qed

definition hardware_devices :: "(string \<rightharpoonup> string) \<Rightarrow> AllocatableDevices \<Rightarrow> bool" where
  "hardware_devices base devs \<longleftrightarrow> (\<forall>n d. map_of devs n = Some d \<longrightarrow> (\<exists>a. pci_address d = Ok a \<and> n = device_name a \<and> known_vf base a))"

lemma discovered_hardware:
  assumes sys: "sysfs_documented os drv" and link: "pci_listing os w" and bound: "bound_at_setup os base"
  shows "\<forall>pf \<in> set pfs. is_name (pf_Address pf) \<Longrightarrow> hardware_devices base acc \<Longrightarrow> discover_vfs os w acc pfs = Ok devs \<Longrightarrow> hardware_devices base devs"
proof (induction pfs arbitrary: acc)
  case (Cons pf pfs)
  define f where "f = vf_device os w pf (case ParseInt 10 (pf_NumaNode pf) of Some n \<Rightarrow> n | None \<Rightarrow> -1)"
  obtain vfs where vfs: "GetVFList os (pf_Address pf) w = Ok vfs"
    and rest: "discover_vfs os w (foldl (\<lambda>acc x. let d = f x in mput acc (dev_Name d) d) acc vfs) pfs = Ok devs"
    using Cons.prems(3) by (auto simp: f_def Let_def)
  have known: "known_vf base (vfi_PciAddress x)" if x: "x \<in> set vfs" for x
  proof -
    obtain es entry where e: "os_ReadDir os (buildSysBusPciPath os (pf_Address pf) []) w = Ok es" "entry \<in> set es"
      "vf_entry os (buildSysBusPciPath os (pf_Address pf) []) w entry = Some x"
      using vfs x by (auto simp: GetVFList_def in_map_filter Let_def)
    then obtain t where t: "HasPrefix entry ''virtfn''" "os_Readlink os (filepath_Join [buildSysBusPciPath os (pf_Address pf) [], entry]) w = Ok t"
      "vfi_PciAddress x = filepath_Base t" by (auto simp: vf_entry_def Let_def split: if_splits res.splits option.splits)
    have nm: "is_name (pf_Address pf)" "is_name entry" using Cons.prems(1) link e(1,2) by (auto simp: pci_listing_def)
    have "is_bdf (filepath_Base t) \<and> is_name (filepath_Base t)" using link t nm unfolding pci_listing_def pf_path[OF sys nm] by metis
    moreover have "\<exists>orig. base (filepath_Base t) = Some orig \<and> is_name orig" using bound t nm unfolding bound_at_setup_def pf_path[OF sys nm] by metis
    ultimately show ?thesis using t(3) by (simp add: known_vf_def)
  qed
  have dev: "pci_address (f x) = Ok (vfi_PciAddress x) \<and> dev_Name (f x) = device_name (vfi_PciAddress x)" for x
    by (simp add: f_def vf_device_def vf_attributes_def pci_address_def attribute_defs str_attr_def)
  have "hardware_devices base m \<Longrightarrow> set xs \<subseteq> set vfs \<Longrightarrow> hardware_devices base (foldl (\<lambda>acc x. let d = f x in mput acc (dev_Name d) d) m xs)" for m xs
  proof (induction xs arbitrary: m)
    case (Cons x xs)
    have "hardware_devices base (mput m (dev_Name (f x)) (f x))" using Cons.prems dev[of x] known[of x] by (auto simp: hardware_devices_def)
    then show ?case using Cons.IH Cons.prems(2) by (simp add: Let_def)
  qed simp
  then show ?case using Cons.IH[OF _ _ rest] Cons.prems(1,2) by simp
qed simp

lemma restart_inv:
  assumes doc: "node_setup d cm cb drv base" and inv: "node_inv cm drv base nd"
    and new: "NewManager (env_os (d_env d)) (Some (Some flags)) True (nd_world nd) = Ok m'"
    and pods: "newPodManager cm (nd_world nd) = (Ok s', w')"
  shows "node_inv cm drv base \<lparr>nd_store = s', nd_manager = m', nd_world = w'\<rparr>"
proof -
  note I = node_invD[OF inv]
  have link: "pci_listing (env_os (d_env d)) (nd_world nd)" and bound: "bound_at_setup (env_os (d_env d)) base"
    using doc unfolding node_setup_def node_documented_def by blast+
  obtain devs where devs: "DiscoverSriovDevices (env_os (d_env d)) (nd_world nd) = Ok devs" "allocatable m' = devs"
    using new by (auto simp: NewManager_def)
  obtain ds where ds: "ghw_PCI (env_os (d_env d)) (nd_world nd) = Ok ds"
    "discover_vfs (env_os (d_env d)) (nd_world nd) [] (List.map_filter (discover_pf (env_os (d_env d)) (nd_world nd)) ds) = Ok devs"
    using devs(1) by (auto simp: DiscoverSriovDevices_def PCI_def split: if_splits)
  have "is_name (pf_Address pf)" if pf: "pf \<in> set (List.map_filter (discover_pf (env_os (d_env d)) (nd_world nd)) ds)" for pf
  proof -
    obtain x where "x \<in> set ds" "discover_pf (env_os (d_env d)) (nd_world nd) x = Some pf" using pf by (auto simp: in_map_filter)
    then show ?thesis using link ds(1) by (auto simp: pci_listing_def discover_pf_def Let_def split: option.splits if_splits)
  qed
  then have "hardware_devices base devs"
    using discovered_hardware[OF node_setupD(5)[OF doc] link bound _ _ ds(2)] by (simp add: hardware_devices_def)
  then have hw: "vf_hardware base m'" using NewManager_ready[OF new] by (simp add: vf_hardware_def hardware_devices_def devs(2))
  have get: "Get s' = saved_claims cm (nd_world nd)" using pods by (simp add: saved_claims_def)
  obtain t where t: "newPodManager cm w' = (Ok t, w')" "Get t = Get s'" using newPodManager_restart[OF node_setupD(3)[OF doc] pods] by blast
  have "w' = nd_world nd \<or> (\<exists>n cp. w' = snd (cm_CreateCheckpoint cm n cp (nd_world nd)))"
    using pods by (auto simp: newPodManager_def split: res.splits if_splits option.splits prod.splits) (metis snd_conv)+
  then have "drv w' = drv (nd_world nd)" using doc unfolding node_setup_def node_documented_def by metis
  then show ?thesis
    using I(5,6) hw get t newPodManager_inv[OF node_setupD(3)[OF doc] pods] by (simp add: node_inv_def saved_claims_def)
qed

lemma node_inv_step:
  assumes "node_setup d cm cb drv base" "node_step d cm flags cb drv nd nd'" "node_inv cm drv base nd"
  shows "node_inv cm drv base nd'"
  using assms(2)
proof cases
  case (other w')
  then show ?thesis using node_invD[OF assms(3)] saved_cong[OF other(3)] by (simp add: node_inv_def)
qed (use assms(1,3) in \<open>blast intro: prepare_inv unprepare_inv network_inv reconcile_inv restart_inv\<close>)+

interpretation nodes: machine "node_step d cm flags cb drv" "\<lambda>nd. node_setup d cm cb drv base \<longrightarrow> node_inv cm drv base nd"
  for d :: "(PodManager, 'w) Driver" and cm flags cb drv base
  by unfold_locales (blast intro: node_inv_step)

end
