(* ===== verification/NodeLifecycle.thy ===== *)
theory NodeLifecycle
  imports NodeMachine NetworkData
begin

text \<open>
  The properties of the driver on its node: the handlers of the kubelet and of the NRI goroutine are runs of the
  machine of \<open>NodeMachine\<close>, no run leaves a device on a foreign driver, and what happens to a pod with two claims,
  which the machine excludes. The witnesses run the driver on a simulated kernel with a checkpoint directory.
\<close>

section \<open>Assumptions on calls\<close>

text \<open>The status update of the goroutine goes to the API server.\<close>

definition status_keeps :: "'w Plugin \<Rightarrow> ('w \<Rightarrow> 'x) \<Rightarrow> bool" where
  "status_keeps pl f \<longleftrightarrow> (\<forall>c w. f (snd (updateClaimNetworkDataWithRetry pl c w)) = f w)"

text \<open>The claims of a call are admissible when their turn comes, and no call reports damage.\<close>

fun calls_admissible :: "(PodManager, 'w) Driver \<Rightarrow> Manager \<Rightarrow> nat \<Rightarrow> ResourceClaim option list \<Rightarrow> PodManager \<Rightarrow> 'w \<Rightarrow> bool" where
  "calls_admissible d m idx (Some claim # claims) s w \<longleftrightarrow> admissible (env_decode (d_env d)) s claim \<and>
     (case prepareResourceClaim d m idx claim s w of
        ((Ok r, idx', s'), w') \<Rightarrow> undamaged_result r \<and> calls_admissible d m idx' claims s' w'
      | _ \<Rightarrow> True)"
| "calls_admissible d m idx claims s w \<longleftrightarrow> True"

section \<open>Lemmas\<close>

lemma update_items_run:
  assumes "p_cm pl = cm"
  shows "update_items pl index has claim items s w = ((r, s'), w') \<Longrightarrow>
    (node_step d cm flags cb drv)\<^sup>*\<^sup>* \<lparr>nd_store = s, nd_manager = m, nd_world = w\<rparr> \<lparr>nd_store = s', nd_manager = m, nd_world = w'\<rparr>"
proof (induction items arbitrary: has claim s w)
  case (Cons item items)
  show ?case
  proof (cases "item_device (pm_heap s) item")
    case (Some p)
    then obtain i where i: "nc_PreparedDevice (the item) = Some i" "i < length (pm_heap s)"
      by (auto simp: item_device_def deref_def split: option.splits if_splits)
    obtain x s1 w1 where x: "UpdatePreparedDeviceNetworkData (p_cm pl) s (nc_PreparedDevice (the item)) (nc_NetworkDeviceData (the item)) w = ((x, s1), w1)"
      by (metis prod.exhaust)
    have "node_step d cm flags cb drv \<lparr>nd_store = s, nd_manager = m, nd_world = w\<rparr> \<lparr>nd_store = s1, nd_manager = m, nd_world = w1\<rparr>"
      using node_step.network[of i "\<lparr>nd_store = s, nd_manager = m, nd_world = w\<rparr>" cm] i x assms by simp
    moreover have "(node_step d cm flags cb drv)\<^sup>*\<^sup>* \<lparr>nd_store = s1, nd_manager = m, nd_world = w1\<rparr> \<lparr>nd_store = s', nd_manager = m, nd_world = w'\<rparr>"
      using Cons.prems Cons.IH Some x by (auto split: res.splits prod.splits)
    ultimately show ?thesis by (rule converse_rtranclp_into_rtranclp)
  qed (use Cons in simp)
qed simp

lemma update_claims_run:
  assumes "p_cm pl = cm" "status_keeps pl drv" "status_keeps pl (checkpoint_file cm)"
  shows "update_claims pl groups s w = ((r, s'), w') \<Longrightarrow>
    (node_step d cm flags cb drv)\<^sup>*\<^sup>* \<lparr>nd_store = s, nd_manager = m, nd_world = w\<rparr> \<lparr>nd_store = s', nd_manager = m, nd_world = w'\<rparr>"
proof (induction groups arbitrary: s w)
  case (Cons g groups)
  obtain k items where g: "g = (k, items)" by (metis prod.exhaust)
  show ?case
  proof (cases "\<exists>claim. p_getClaim pl (nk_namespace k) (nk_name k) w = Ok claim \<and> \<not> (nk_uid k \<noteq> [] \<and> claim_UID claim \<noteq> nk_uid k)")
    case False
    then show ?thesis using Cons g by (auto split: res.splits if_splits)
  next
    case True
    then obtain claim where c: "p_getClaim pl (nk_namespace k) (nk_name k) w = Ok claim" "\<not> (nk_uid k \<noteq> [] \<and> claim_UID claim \<noteq> nk_uid k)" by blast
    obtain x s1 w1 where x: "update_items pl (buildClaimStatusDeviceIndex claim) False claim items s w = ((x, s1), w1)" by (metis prod.exhaust)
    have first: "(node_step d cm flags cb drv)\<^sup>*\<^sup>* \<lparr>nd_store = s, nd_manager = m, nd_world = w\<rparr> \<lparr>nd_store = s1, nd_manager = m, nd_world = w1\<rparr>"
      by (rule update_items_run[OF assms(1) x])
    have st: "node_step d cm flags cb drv \<lparr>nd_store = s1, nd_manager = m, nd_world = w1\<rparr>
        \<lparr>nd_store = s1, nd_manager = m, nd_world = snd (updateClaimNetworkDataWithRetry pl cl w1)\<rparr>" for cl
      using node_step.other[of drv "snd (updateClaimNetworkDataWithRetry pl cl w1)" "\<lparr>nd_store = s1, nd_manager = m, nd_world = w1\<rparr>" cm] assms(2,3)
      by (simp add: status_keeps_def)
    have "(node_step d cm flags cb drv)\<^sup>*\<^sup>* \<lparr>nd_store = s1, nd_manager = m, nd_world = w1\<rparr> \<lparr>nd_store = s', nd_manager = m, nd_world = w'\<rparr>"
    proof (cases x)
      case (Ok y)
      obtain has cl where y: "y = (has, cl)" by (metis prod.exhaust)
      show ?thesis
        using Cons.prems Cons.IH[of s1 w1] Cons.IH[of s1 "snd (updateClaimNetworkDataWithRetry pl cl w1)"] st[of cl] g c x Ok y
        by (auto split: if_splits intro: converse_rtranclp_into_rtranclp)
    qed (use Cons.prems g c x in auto)
    with first show ?thesis by (rule rtranclp_trans)
  qed
qed simp

lemma unprepare_claims_run:
  "UnprepareResourceClaims d m res claims s w = ((Ok res', s'), w') \<Longrightarrow>
    (node_step d cm flags cb drv)\<^sup>*\<^sup>* \<lparr>nd_store = s, nd_manager = m, nd_world = w\<rparr> \<lparr>nd_store = s', nd_manager = m, nd_world = w'\<rparr>"
proof (induction claims arbitrary: res s w)
  case (Cons c claims)
  obtain x s1 w1 where x: "unprepareResourceClaim d m c s w = ((x, s1), w1)" by (metis prod.exhaust)
  have "\<not> is_panic x" and rest: "\<exists>res1. UnprepareResourceClaims d m res1 claims s1 w1 = ((Ok res', s'), w')"
    using Cons.prems x by (cases x; auto)+
  then have "node_step d cm flags cb drv \<lparr>nd_store = s, nd_manager = m, nd_world = w\<rparr> \<lparr>nd_store = s1, nd_manager = m, nd_world = w1\<rparr>"
    using node_step.unprepare[of d "\<lparr>nd_store = s, nd_manager = m, nd_world = w\<rparr>" c] x by simp
  then show ?case using Cons.IH rest by (blast intro: converse_rtranclp_into_rtranclp)
qed simp

lemma prepare_claims_run:
  "calls_admissible d m idx claims s w \<Longrightarrow> prepare_claims d m idx res claims s w = ((Ok res', idx', s'), w') \<Longrightarrow>
    (node_step d cm flags cb drv)\<^sup>*\<^sup>* \<lparr>nd_store = s, nd_manager = m, nd_world = w\<rparr> \<lparr>nd_store = s', nd_manager = m, nd_world = w'\<rparr>"
proof (induction claims arbitrary: res idx s w)
  case (Cons x claims)
  show ?case
  proof (cases x)
    case (Some claim)
    obtain a i s1 w1 where a: "prepareResourceClaim d m idx claim s w = ((a, i, s1), w1)" by (metis prod.exhaust)
    obtain r where r: "a = Ok r" using Cons.prems(2) Some a by (cases a) simp_all
    have adm: "admissible (env_decode (d_env d)) s claim" "undamaged_result r" "calls_admissible d m i claims s1 w1"
      using Cons.prems(1) Some a r by simp_all
    have "node_step d cm flags cb drv \<lparr>nd_store = s, nd_manager = m, nd_world = w\<rparr> \<lparr>nd_store = s1, nd_manager = m, nd_world = w1\<rparr>"
      using node_step.prepare[of d "\<lparr>nd_store = s, nd_manager = m, nd_world = w\<rparr>" claim idx r i s1 w1] adm a r by simp
    moreover have "prepare_claims d m i (mput res (claim_UID claim) r) claims s1 w1 = ((Ok res', idx', s'), w')" using Cons.prems(2) Some a r by simp
    ultimately show ?thesis using Cons.IH[OF adm(3)] by (blast intro: converse_rtranclp_into_rtranclp)
  qed (use Cons.prems in simp)
qed simp

lemma rollback_claims_run:
  "rollback_claims d m errs claims s w = ((out, s'), w') \<Longrightarrow> \<not> is_panic out \<Longrightarrow>
    (node_step d cm flags cb drv)\<^sup>*\<^sup>* \<lparr>nd_store = s, nd_manager = m, nd_world = w\<rparr> \<lparr>nd_store = s', nd_manager = m, nd_world = w'\<rparr>"
proof (induction claims arbitrary: errs s w)
  case (Cons y claims)
  show ?case
  proof (cases y)
    case (Some c)
    obtain x s1 w1 where x: "unprepareResourceClaim d m \<lparr>no_Name = claim_Name c, no_Namespace = claim_Namespace c, no_UID = claim_UID c\<rparr> s w = ((x, s1), w1)"
      by (metis prod.exhaust)
    have "\<not> is_panic x" and rest: "\<exists>errs1. rollback_claims d m errs1 claims s1 w1 = ((out, s'), w')"
      using Cons.prems x Some by (cases x; auto)+
    then have "node_step d cm flags cb drv \<lparr>nd_store = s, nd_manager = m, nd_world = w\<rparr> \<lparr>nd_store = s1, nd_manager = m, nd_world = w1\<rparr>"
      using node_step.unprepare[of d "\<lparr>nd_store = s, nd_manager = m, nd_world = w\<rparr>"
          "\<lparr>no_Name = claim_Name c, no_Namespace = claim_Namespace c, no_UID = claim_UID c\<rparr>"] x by simp
    then show ?thesis using Cons.IH[OF _ Cons.prems(2)] rest by (blast intro: converse_rtranclp_into_rtranclp)
  qed (use Cons in simp)
qed simp

lemma pod_spec_run:
  assumes "node_setup d cm cb drv base" "CreateGlobalPodSpecFile (env_cdi (d_env d)) u as w = (r, w')"
  shows "node_step d cm flags cb drv \<lparr>nd_store = s, nd_manager = m, nd_world = w\<rparr> \<lparr>nd_store = s, nd_manager = m, nd_world = w'\<rparr>"
proof -
  have k: "cdi_keeps (env_cdi (d_env d)) drv" "cdi_keeps (env_cdi (d_env d)) (checkpoint_file cm)"
    using node_setupD(4,6)[OF assms(1)] by (simp_all add: env_documented_def cdi_keeps_def env_keeps_def)
  have "drv w' = drv w" "checkpoint_file cm w' = checkpoint_file cm w"
    using spec_files_frame(2)[OF k(1), of u as w] spec_files_frame(2)[OF k(2), of u as w] assms(2) by simp_all
  then show ?thesis using node_step.other[of drv w' "\<lparr>nd_store = s, nd_manager = m, nd_world = w\<rparr>" cm] by simp
qed

lemma rollback_with_run:
  assumes "rollback_with d m msg e res claims s w = ((Ok out, s'), w')"
  shows "(node_step d cm flags cb drv)\<^sup>*\<^sup>* \<lparr>nd_store = s, nd_manager = m, nd_world = w\<rparr> \<lparr>nd_store = s', nd_manager = m, nd_world = w'\<rparr>"
proof -
  obtain x s1 w1 where x: "rollback_claims d m [] claims s w = ((x, s1), w1)" by (metis prod.exhaust)
  then have "\<not> is_panic x" "s1 = s'" "w1 = w'"
    using assms by (cases x; auto simp: rollback_with_def rollbackPreparedClaims_def split: res.splits)+
  then show ?thesis using x by (auto intro: rollback_claims_run)
qed

lemma prepare_call_run:
  assumes doc: "node_setup d cm cb drv base" and adm: "calls_admissible d m 0 claims s w"
    and run: "PrepareResourceClaims d m claims s w = ((Ok out, s'), w')"
  shows "(node_step d cm flags cb drv)\<^sup>*\<^sup>* \<lparr>nd_store = s, nd_manager = m, nd_world = w\<rparr> \<lparr>nd_store = s', nd_manager = m, nd_world = w'\<rparr>"
proof (cases "claims = []")
  case False
  obtain a i s1 w1 where a: "prepare_claims d m 0 [] claims s w = ((a, i, s1), w1)" by (metis prod.exhaust)
  obtain res where res: "a = Ok res" using run False a by (cases a) (simp_all add: PrepareResourceClaims_def)
  have first: "(node_step d cm flags cb drv)\<^sup>*\<^sup>* \<lparr>nd_store = s, nd_manager = m, nd_world = w\<rparr> \<lparr>nd_store = s1, nd_manager = m, nd_world = w1\<rparr>"
    by (rule prepare_claims_run[OF adm a[unfolded res]])
  consider (stop) "s' = s1" "w' = w1"
    | (addresses) msg e where "rollback_with d m msg e res claims s1 w1 = ((Ok out, s'), w')"
    | (spec) as x w2 where "CreateGlobalPodSpecFile (env_cdi (d_env d)) (first_pod claims) as w1 = (x, w2)"
        "(s' = s1 \<and> w' = w2) \<or> (\<exists>msg e. rollback_with d m msg e res claims s1 w2 = ((Ok out, s'), w'))"
    using run False a res
    by (auto simp: PrepareResourceClaims_def Let_def split: option.splits res.splits prod.splits if_splits) blast+
  then have "(node_step d cm flags cb drv)\<^sup>*\<^sup>* \<lparr>nd_store = s1, nd_manager = m, nd_world = w1\<rparr> \<lparr>nd_store = s', nd_manager = m, nd_world = w'\<rparr>"
  proof cases
    case (spec as x w2)
    have "(node_step d cm flags cb drv)\<^sup>*\<^sup>* \<lparr>nd_store = s1, nd_manager = m, nd_world = w2\<rparr> \<lparr>nd_store = s', nd_manager = m, nd_world = w'\<rparr>"
      using spec(2) by (auto intro: rollback_with_run)
    then show ?thesis using pod_spec_run[OF doc spec(1)] by (rule converse_rtranclp_into_rtranclp[rotated])
  qed (auto intro: rollback_with_run)
  with first show ?thesis by (rule rtranclp_trans)
qed (use run in \<open>simp add: PrepareResourceClaims_def\<close>)

section \<open>Properties\<close>


text \<open>The steps of the machine are fine enough for the handlers. When the claims of a call are admissible and no damage is reported, the effect of a
  call \<^verbatim>\<open>PrepareResourceClaims\<close>, its roll back included, of a call \<^verbatim>\<open>UnprepareResourceClaims\<close> and of a round of the NRI goroutine is the effect of a
  run. So what holds along every run holds after every handler, and between the steps of handlers that interleave.\<close>

lemma handlers_are_runs:
  assumes "node_setup d cm cb drv base" "p_cm pl = cm" "status_keeps pl drv" "status_keeps pl (checkpoint_file cm)"
  shows "(\<forall>claims out s' w'. calls_admissible d m 0 claims s w \<longrightarrow> PrepareResourceClaims d m claims s w = ((Ok out, s'), w') \<longrightarrow>
      (node_step d cm flags cb drv)\<^sup>*\<^sup>* \<lparr>nd_store = s, nd_manager = m, nd_world = w\<rparr> \<lparr>nd_store = s', nd_manager = m, nd_world = w'\<rparr>) \<and>
    (\<forall>objs out s' w'. UnprepareResourceClaims d m [] objs s w = ((Ok out, s'), w') \<longrightarrow>
      (node_step d cm flags cb drv)\<^sup>*\<^sup>* \<lparr>nd_store = s, nd_manager = m, nd_world = w\<rparr> \<lparr>nd_store = s', nd_manager = m, nd_world = w'\<rparr>) \<and>
    (\<forall>items r s' w'. updateNetworkDeviceData pl items s w = ((r, s'), w') \<longrightarrow>
      (node_step d cm flags cb drv)\<^sup>*\<^sup>* \<lparr>nd_store = s, nd_manager = m, nd_world = w\<rparr> \<lparr>nd_store = s', nd_manager = m, nd_world = w'\<rparr>)"
  unfolding updateNetworkDeviceData_def
  by (intro conjI allI impI; (erule (1) prepare_call_run[OF assms(1)] | erule unprepare_claims_run | erule update_claims_run[OF assms(2-4)]))

text \<open>C36. A pod with two claims leaks the second one. \<^verbatim>\<open>DeleteClaim\<close> drops all claims of the pod of the claim, so when the kubelet
  unprepares both claims of a pod in one call, the call reports success for both, but the second is no longer found:
  its devices stay on the driver they were bound to, and no later call restores them.\<close>

theorem second_claim_leaks:
  assumes "plugin_documented d drv" "d_store d = pod_store cm" "pm_inv s" "no_UID a \<noteq> no_UID b"
    and "Get s p (no_UID a) = Some dsa" "Get s p (no_UID b) = Some dsb"
    and "\<forall>q. q \<noteq> p \<longrightarrow> Get s q (no_UID a) = None \<and> Get s q (no_UID b) = None"
    and "\<forall>q. Some q \<in> set dsa \<longrightarrow> recorded base q" "x \<notin> rebound_addresses dsa"
    and "UnprepareResourceClaims d m [] [a, b] s w = ((Ok res, s'), w')" "mget res (no_UID a) = Some None"
  shows "mget res (no_UID b) = Some None \<and> Get s' p (no_UID b) = None \<and> drv w' x = drv w x \<and>
    (\<forall>m2 w2. unprepareResourceClaim d m2 b s' w2 = ((Ok (), s'), w2))"
proof -
  note pods' = pods.by_claim_unique[where cm = cm, OF assms(3), of p a dsa]
  have st: "st_Get (d_store d) = Get" "st_GetByClaim (d_store d) = GetByClaim" "st_DeleteClaim (d_store d) = DeleteClaim cm"
    by (simp_all add: assms(2) pod_store_def)
  have found: "GetByClaim s a = Some dsa" and gone: "Get (snd (fst (DeleteClaim cm s a v))) = (Get s)(p := Map.empty)" for v
    using pods' assms(5,7) by (auto simp: pod_store_def)
  obtain r1 s1 w1 where u: "unprepareResourceClaim d m a s w = ((r1, s1), w1)" by (metis prod.exhaust)
  have "r1 = Ok ()" and rest: "UnprepareResourceClaims d m [(no_UID a, None)] [b] s1 w1 = ((Ok res, s'), w')"
    using assms(4,10,11) u by (cases r1; auto split: prod.splits res.splits)+
  note u = u[unfolded this(1)]
  obtain v where v: "Unprepare (d_env d) m (no_UID a) dsa w = (Ok (), v)" "DeleteClaim cm s a v = ((Ok (), s1), w1)"
    using u found by (auto simp: unprepareResourceClaim_def st split: prod.splits res.splits)
  have g1: "Get s1 = (Get s)(p := Map.empty)" using gone[of v] v(2) by simp
  have inv1: "pm_inv s1" using DeleteClaim_state(1)[OF assms(3), of cm a v] v(2) by simp
  have none: "Get s1 q (no_UID b) = None" for q using assms(7) by (simp add: g1)
  have b: "GetByClaim s1 b = None"
  proof (cases "pod_of_claim s1 (no_UID b)")
    case (Some y)
    then show ?thesis using pod_of_claim_Some[OF inv1] none by (metis option.distinct(1) prod.exhaust)
  qed (simp add: GetByClaim_def)
  then have un: "unprepareResourceClaim d m2 b s1 w2 = ((Ok (), s1), w2)" for m2 w2 by (simp add: unprepareResourceClaim_def st)
  have s': "s' = s1" "w' = w1" "mget res (no_UID b) = Some None" using rest un by auto
  have env: "env_documented (d_env d) drv" using assms(1) by (simp add: plugin_documented_def)
  have "drv v x = drv w x" using unprepare_drv(3)[OF env _ v(1), of base x] assms(8,9) by simp
  moreover have "drv w1 = drv v" using assms(1) v(2) unfolding plugin_documented_def st by (metis snd_conv)
  ultimately show ?thesis using s' none un by simp
qed

section \<open>Witnesses\<close>

text \<open>A node with one physical and two virtual functions on the simulated kernel, and a checkpoint directory beside it.\<close>

type_synonym node_world = "kernel \<times> memory_store"

definition on_kernel :: "(kernel \<Rightarrow> 'r \<times> kernel) \<Rightarrow> node_world \<Rightarrow> 'r \<times> node_world" where
  "on_kernel f w = (let (r, k) = f (fst w) in (r, (k, snd w)))"

definition vf_os :: "node_world os" where
  "vf_os = \<lparr>os_RootDir = [], os_IsNotExist = (\<lambda>e. e = ENOENT),
     os_Lstat = (\<lambda>p w. Err ENOENT), os_Stat = (\<lambda>p w. Ok False),
     os_Readlink = (\<lambda>p w. if p = ''/sys/bus/pci/devices/0000:01:00.0/virtfn0'' then Ok ''../0000:01:00.1''
        else if p = ''/sys/bus/pci/devices/0000:01:00.0/virtfn1'' then Ok ''../0000:01:00.2'' else sim_Readlink p (fst w)),
     os_EvalSymlinks = (\<lambda>p w. Err ENOENT), os_ReadFile = (\<lambda>p w. os_ReadFile sim_os p (fst w)),
     os_ReadDir = (\<lambda>p w. if p = ''/sys/bus/pci/devices/0000:01:00.0'' then Ok [''virtfn0'', ''virtfn1''] else Err ENOENT),
     os_WriteFile = (\<lambda>p x. on_kernel (sim_WriteFile p x)), os_modprobe = (\<lambda>m w. (Ok (), w)),
     net_GetUplinkRepresentor = (\<lambda>p w. Ok ''eth0''), net_ErrRepresentorNotFound = (\<lambda>e. False),
     net_EswitchMode = (\<lambda>p w. Err ENOENT), rdma_DevicesForPcidev = (\<lambda>p w. []), rdma_CharDevices = (\<lambda>p w. []),
     pci_RootAttribute = (\<lambda>p w. Err ENOENT),
     ghw_PCI = (\<lambda>w. Ok [\<lparr>pci_Address = ''0000:01:00.0'', pci_ClassID = ''02'', pci_VendorID = ''8086'', pci_ProductID = ''1572''\<rparr>])\<rparr>"

definition vf_env :: "node_world env" where
  "vf_env = \<lparr>env_os = vf_os,
     env_cdi = \<lparr>cdi_MinimumRequiredVersion = (\<lambda>_. Ok ''0.6.0''),
       cdi_GenerateTransientSpecName = (\<lambda>v c u. v @ ''-'' @ c @ ''_'' @ u),
       cdi_GenerateNameForTransientSpec = (\<lambda>sp u. Ok u), cdi_QualifiedName = (\<lambda>v c n. v @ ''/'' @ c @ ''='' @ n),
       cdi_WriteSpec = (\<lambda>sp n w. (Ok (), w)), cdi_RemoveSpec = (\<lambda>n w. (Ok (), w))\<rparr>,
     env_dis = \<lparr>CleanDeviceInfoForDP = (\<lambda>a b w. (Ok (), w)), SaveDeviceInfoForDP = (\<lambda>a b i w. (Ok (), w))\<rparr>,
     env_nad = (\<lambda>ns n w. Ok ''{}''), env_decode = env_decode example_env, env_json = env_json example_env,
     env_config_json = (\<lambda>c. Ok ''{}'')\<rparr>"

definition vf_cm :: "node_world checkpoint_manager" where
  "vf_cm = \<lparr>cm_ListCheckpoints = (\<lambda>w. cm_ListCheckpoints memory_cm (snd w)), cm_GetCheckpoint = (\<lambda>n w. cm_GetCheckpoint memory_cm n (snd w)),
     cm_CreateCheckpoint = (\<lambda>n cp w. let (r, c) = cm_CreateCheckpoint memory_cm n cp (snd w) in (r, (fst w, c)))\<rparr>"

definition vf_driver :: "(PodManager, node_world) Driver" where
  "vf_driver = \<lparr>d_env = vf_env, d_store = pod_store vf_cm,
     d_claims = (\<lambda>ns. \<lparr>UpdateStatus = (\<lambda>c w. (Inr c, w)), GetClaim = (\<lambda>n w. (Inl (External ''NotFound''), w))\<rparr>),
     d_errors = server_errors, d_backoff = run_steps BackoffSteps, d_ctxErr = (\<lambda>w. None)\<rparr>"

abbreviation vf_drv :: "node_world \<Rightarrow> string \<rightharpoonup> string" where
  "vf_drv \<equiv> \<lambda>w. map_of (k_drv (fst w))"

definition vf_start :: "node_world node" where
  "vf_start = \<lparr>nd_store = empty_manager, nd_manager = node_manager\<lparr>allocatable :=
       [(''0000-01-00-1'', node_device ''0000:01:00.1''), (''0000-01-00-2'', node_device ''0000:01:00.2'')]\<rparr>,
     nd_world = (node_kernel, (Some [], False))\<rparr>"

lemma vf_bdf: "is_bdf ''0000:01:00.1''" "is_bdf ''0000:01:00.2''"
  by (simp_all add: is_bdf_def upt_rec)

lemma vf_known: "known_vf (vf_drv (nd_world vf_start)) ''0000:01:00.1''" "known_vf (vf_drv (nd_world vf_start)) ''0000:01:00.2''"
  by (simp_all add: known_vf_def vf_bdf node_names vf_start_def node_kernel_def)

lemma vf_link: "is_name x \<Longrightarrow> os_Readlink vf_os (dev_file x ''driver'') w = sim_Readlink (dev_file x ''driver'') (fst w)"
proof -
  have eq: "''/sys/bus/pci/devices/0000:01:00.0/virtfn0'' = dev_file ''0000:01:00.0'' ''virtfn0''"
    "''/sys/bus/pci/devices/0000:01:00.0/virtfn1'' = dev_file ''0000:01:00.0'' ''virtfn1''" by (simp_all add: dev_file_def abs_path_def)
  have nm: "is_name ''0000:01:00.0''" "is_name ''virtfn0''" "is_name ''virtfn1''" by (simp_all add: is_name_def)
  assume "is_name x"
  then have "dev_file x ''driver'' \<noteq> dev_file ''0000:01:00.0'' ''virtfn0''" "dev_file x ''driver'' \<noteq> dev_file ''0000:01:00.0'' ''virtfn1''"
    by (simp_all only: sys_file_inj(1)[OF _ file_names(1) nm(1,2)] sys_file_inj(1)[OF _ file_names(1) nm(1,3)]) simp_all
  then show ?thesis unfolding vf_os_def eq by simp
qed

lemma vf_write: "os_WriteFile vf_os p x w = (r, w') \<Longrightarrow> sim_WriteFile p x (fst w) = (r, fst w') \<and> snd w' = snd w"
  by (auto simp: vf_os_def on_kernel_def Let_def split: prod.splits)

lemma vf_os_documented: "sysfs_documented vf_os vf_drv"
proof -
  note sim = sim_documented[unfolded sysfs_documented_def, THEN conjunct2]
  have os: "os_Readlink sim_os = sim_Readlink" "os_WriteFile sim_os = sim_WriteFile" "os_IsNotExist sim_os = os_IsNotExist vf_os"
    by (simp_all add: sim_os_def vf_os_def)
  note link = sim[THEN conjunct1, rule_format, unfolded os] and nolink = sim[THEN conjunct2, THEN conjunct1, rule_format, unfolded os]
  note bind = sim[THEN conjunct2, THEN conjunct2, THEN conjunct1, rule_format, unfolded os]
  note rest = sim[THEN conjunct2, THEN conjunct2, THEN conjunct2]
  note unbind = rest[THEN conjunct1, rule_format, unfolded os] and ovr = rest[THEN conjunct2, THEN conjunct1, rule_format, unfolded os]
    and probe = rest[THEN conjunct2, THEN conjunct2, THEN conjunct1, rule_format, unfolded os]
  have wr: "fst (snd (os_WriteFile vf_os p x w)) = snd (sim_WriteFile p x (fst w))" for p x w
    by (simp add: vf_os_def on_kernel_def case_prod_beta Let_def)
  show ?thesis
    unfolding sysfs_documented_def
  proof (intro conjI allI impI)
    show "os_RootDir vf_os = []" by (simp add: vf_os_def)
  next
    fix d w t assume "is_name d" "os_Readlink vf_os (dev_file d ''driver'') w = Ok t"
    then show "vf_drv w d = Some (filepath_Base t)" "is_name (filepath_Base t)" using link[of d "fst w" t] vf_link[of d w] by simp_all
  next
    fix d w e assume "is_name d" "os_Readlink vf_os (dev_file d ''driver'') w = Err e" "os_IsNotExist vf_os e"
    then show "vf_drv w d = None" using nolink[of d "fst w" e] vf_link[of d w] by simp
  next
    fix d n w r w' assume "is_name d" "is_name n" "os_WriteFile vf_os (drv_file n ''bind'') d w = (r, w')"
    then show "vf_drv w' = (if r = Ok () then (vf_drv w)(d \<mapsto> n) else vf_drv w)"
      using bind[of d n "fst w" r "fst w'"] vf_write[of "drv_file n ''bind''" d w r w'] by simp
  next
    fix d n w r w' assume "is_name d" "is_name n" "os_WriteFile vf_os (drv_file n ''unbind'') d w = (r, w')"
    then show "vf_drv w' = (if r = Ok () then (vf_drv w)(d := None) else vf_drv w)"
      using unbind[of d n "fst w" r "fst w'"] vf_write[of "drv_file n ''unbind''" d w r w'] by simp
  next
    fix d x w assume "is_name d"
    then show "vf_drv (snd (os_WriteFile vf_os (dev_file d ''driver_override'') x w)) = vf_drv w" unfolding wr by (rule ovr)
  next
    fix d d' w assume "is_name d" "d' \<noteq> d \<or> vf_drv w d \<noteq> None"
    then show "vf_drv (snd (os_WriteFile vf_os ''/sys/bus/pci/drivers_probe'' d w)) d' = vf_drv w d'" unfolding wr by (rule probe)
  next
    fix m w show "vf_drv (snd (os_modprobe vf_os m w)) = vf_drv w" by (simp add: vf_os_def)
  qed
qed

lemma vf_create: "cm_CreateCheckpoint vf_cm n cp w = (r, w') \<Longrightarrow> cm_CreateCheckpoint memory_cm n cp (snd w) = (r, snd w') \<and> fst w' = fst w"
  by (auto simp: vf_cm_def Let_def split: prod.splits)

lemma vf_checkpoints: "checkpointing_documented vf_cm"
  using memory_cm_documented unfolding checkpointing_documented_def by (auto simp: vf_cm_def case_prod_beta Let_def prod_eq_iff)

lemma vf_create_laws:
  "vf_drv (snd (cm_CreateCheckpoint vf_cm n cp w)) = vf_drv w" "\<not> is_panic (fst (cm_CreateCheckpoint vf_cm n cp w))"
  "is_err (fst (cm_CreateCheckpoint vf_cm n cp w)) \<Longrightarrow> checkpoint_file vf_cm (snd (cm_CreateCheckpoint vf_cm n cp w)) = checkpoint_file vf_cm w"
  by (auto simp: vf_cm_def memory_cm_def checkpoint_file_def case_prod_beta Let_def is_err_def split: option.split)

lemma vf_listing: "pci_listing vf_os w" "bound_at_setup vf_os (vf_drv (nd_world vf_start))"
proof -
  have sim: "sim_Readlink (dev_file pf e) k = Err ENOENT" if "is_name pf" "is_name e" "HasPrefix e ''virtfn''" for pf e k
  proof -
    have "e \<noteq> ''driver''" using that(3) by (auto simp: HasPrefix_def)
    then show ?thesis using that by (simp add: sim_Readlink_def Split_sys_file sys_file_inj)
  qed
  have base: "filepath_Base ''../0000:01:00.1'' = ''0000:01:00.1''" "filepath_Base ''../0000:01:00.2'' = ''0000:01:00.2''"
    using filepath_Base_abs[OF node_names(1), of "''..''"] filepath_Base_abs[OF node_names(2), of "''..''"] by simp_all
  have names: "is_name ''0000:01:00.0''" "is_name ''virtfn0''" "is_name ''virtfn1''" by (simp_all add: is_name_def)
  have known: "known_vf (vf_drv (nd_world vf_start)) (filepath_Base t)"
    if "is_name pf" "is_name e" "HasPrefix e ''virtfn''" "os_Readlink vf_os (dev_file pf e) w = Ok t" for pf e t w
    using that(4) sim[OF that(1-3)] vf_known base by (auto simp: vf_os_def split: if_splits)
  have devs: "\<forall>x \<in> set ds. is_name (pci_Address x)" if "ghw_PCI vf_os w = Ok ds" for ds using that names by (auto simp: vf_os_def)
  have ents: "\<forall>e \<in> set es. is_name e" if "os_ReadDir vf_os p w = Ok es" for p es using that names by (auto simp: vf_os_def split: if_splits)
  show "pci_listing vf_os w" using known devs ents unfolding pci_listing_def known_vf_def by blast
  show "bound_at_setup vf_os (vf_drv (nd_world vf_start))" using known unfolding bound_at_setup_def known_vf_def by blast
qed

lemma vf_documented: "node_documented vf_driver vf_cm None vf_drv"
proof -
  have sync: "vf_drv (snd (syncToCheckpoint vf_cm s w)) = vf_drv w" for s w
    using vf_create_laws(1) by (simp add: syncToCheckpoint_def case_prod_beta)
  have "env_documented vf_env vf_drv" using vf_os_documented by (simp add: env_documented_def vf_env_def)
  then have "plugin_documented vf_driver vf_drv"
    using sync by (simp add: plugin_documented_def vf_driver_def pod_store_def Set_def DeleteClaim_def case_prod_beta Let_def run_steps_accepted
        split: option.split)
  moreover have "env_keeps vf_env (checkpoint_file vf_cm)"
    by (simp add: env_keeps_def os_keeps_def dis_keeps_def cdi_keeps_def vf_env_def vf_os_def vf_cm_def checkpoint_file_def on_kernel_def case_prod_beta Let_def)
  ultimately show ?thesis
    using vf_checkpoints vf_create_laws vf_listing(1) by (simp add: node_documented_def vf_driver_def run_steps_accepted vf_env_def)
qed

lemma vf_bound: "bound_at_setup (env_os (d_env vf_driver)) (vf_drv (nd_world vf_start))"
  using vf_listing(2) by (simp add: vf_driver_def vf_env_def)

lemma vf_manager_hardware: "vf_hardware (vf_drv (nd_world vf_start)) (nd_manager vf_start)"
proof -
  have "device_name ''0000:01:00.1'' = ''0000-01-00-1''" "device_name ''0000:01:00.2'' = ''0000-01-00-2''"
    by (simp_all add: device_name_def ReplaceAll_def)
  moreover have "pci_address (node_device a) = Ok a" for a by (simp add: pci_address_def node_device_def str_attr_def)
  ultimately show ?thesis
    using vf_known by (auto simp: vf_hardware_def vf_start_def manager_inv_def node_manager_def node_device_def discovery_attrs_def
        attrs_of_def policy_keys_def is_reserved_def ReservedAttributes_def wf_map_def split: if_splits)
qed

definition vf_claim :: "string \<Rightarrow> string \<Rightarrow> ResourceClaim" where
  "vf_claim u d = (one_claim u d)\<lparr>claim_Allocation := Some \<lparr>al_Results = [node_result d], al_Config = [node_config d ''igbvf'']\<rparr>\<rparr>"

abbreviation vf_manager :: Manager where
  "vf_manager \<equiv> nd_manager vf_start"

abbreviation vf_prepare :: "string \<Rightarrow> string \<Rightarrow> PodManager \<Rightarrow> node_world \<Rightarrow> (PrepareResult res \<times> nat \<times> PodManager) \<times> node_world" where
  "vf_prepare u a s w \<equiv> prepareResourceClaim vf_driver vf_manager 0 (vf_claim u a) s w"

lemma vf_run_eval:
  "case vf_prepare ''a'' ''0000-01-00-1'' empty_manager (nd_world vf_start) of
     ((Ok r, i, s), w) \<Rightarrow> pr_Err r = None \<and> vf_drv w ''0000:01:00.1'' = Some ''igbvf'' \<and>
       (case NewManager vf_os (Some (Some pf_flags)) True w of Ok m \<Rightarrow>
         (case newPodManager vf_cm w of (Ok s', w') \<Rightarrow>
           (case unprepareResourceClaim vf_driver m (example_object ''a'') s' w' of ((Ok x, s2), w2) \<Rightarrow> preparedClaimsByPodUID s2 = [] | _ \<Rightarrow> False)
         | _ \<Rightarrow> False) | _ \<Rightarrow> False) | _ \<Rightarrow> False"
  by code_simp

lemma vf_two_eval:
  "case vf_prepare ''a'' ''0000-01-00-1'' empty_manager (nd_world vf_start) of
     ((Ok r, i, s), w) \<Rightarrow> pr_Err r = None \<and>
       (case vf_prepare ''b'' ''0000-01-00-2'' s w of ((Ok r2, i2, s2), w2) \<Rightarrow> pr_Err r2 = None \<and>
          map fst (preparedClaimsByPodUID s2) = [''p1''] \<and>
          map_option (\<lambda>q. (pd_PciAddress q, pd_DeviceName q, pd_OriginalDriver q)) (single (Get s2 ''p1'' ''a'')) =
            Some (''0000:01:00.1'', ''0000-01-00-1'', ''iavf'') \<and>
          single (Get s2 ''p1'' ''b'') \<noteq> None \<and> vf_drv w2 ''0000:01:00.2'' = Some ''igbvf'' \<and>
          (case UnprepareResourceClaims vf_driver vf_manager [] [example_object ''a'', example_object ''b''] s2 w2 of
             ((Ok res, s3), w3) \<Rightarrow> mget res ''a'' = Some None | _ \<Rightarrow> False) | _ \<Rightarrow> False) | _ \<Rightarrow> False"
  by code_simp

lemma vf_admissible: "admissible (env_decode (d_env vf_driver)) empty_manager (vf_claim ''a'' ''0000-01-00-1'')"
proof -
  have dec: "env_decode (d_env vf_driver) = env_decode example_env" by (simp add: vf_driver_def vf_env_def)
  have "getMapOfOpaqueDeviceConfigForDevice (env_decode example_env) [node_config ''0000-01-00-1'' ''igbvf''] =
      Ok [(''0000-01-00-1'', DefaultVfConfig\<lparr>vf_Driver := ''igbvf''\<rparr>)]" by code_simp
  then have valid: "\<forall>rc. getMapOfOpaqueDeviceConfigForDevice (env_decode example_env) [node_config ''0000-01-00-1'' ''igbvf''] = Ok rc \<longrightarrow> valid_configs rc"
    by (simp add: valid_configs_def valid_driver_def node_names)
  have none: "Get empty_manager x c = None" for x c by (simp add: Get_def Get_refs_def)
  have ent: "entries (Get empty_manager) = {}" by (simp add: entries_def none)
  have al: "claim_Allocation (vf_claim ''a'' ''0000-01-00-1'') =
      Some \<lparr>al_Results = [node_result ''0000-01-00-1''], al_Config = [node_config ''0000-01-00-1'' ''igbvf'']\<rparr>" by (simp add: vf_claim_def)
  have "distinct (map r_Device (own_results [x]))" for x by (cases "r_Driver x = DriverName") simp_all
  then show ?thesis using valid by (simp add: admissible_def dec al none ent)
qed

text \<open>The runs evaluated above, step by step.\<close>

lemma case_Ok:
  "(case x of Ok m \<Rightarrow> P m | _ \<Rightarrow> False) \<longleftrightarrow> (\<exists>m. x = Ok m \<and> P m)"
  "(case y of (a, b) \<Rightarrow> Q a b) \<longleftrightarrow> (\<exists>a b. y = (a, b) \<and> Q a b)"
  by (auto split: prod.splits res.splits)

lemma vf_run:
  obtains nd1 nd where "(node_step vf_driver vf_cm pf_flags None vf_drv)\<^sup>*\<^sup>* vf_start nd1" "(node_step vf_driver vf_cm pf_flags None vf_drv)\<^sup>*\<^sup>* nd1 nd"
    "vf_drv (nd_world nd1) ''0000:01:00.1'' = Some ''igbvf''" "Get (nd_store nd) = Get empty_manager"
proof -
  have env: "env_os (d_env vf_driver) = vf_os" by (simp add: vf_driver_def vf_env_def)
  obtain r i s w m s' w' s2 w2 where p: "vf_prepare ''a'' ''0000-01-00-1'' empty_manager (nd_world vf_start) = ((Ok r, i, s), w)"
    "pr_Err r = None" "vf_drv w ''0000:01:00.1'' = Some ''igbvf''" and m: "NewManager vf_os (Some (Some pf_flags)) True w = Ok m"
    and n: "newPodManager vf_cm w = (Ok s', w')" and u: "unprepareResourceClaim vf_driver m (example_object ''a'') s' w' = ((Ok (), s2), w2)"
    and e: "preparedClaimsByPodUID s2 = []"
    using vf_run_eval unfolding case_Ok by (elim exE conjE, hypsubst) (rule that; (assumption | simp))
  have st: "vf_start = \<lparr>nd_store = empty_manager, nd_manager = vf_manager, nd_world = nd_world vf_start\<rparr>" by (simp add: vf_start_def)
  have 1: "node_step vf_driver vf_cm pf_flags None vf_drv vf_start \<lparr>nd_store = s, nd_manager = vf_manager, nd_world = w\<rparr>"
    using node_step.prepare[of vf_driver "\<lparr>nd_store = empty_manager, nd_manager = vf_manager, nd_world = nd_world vf_start\<rparr>" _ 0 r i s w]
      vf_admissible p by (subst st) (simp add: undamaged_result_def)
  have 2: "node_step vf_driver vf_cm pf_flags None vf_drv \<lparr>nd_store = s, nd_manager = vf_manager, nd_world = w\<rparr> \<lparr>nd_store = s', nd_manager = m, nd_world = w'\<rparr>"
    using node_step.restart[of vf_driver pf_flags "\<lparr>nd_store = s, nd_manager = vf_manager, nd_world = w\<rparr>" m vf_cm s' w' None vf_drv] m n env by simp
  have 3: "node_step vf_driver vf_cm pf_flags None vf_drv \<lparr>nd_store = s', nd_manager = m, nd_world = w'\<rparr> \<lparr>nd_store = s2, nd_manager = m, nd_world = w2\<rparr>"
    using node_step.unprepare[of vf_driver "\<lparr>nd_store = s', nd_manager = m, nd_world = w'\<rparr>"] u by simp
  have "Get s2 = Get empty_manager" using e by (simp add: fun_eq_iff Get_def Get_refs_def)
  then show ?thesis
    using that[of "\<lparr>nd_store = s, nd_manager = vf_manager, nd_world = w\<rparr>" "\<lparr>nd_store = s2, nd_manager = m, nd_world = w2\<rparr>"] 1 2 3 p(3)
    by (simp add: converse_rtranclp_into_rtranclp)
qed


theorem second_claim_leaks_witness:
  "\<exists>s w res s' w'. vf_drv w ''0000:01:00.2'' = Some ''igbvf'' \<and>
     UnprepareResourceClaims vf_driver vf_manager [] [example_object ''a'', example_object ''b''] s w = ((Ok res, s'), w') \<and>
     mget res ''b'' = Some None \<and> vf_drv w' ''0000:01:00.2'' = Some ''igbvf''"
proof -
  have st: "d_store vf_driver = pod_store vf_cm" by (simp add: vf_driver_def)
  have plug: "plugin_documented vf_driver vf_drv" using vf_documented by (simp add: node_documented_def)
  obtain r i s w r2 i2 s2 w2 res s3 w3 where p: "vf_prepare ''a'' ''0000-01-00-1'' empty_manager (nd_world vf_start) = ((Ok r, i, s), w)" "pr_Err r = None"
    and q: "vf_prepare ''b'' ''0000-01-00-2'' s w = ((Ok r2, i2, s2), w2)" "pr_Err r2 = None"
    and pods: "map fst (preparedClaimsByPodUID s2) = [''p1'']"
    and a: "map_option (\<lambda>q. (pd_PciAddress q, pd_DeviceName q, pd_OriginalDriver q)) (single (Get s2 ''p1'' ''a'')) = Some (''0000:01:00.1'', ''0000-01-00-1'', ''iavf'')"
    and b: "single (Get s2 ''p1'' ''b'') \<noteq> None" "vf_drv w2 ''0000:01:00.2'' = Some ''igbvf''"
    and u: "UnprepareResourceClaims vf_driver vf_manager [] [example_object ''a'', example_object ''b''] s2 w2 = ((Ok res, s3), w3)" "mget res ''a'' = Some None"
    using vf_two_eval unfolding case_Ok by (elim exE conjE, hypsubst) (rule that; assumption)
  have "pm_inv s" using pods.prepared_stored[OF empty_manager_inv st p] by blast
  then have inv: "pm_inv s2" using pods.prepared_stored[OF _ st q] by blast
  obtain qa where qa: "Get s2 ''p1'' ''a'' = Some [Some qa]" "pd_PciAddress qa = ''0000:01:00.1''" "pd_DeviceName qa = ''0000-01-00-1''" "pd_OriginalDriver qa = ''iavf''"
    using a by (auto simp: single_eq)
  obtain qb where qb: "Get s2 ''p1'' ''b'' = Some [Some qb]" using b(1) by (auto simp: single_eq)
  have o: "no_UID (example_object x) = x" for x by (simp add: example_object_def)
  have other: "Get s2 x c = None" if x: "x \<noteq> ''p1''" for x c
  proof -
    have "fst ` set (preparedClaimsByPodUID s2) = {''p1''}" using pods by (metis image_set empty_set list.simps(15))
    then have "map_of (preparedClaimsByPodUID s2) x = None" using x by (simp add: map_of_eq_None_iff)
    then show ?thesis by (simp add: Get_def Get_refs_def)
  qed
  have rec: "recorded (vf_drv (nd_world vf_start)) qa"
    using vf_known(1) qa by (simp add: recorded_def device_name_def ReplaceAll_def vf_start_def node_kernel_def)
  have ne: "''0000:01:00.2'' \<notin> rebound_addresses [Some qa]" using qa(2) by (auto simp: rebound_addresses_def)
  have "mget res ''b'' = Some None \<and> vf_drv w3 ''0000:01:00.2'' = vf_drv w2 ''0000:01:00.2''"
    using second_claim_leaks[OF plug st inv, where a = "example_object ''a''" and b = "example_object ''b''" and p = "''p1''" and
        base = "vf_drv (nd_world vf_start)" and x = "''0000:01:00.2''", unfolded o, OF _ qa(1) qb _ _ ne u] other rec by simp
  then show ?thesis using u b(2) by (metis (no_types))
qed

end
