(* ===== verification/NodeRecovery.thy ===== *)
theory NodeRecovery
  imports NodeLifecycle
begin

text \<open>
  Recovery of a node. Besides the bindings, every run of the node's machine keeps the stored devices whole (no nil pointer
  among them). When the files and services the driver writes work again, the kubelet can therefore always
  clean the node: some call of \<^verbatim>\<open>UnprepareResourceClaims\<close> reports success for each of its claims, leaves no claim in the store and every
  device on the driver it had when the node was set up.
\<close>

section \<open>Calls that work\<close>

text \<open>A call that succeeds and leaves a world with the property \<open>P\<close>: the total correctness of one call.\<close>

definition works :: "('w \<Rightarrow> bool) \<Rightarrow> unit res \<times> 'w \<Rightarrow> bool" where
  "works P rw \<longleftrightarrow> fst rw = Ok () \<and> P (snd rw)"

definition read_works :: "'w os \<Rightarrow> 'a res \<Rightarrow> bool" where
  "read_works os r \<longleftrightarrow> (case r of Ok _ \<Rightarrow> True | Err e \<Rightarrow> os_IsNotExist os e | Panic _ \<Rightarrow> False)"

text \<open>The node is in order while \<open>up\<close> holds: sysfs answers, a bound device can be unbound and an unbound one
  bound to its original driver, which is not a DPDK driver; files of device information, CDI files and the
  checkpoint can be written; and none of these calls ends this state.\<close>

definition serviceable :: "'w env \<Rightarrow> 'w checkpoint_manager \<Rightarrow> ('w \<Rightarrow> string \<rightharpoonup> string) \<Rightarrow> (string \<rightharpoonup> string) \<Rightarrow> ('w \<Rightarrow> bool) \<Rightarrow> bool" where
  "serviceable env cm drv base up \<longleftrightarrow> (\<forall>a n. base a = Some n \<longrightarrow> \<not> IsDpdkDriver n) \<and>
     (\<forall>w. up w \<longrightarrow>
        (\<forall>a. known_vf base a \<longrightarrow>
           read_works (env_os env) (os_Readlink (env_os env) (dev_file a ''driver'') w) \<and>
           read_works (env_os env) (os_Stat (env_os env) (dev_file a ''driver_override'') w) \<and>
           (\<forall>x. works up (os_WriteFile (env_os env) (dev_file a ''driver_override'') x w)) \<and>
           (\<forall>n. drv w a = Some n \<longrightarrow> works up (os_WriteFile (env_os env) (drv_file n ''unbind'') a w)) \<and>
           (\<forall>n. drv w a = None \<longrightarrow> base a = Some n \<longrightarrow> works up (os_WriteFile (env_os env) (drv_file n ''bind'') a w))) \<and>
        (\<forall>r i. works up (CleanDeviceInfoForDP (env_dis env) r i w)) \<and> (\<forall>n. works up (cdi_RemoveSpec (env_cdi env) n w)) \<and>
        (\<forall>m. claims_wf m \<longrightarrow> works up (cm_CreateCheckpoint cm DriverPluginCheckpointFile (NewCheckpoint\<lparr>cp_V1 := Some m\<rparr>) w)))"

lemma works_bind:
  assumes "works P rw" "\<And>v. P v \<Longrightarrow> works Q (k () v)" shows "works Q (bind_io rw k)"
  using assms by (cases rw) (simp add: works_def bind_io_def)

lemma works_return: "P w \<Longrightarrow> works P (Ok (), w)"
  by (simp add: works_def)

lemma serviceableD:
  assumes "serviceable env cm drv base up" "up w"
  shows "known_vf base a \<Longrightarrow> read_works (env_os env) (os_Readlink (env_os env) (dev_file a ''driver'') w)"
    "known_vf base a \<Longrightarrow> read_works (env_os env) (os_Stat (env_os env) (dev_file a ''driver_override'') w)"
    "known_vf base a \<Longrightarrow> works up (os_WriteFile (env_os env) (dev_file a ''driver_override'') x w)"
    "known_vf base a \<Longrightarrow> drv w a = Some n \<Longrightarrow> works up (os_WriteFile (env_os env) (drv_file n ''unbind'') a w)"
    "known_vf base a \<Longrightarrow> drv w a = None \<Longrightarrow> base a = Some n \<Longrightarrow> works up (os_WriteFile (env_os env) (drv_file n ''bind'') a w)"
    "works up (CleanDeviceInfoForDP (env_dis env) r i w)" "works up (cdi_RemoveSpec (env_cdi env) s w)"
    "claims_wf m \<Longrightarrow> works up (cm_CreateCheckpoint cm DriverPluginCheckpointFile (NewCheckpoint\<lparr>cp_V1 := Some m\<rparr>) w)"
  using assms unfolding serviceable_def by blast+

section \<open>Restoring works\<close>

lemma get_driver_works:
  assumes "serviceable env cm drv base up" "up w" "sysfs_documented (env_os env) drv" "known_vf base a"
  shows "GetDriverByBusAndDevice (env_os env) a w = Ok (driver_name (drv w a))"
proof -
  have a: "is_name a" using assms(4) by (simp add: known_vf_def)
  have "\<exists>n. GetDriverByBusAndDevice (env_os env) a w = Ok n"
    using serviceableD(1)[OF assms(1,2,4)] sysfs_paths(1)[OF assms(3) a]
    by (auto simp: GetDriverByBusAndDevice_def read_works_def split: res.splits)
  then obtain n where n: "GetDriverByBusAndDevice (env_os env) a w = Ok n" by blast
  show ?thesis using get_driver(1)[OF assms(3) a n] n by (simp add: driver_name_def)
qed

lemma unbind_works:
  assumes "serviceable env cm drv base up" "up w" "sysfs_documented (env_os env) drv" "known_vf base a"
  shows "works (\<lambda>v. up v \<and> drv v a = None) (UnbindDriverByBusAndDevice (env_os env) a w)"
proof -
  have a: "is_name a" using assms(4) by (simp add: known_vf_def)
  note g = get_driver_works[OF assms]
  obtain r v where r: "UnbindDriverByBusAndDevice (env_os env) a w = (r, v)" by (metis prod.exhaust)
  have "works up (r, v)"
  proof (cases "drv w a")
    case None
    then show ?thesis using r g assms(2) by (simp add: UnbindDriverByBusAndDevice_def driver_name_def works_def)
  next
    case (Some n)
    have "driver_name (drv w a) = n" by (simp add: driver_name_def Some)
    note gn = get_driver[OF assms(3) a g[unfolded this]]
    have n: "n \<noteq> []" "is_name n" using gn Some by (cases "n = []"; simp)+
    then have "os_WriteFile (env_os env) (drv_file n ''unbind'') a w = (r, v)"
      using r g Some sysfs_paths(2)[OF assms(3) n(2)] by (simp add: UnbindDriverByBusAndDevice_def unbindDriver_def driver_name_def)
    then show ?thesis using serviceableD(4)[OF assms(1,2,4) Some] by simp
  qed
  then show ?thesis using unbind_drv[OF assms(3) a r] r by (simp add: works_def)
qed

lemma override_works:
  assumes "serviceable env cm drv base up" "up w" "sysfs_documented (env_os env) drv" "known_vf base a"
  shows "works (\<lambda>v. up v \<and> drv v = drv w) (setDriverOverride (env_os env) a x w)"
proof -
  have a: "is_name a" using assms(4) by (simp add: known_vf_def)
  have "works up (setDriverOverride (env_os env) a x w)"
    using serviceableD(2,3)[OF assms(1,2,4)] assms(2)
    by (auto simp: setDriverOverride_def sysfs_paths(1)[OF assms(3) a] Let_def read_works_def split: res.splits intro: works_return)
  then show ?thesis using set_override_drv[OF assms(3) a] by (simp add: works_def)
qed

lemma rebind_works:
  assumes "serviceable env cm drv base up" "up w" "sysfs_documented (env_os env) drv" "known_vf base a" "base a = Some n" "drv w a = None"
  shows "works up (bindDriver (env_os env) a n w)"
  using serviceableD(5)[OF assms(1,2,4,6,5)] sysfs_paths(2)[OF assms(3), of n "''bind''"] assms(4,5)
  by (simp add: bindDriver_def known_vf_def)

lemma restore_works:
  assumes S: "serviceable env cm drv base up" and up: "up w" and doc: "sysfs_documented (env_os env) drv"
    and known: "known_vf base a" and n: "base a = Some n"
  shows "works up (RestoreDeviceDriver (env_os env) a n w)"
proof -
  let ?os = "env_os env"
  have dpdk: "\<not> IsDpdkDriver n" using S n by (simp add: serviceable_def)
  have nm: "n \<noteq> []" using known n by (auto simp: known_vf_def is_name_def)
  define cur where "cur = driver_name (drv w a)"
  have eq: "RestoreDeviceDriver ?os a n w = (if cur \<noteq> [] \<and> cur = n then (Ok (), w)
      else bind_io (if cur \<noteq> [] then UnbindDriverByBusAndDevice ?os a w else (Ok (), w)) (\<lambda>_ w2.
           bind_io (setDriverOverride ?os a n w2) (\<lambda>_ w3. bind_io (bindDriver ?os a n w3) (\<lambda>_ w4. setDriverOverride ?os a [] w4))))"
    using nm dpdk get_driver_works[OF S up doc known]
    by (simp add: RestoreDeviceDriver_def BindDriverByBusAndDevice_def EnsureDpdkModuleLoaded_def cur_def)
  have free: "drv w a = None" if "cur = []"
    using get_driver(1)[OF doc _ get_driver_works[OF S up doc known]] that known by (simp add: cur_def known_vf_def)
  have first: "works (\<lambda>v. up v \<and> drv v a = None) (if cur \<noteq> [] then UnbindDriverByBusAndDevice ?os a w else (Ok (), w))"
    using unbind_works[OF S up doc known] free up by (simp add: works_def)
  have last: "works up (bind_io (setDriverOverride ?os a n v) (\<lambda>_ w3. bind_io (bindDriver ?os a n w3) (\<lambda>_ w4. setDriverOverride ?os a [] w4)))"
    if v: "up v \<and> drv v a = None" for v
  proof (rule works_bind[OF override_works[OF S _ doc known]])
    show "works up (bind_io (bindDriver ?os a n w3) (\<lambda>_ w4. setDriverOverride ?os a [] w4))" if "up w3 \<and> drv w3 = drv v" for w3
      using that v by (intro works_bind[OF rebind_works[OF S _ doc known n]])
        (auto dest!: override_works[OF S _ doc known, where x = "[]"] simp: works_def)
  qed (use v in blast)
  have "works up (bind_io (if cur \<noteq> [] then UnbindDriverByBusAndDevice ?os a w else (Ok (), w)) (\<lambda>_ w2.
      bind_io (setDriverOverride ?os a n w2) (\<lambda>_ w3. bind_io (bindDriver ?os a n w3) (\<lambda>_ w4. setDriverOverride ?os a [] w4))))"
    by (rule works_bind[OF first]) (rule last)
  then show ?thesis unfolding eq using works_return[of up w] up by presburger
qed

lemma unprepare_devices_works:
  assumes S: "serviceable env cm drv base up" and doc: "sysfs_documented (env_os env) drv"
  shows "(\<And>q. Some q \<in> set ps \<Longrightarrow> recorded base q) \<Longrightarrow> up w \<Longrightarrow> works up (unprepareDevices (env_os env) ps w)"
proof (induction ps arbitrary: w)
  case (Cons p ps)
  show ?case
  proof (cases "\<exists>q. p = Some q \<and> rebound q")
    case False
    then have "unprepareDevices (env_os env) (p # ps) w = unprepareDevices (env_os env) ps w"
      by (cases p) (auto simp: rebound_def split: option.splits)
    then show ?thesis using Cons by simp
  next
    case True
    then obtain q where q: "p = Some q" "rebound q" by blast
    then have rec: "known_vf base (pd_PciAddress q)" "base (pd_PciAddress q) = Some (pd_OriginalDriver q)"
      using Cons.prems(1)[of q] by (simp_all add: recorded_def)
    obtain v where v: "RestoreDeviceDriver (env_os env) (pd_PciAddress q) (pd_OriginalDriver q) w = (Ok (), v)" "up v"
      using restore_works[OF S Cons.prems(2) doc rec] by (auto simp: works_def prod_eq_iff)
    then have "unprepareDevices (env_os env) (p # ps) w = unprepareDevices (env_os env) ps v"
      using q by (auto simp: rebound_def split: option.splits)
    then show ?thesis using Cons.IH[of v] Cons.prems(1) v(2) by simp
  qed
qed (simp add: works_def)

lemma clean_infos_works:
  assumes S: "serviceable env cm drv base up"
  shows "None \<notin> set ps \<Longrightarrow> up w \<Longrightarrow> \<exists>v. clean_infos (env_dis env) [] ps w = (Ok [], v) \<and> up v"
proof (induction ps arbitrary: w)
  case (Cons p ps)
  obtain q where q: "p = Some q" using Cons.prems(1) by (cases p) auto
  obtain v where v: "CleanDeviceInfoForDP (env_dis env) (pd_MultusResourceName q) (pd_MultusDeviceID q) w = (Ok (), v)" "up v"
    using serviceableD(6)[OF S Cons.prems(2)] by (fastforce simp: works_def prod_eq_iff)
  show ?case using Cons.IH[of w] Cons.IH[of v] Cons.prems q v by simp
qed simp

lemma collect_works: "works P (step w) \<Longrightarrow> \<exists>v. collect msg step errs w = (Ok errs, v) \<and> P v"
  by (cases "step w") (simp add: works_def collect_def)

lemma Unprepare_works:
  assumes S: "serviceable env cm drv base up" and doc: "sysfs_documented (env_os env) drv"
    and rec: "\<And>q. Some q \<in> set ps \<Longrightarrow> recorded base q" and whole: "None \<notin> set ps" and up: "up w"
  shows "works up (Unprepare env m u ps w)"
proof -
  have clean: "works up (cleanDeviceInfoFilesForPreparedDevicesIfNeeded (env_dis env) m ps w)"
    using clean_infos_works[OF S whole up] up
    by (auto simp: cleanDeviceInfoFilesForPreparedDevicesIfNeeded_def cleanDeviceInfoFilesForPreparedDevices_def bind_io_def join_errors_def works_def)
  have spec: "\<exists>v'. collect msg (DeleteSpecFile (env_cdi env) x) errs v = (Ok errs, v') \<and> up v'" if "up v" for msg x errs v
    using serviceableD(7)[OF S that] by (intro collect_works) (simp add: DeleteSpecFile_def)
  obtain w1 where w1: "collect ''unable to clean device-info files for claim: %v''
      (cleanDeviceInfoFilesForPreparedDevicesIfNeeded (env_dis env) m ps) [] w = (Ok [], w1)" "up w1"
    using collect_works[of up "cleanDeviceInfoFilesForPreparedDevicesIfNeeded (env_dis env) m ps", OF clean] by blast
  obtain w2 where w2: "collect ''unprepare failed: %v'' (unprepareDevices (env_os env) ps) [] w1 = (Ok [], w2)" "up w2"
    using collect_works[of up "unprepareDevices (env_os env) ps", OF unprepare_devices_works[OF S doc rec w1(2)]] by blast
  obtain w3 where w3: "collect ''unable to delete CDI spec file for PodUID: %v'' (DeleteSpecFile (env_cdi env) u) [] w2 = (Ok [], w3)" "up w3"
    using spec[OF w2(2)] by blast
  obtain w4 where w4: "(case ps of
      Some p # _ \<Rightarrow> collect ''unable to delete CDI spec file for PodUID: %v'' (DeleteSpecFile (env_cdi env) (pd_PodUID p)) [] w3
    | _ \<Rightarrow> (Ok [], w3)) = (Ok [], w4)" "up w4"
    using that w3(2) spec[OF w3(2)] by (cases ps rule: list.exhaust; cases "hd ps") fastforce+
  show ?thesis using w1 w2 w3 w4 by (simp add: Unprepare_def bind_io_def join_errors_def works_def)
qed

section \<open>Stored devices are whole\<close>

definition whole :: "claims_view \<Rightarrow> bool" where
  "whole v \<longleftrightarrow> (\<forall>p c ds. v p c = Some ds \<longrightarrow> None \<notin> set ds)"

definition whole_node :: "'w checkpoint_manager \<Rightarrow> 'w node \<Rightarrow> bool" where
  "whole_node cm nd \<longleftrightarrow> whole (Get (nd_store nd)) \<and> whole (saved_claims cm (nd_world nd))"

lemma whole_put: "whole v \<Longrightarrow> whole (v(p := (v p)(c \<mapsto> map Some ds)))"
  by (auto simp: whole_def)

lemma whole_drop: "whole v \<Longrightarrow> whole (v(p := Map.empty))"
  by (auto simp: whole_def)

lemma whole_synced:
  assumes "node_setup d cm cb drv base" "syncToCheckpoint cm s w = (r, w')" "whole (Get s)" "whole (saved_claims cm w)"
  shows "whole (saved_claims cm w')"
  using sync_saved(2)[OF assms(1,2)] assms(3,4) by simp

lemma whole_prepare:
  assumes doc: "node_setup d cm cb drv base" and inv: "pm_inv s" "whole (Get s)" "whole (saved_claims cm w)"
    and run: "prepareResourceClaim d m idx claim s w = ((Ok r, idx', s'), w')"
  shows "whole (Get s') \<and> whole (saved_claims cm w')"
proof -
  note D = node_setupD[OF doc]
  have set: "st_Set (d_store d) = Set cm" by (simp add: D(1) pod_store_def)
  have saved_env: "saved_claims cm (snd (PrepareDevicesForClaim (d_env d) m idx claim w)) = saved_claims cm w"
    "saved_claims cm (snd (Unprepare (d_env d) m u ps v)) = saved_claims cm v" for u ps v
    using D(6) by (auto intro!: saved_cong simp: frame)
  have put: "whole (Get s')" "whole (saved_claims cm w2)"
    if p: "PrepareDevicesForClaim (d_env d) m idx claim w = ((Ok ds, i, c), w1)" and
      st: "Set cm s pod (claim_UID claim) (map Some ds) w1 = ((b, s'), w2)" for ds i c w1 pod b w2
  proof -
    note S = set_view[OF inv(1) st]
    show get: "whole (Get s')" unfolding S(2) by (rule whole_put[OF inv(2)])
    show "whole (saved_claims cm w2)" by (rule whole_synced[OF doc S(3) get]) (use saved_env(1) p inv(3) in simp)
  qed
  from run show ?thesis
  proof (cases rule: prepare_cases)
    case (failed pod al e c)
    then show ?thesis using inv saved_env(1) by simp
  next
    case (stored pod al ds c w1 w2)
    have "saved_claims cm w' = saved_claims cm w2"
      using doc unfolding stored(6) node_setup_def node_documented_def by (auto intro!: saved_cong)
    then show ?thesis using put[OF stored(4) stored(5)[unfolded set]] by simp
  next
    case (unstored pod al ds c w1 e w2 u)
    have "saved_claims cm w' = saved_claims cm w2" using saved_env(2) unstored(6) by (metis snd_conv)
    then show ?thesis using put[OF unstored(4) unstored(5)[unfolded set]] by simp
  qed (use inv in simp)
qed

lemma whole_unprepare:
  assumes doc: "node_setup d cm cb drv base" and inv: "pm_inv s" "whole (Get s)" "whole (saved_claims cm w)"
    and run: "unprepareResourceClaim d m claim s w = ((r, s'), w')"
  shows "whole (Get s') \<and> whole (saved_claims cm w')"
proof -
  note D = node_setupD[OF doc]
  note run' = run[unfolded unprepareResourceClaim_def D(1) pod_store_def, simplified]
  show ?thesis
  proof (cases "pod_of_claim s (no_UID claim)")
    case None
    then show ?thesis using run' inv by (simp add: GetByClaim_def)
  next
    case (Some pr)
    obtain p rs where p: "pod_of_claim s (no_UID claim) = Some (p, rs)" using Some by (metis prod.exhaust)
    define ds where "ds = deref_all (pm_heap s) rs"
    have g: "GetByClaim s claim = Some ds" using p by (simp add: GetByClaim_def ds_def)
    obtain u w1 where u: "Unprepare (d_env d) m (no_UID claim) ds w = (u, w1)" by (metis prod.exhaust)
    have "checkpoint_file cm w1 = checkpoint_file cm w" using unprepare_claim_frame[OF D(6), of m "no_UID claim" ds w] u by simp
    then have sv1: "saved_claims cm w1 = saved_claims cm w" by (rule saved_cong)
    show ?thesis
    proof (cases u)
      case (Ok x)
      obtain r2 where del: "DeleteClaim cm s claim w1 = ((r2, s'), w')" using run' g u Ok by (auto split: prod.splits)
      note V = delete_view[OF inv(1) p del]
      have get: "whole (Get s')" unfolding V(2) by (rule whole_drop[OF inv(2)])
      show ?thesis using get whole_synced[OF doc V(3) get] inv(3) sv1 by simp
    qed (use run' g u inv sv1 in auto)
  qed
qed

lemma whole_network:
  assumes "i < length (pm_heap s)" "UpdatePreparedDeviceNetworkData cm s (Some i) data w = ((r, s'), w')" "whole (Get s)"
  shows "whole (Get s')"
proof -
  have "\<exists>x. s' = s\<lparr>pm_heap := (pm_heap s)[i := x]\<rparr>"
    using assms(1,2) by (auto simp: UpdatePreparedDeviceNetworkData_def case_prod_beta Let_def)
  then obtain x where s': "s' = s\<lparr>pm_heap := (pm_heap s)[i := x]\<rparr>" by blast
  have "deref (pm_heap s') y = None \<longleftrightarrow> deref (pm_heap s) y = None" for y by (simp add: s' deref_def split: option.split)
  then have "None \<in> set (deref_all (pm_heap s') rs) \<longleftrightarrow> None \<in> set (deref_all (pm_heap s) rs)" for rs
    by (simp add: deref_all_def image_iff) (metis (no_types))
  moreover have "Get_refs s' = Get_refs s" by (simp add: fun_eq_iff Get_refs_def s')
  ultimately show ?thesis using assms(3) unfolding whole_def Get_def by (metis (no_types, lifting) map_option_eq_Some)
qed

lemma whole_step:
  assumes doc: "node_setup d cm cb drv base" and inv: "node_inv cm drv base nd" "whole_node cm nd"
    and step: "node_step d cm flags cb drv nd nd'"
  shows "whole_node cm nd'"
proof -
  note I = node_invD(1,2)[OF inv(1)]
  have W: "whole (Get (nd_store nd))" "whole (saved_claims cm (nd_world nd))" using inv(2) by (simp_all add: whole_node_def)
  from step show ?thesis
  proof cases
    case (prepare claim idx r idx' s' w')
    then show ?thesis using whole_prepare[OF doc I(1) W] by (simp add: whole_node_def)
  next
    case (unprepare claim r s' w')
    then show ?thesis using whole_unprepare[OF doc I(1) W] by (simp add: whole_node_def)
  next
    case (network i data r s' w')
    note get = whole_network[OF network(2,3) W(1)]
    show ?thesis using network(1) get whole_synced[OF doc network_view(3)[OF network(2,3)] get W(2)] by (simp add: whole_node_def)
  next
    case (reconcile asSel rd rec r m' w')
    have "manager_inv (nd_manager nd)" using I(2) by (simp add: vf_hardware_def)
    then show ?thesis using reconcile(1) W reconcile_world(2)[OF doc _ reconcile(2)] by (simp add: whole_node_def)
  next
    case (restart m' s' w')
    have "Get s' = saved_claims cm (nd_world nd)" using restart(3) by (simp add: saved_claims_def)
    moreover obtain t where "newPodManager cm w' = (Ok t, w')" "Get t = Get s'"
      using newPodManager_restart[OF node_setupD(3)[OF doc] restart(3)] by blast
    ultimately show ?thesis using restart(1) W(2) by (simp add: whole_node_def saved_claims_def)
  next
    case (other w')
    then show ?thesis using W saved_cong[OF other(3)] by (simp add: whole_node_def)
  qed
qed

interpretation whole_nodes: machine "node_step d cm flags cb drv"
  "\<lambda>nd. node_setup d cm cb drv base \<longrightarrow> node_inv cm drv base nd \<and> whole_node cm nd"
  for d :: "(PodManager, 'w) Driver" and cm flags cb drv base
  by unfold_locales (blast intro: node_inv_step whole_step)

section \<open>Recovery\<close>

text \<open>One successful unprepare call, and what is left to do.\<close>

definition unprepares :: "(PodManager, 'w) Driver \<Rightarrow> 'w node \<Rightarrow> 'w node \<Rightarrow> bool" where
  "unprepares d nd nd' \<longleftrightarrow> nd_manager nd' = nd_manager nd \<and>
     (\<exists>claim. unprepareResourceClaim d (nd_manager nd) claim (nd_store nd) (nd_world nd) = ((Ok (), nd_store nd'), nd_world nd'))"

definition busy_pods :: "PodManager \<Rightarrow> UID set" where
  "busy_pods s = {p. \<exists>c. Get s p c \<noteq> None}"

definition recoverable :: "(PodManager, 'w) Driver \<Rightarrow> 'w checkpoint_manager \<Rightarrow> 'w republish option \<Rightarrow> ('w \<Rightarrow> string \<rightharpoonup> string) \<Rightarrow>
    (string \<rightharpoonup> string) \<Rightarrow> ('w \<Rightarrow> bool) \<Rightarrow> 'w node \<Rightarrow> bool" where
  "recoverable d cm cb drv base up nd \<longleftrightarrow> node_setup d cm cb drv base \<and> serviceable (d_env d) cm drv base up \<and>
     node_inv cm drv base nd \<and> whole_node cm nd \<and> up (nd_world nd)"

lemma finite_busy: "finite (busy_pods s)"
proof (rule finite_subset)
  show "busy_pods s \<subseteq> fst ` set (preparedClaimsByPodUID s)"
  proof
    fix p assume "p \<in> busy_pods s"
    then have "map_of (preparedClaimsByPodUID s) p \<noteq> None" by (auto simp: busy_pods_def Get_def Get_refs_def split: option.splits)
    then show "p \<in> fst ` set (preparedClaimsByPodUID s)" by (simp add: map_of_eq_None_iff)
  qed
qed simp

lemma unprepare_call_works:
  assumes rec: "recoverable d cm cb drv base up nd" and p: "pod_of_claim (nd_store nd) (no_UID claim) = Some (p, rs)"
  shows "\<exists>s' w'. unprepareResourceClaim d (nd_manager nd) claim (nd_store nd) (nd_world nd) = ((Ok (), s'), w') \<and> up w' \<and>
    Get s' = (Get (nd_store nd))(p := Map.empty)"
proof -
  have doc: "node_setup d cm cb drv base" and S: "serviceable (d_env d) cm drv base up" and inv: "node_inv cm drv base nd"
    and W: "whole (Get (nd_store nd))" and up: "up (nd_world nd)"
    using rec by (simp_all add: recoverable_def whole_node_def)
  note D = node_setupD[OF doc] and I = node_invD[OF inv]
  define ds where "ds = deref_all (pm_heap (nd_store nd)) rs"
  have g: "GetByClaim (nd_store nd) claim = Some ds" "Get (nd_store nd) p (no_UID claim) = Some ds"
    using p pod_of_claim_Some[OF I(1) p] by (simp_all add: GetByClaim_def ds_def)
  have r: "recorded base q" if "Some q \<in> set ds" for q
    using I(3) entriesI[where v = "Get (nd_store nd)", OF g(2) that] by (auto simp: accounted_def)
  have "None \<notin> set ds" using W g(2) unfolding whole_def by blast
  then obtain v where v: "Unprepare (d_env d) (nd_manager nd) (no_UID claim) ds (nd_world nd) = (Ok (), v)" "up v"
    using Unprepare_works[OF S D(5) r _ up] by (metis prod.collapse works_def)
  obtain x s' w' where del: "DeleteClaim cm (nd_store nd) claim v = ((x, s'), w')" by (metis prod.exhaust)
  note V = delete_view[OF I(1) p del]
  have "works up (cm_CreateCheckpoint cm DriverPluginCheckpointFile (NewCheckpoint\<lparr>cp_V1 := Some (snapshot s')\<rparr>) v)"
    by (rule serviceableD(8)[OF S v(2) claims_wf_snapshot[OF V(1)]])
  then have "x = Ok ()" "up w'" using V(3) by (auto simp: syncToCheckpoint_def works_def wrap_err_def case_prod_beta Let_def)
  then show ?thesis using g v(1) del V(2) by (simp add: unprepareResourceClaim_def D(1) pod_store_def wrap_err_def)
qed

lemma unprepare_advances:
  assumes rec: "recoverable d cm cb drv base up nd" and busy: "busy_pods (nd_store nd) \<noteq> {}"
  shows "\<exists>nd'. unprepares d nd nd' \<and> recoverable d cm cb drv base up nd' \<and> card (busy_pods (nd_store nd')) < card (busy_pods (nd_store nd))"
proof -
  have doc: "node_setup d cm cb drv base" and inv: "node_inv cm drv base nd" and W: "whole_node cm nd" using rec by (simp_all add: recoverable_def)
  note I = node_invD[OF inv]
  obtain p c where pc: "Get (nd_store nd) p c \<noteq> None" using busy by (auto simp: busy_pods_def)
  define claim where "claim = \<lparr>no_Name = [], no_Namespace = [], no_UID = c\<rparr>"
  obtain q rs where q: "pod_of_claim (nd_store nd) (no_UID claim) = Some (q, rs)"
    using pod_of_claim_None[OF I(1), of c p] pc by (cases "pod_of_claim (nd_store nd) c") (auto simp: claim_def)
  obtain s' w' where run: "unprepareResourceClaim d (nd_manager nd) claim (nd_store nd) (nd_world nd) = ((Ok (), s'), w')" "up w'"
    "Get s' = (Get (nd_store nd))(q := Map.empty)" using unprepare_call_works[OF rec q] by blast
  let ?nd = "nd\<lparr>nd_store := s', nd_world := w'\<rparr>"
  have "node_inv cm drv base ?nd" by (rule unprepare_inv[OF doc inv run(1)]) (simp add: is_panic_def)
  moreover have "whole_node cm ?nd" using whole_unprepare[OF doc I(1) _ _ run(1)] W by (simp add: whole_node_def)
  ultimately have "recoverable d cm cb drv base up ?nd" using rec run(2) by (simp add: recoverable_def)
  moreover have "unprepares d nd ?nd" using run(1) by (auto simp: unprepares_def)
  moreover have "busy_pods s' = busy_pods (nd_store nd) - {q}" by (auto simp: busy_pods_def run(3))
  moreover have "q \<in> busy_pods (nd_store nd)" using pod_of_claim_Some[OF I(1) q] by (auto simp: busy_pods_def)
  ultimately show ?thesis using card_Diff1_less[OF finite_busy] by (intro exI[of _ ?nd]) simp
qed

interpretation recovery: progress "unprepares d" "recoverable d cm cb drv base up" "\<lambda>nd. busy_pods (nd_store nd) = {}"
    "\<lambda>nd. card (busy_pods (nd_store nd))"
  for d :: "(PodManager, 'w) Driver" and cm cb drv base up
  by unfold_locales (rule unprepare_advances)

text \<open>Successful calls one after the other are one call of the handler with the list of their claims.\<close>

lemma unprepares_handler:
  "(unprepares d)\<^sup>*\<^sup>* nd nd' \<Longrightarrow> (\<And>c e. mget res c = Some e \<Longrightarrow> e = None) \<Longrightarrow>
    \<exists>claims res'. UnprepareResourceClaims d (nd_manager nd) res claims (nd_store nd) (nd_world nd) = ((Ok res', nd_store nd'), nd_world nd') \<and>
      (\<forall>c e. mget res' c = Some e \<longrightarrow> e = None)"
proof (induction arbitrary: res rule: converse_rtranclp_induct)
  case base
  then show ?case by (intro exI[of _ "[]"] exI[of _ res]) auto
next
  case (step nd nd1)
  then obtain claim where c: "unprepareResourceClaim d (nd_manager nd) claim (nd_store nd) (nd_world nd) = ((Ok (), nd_store nd1), nd_world nd1)"
    "nd_manager nd1 = nd_manager nd" by (auto simp: unprepares_def)
  obtain claims res' where r: "UnprepareResourceClaims d (nd_manager nd) (mput res (no_UID claim) None) claims (nd_store nd1) (nd_world nd1) =
      ((Ok res', nd_store nd'), nd_world nd')" "\<forall>c e. mget res' c = Some e \<longrightarrow> e = None"
    using step.IH[of "mput res (no_UID claim) None"] step.prems c(2)
    by (metis (no_types, lifting) fun_upd_apply map_of_mput option.inject)
  then show ?case using c(1) by (intro exI[of _ "claim # claims"] exI[of _ res']) simp
qed

section \<open>Properties\<close>

text \<open>C5. A node can be recovered. The conditions are those under which bindings do not leak: every virtual function had a
  driver when the node was set up, a pod has at most one claim of this driver and the claims are admissible, and no prepare call reported that a bind, a
  restore or a clean-up failed; besides, the drivers at set-up are not DPDK drivers (\<open>serviceable\<close>). Whatever run of prepares and unprepares, policies, network data and
  restarts, with failures of checkpoint writes and of unprepare calls among them, led to the present state: once the files and services that the driver
  writes work again there is a call \<^verbatim>\<open>UnprepareResourceClaims\<close> which reports no error for any of its claims, leaves no
  claim in the store, and leaves every device on the driver it had when the node was set up.\<close>

theorem node_recoverable:
  assumes "node_documented d cm cb drv" "bound_at_setup (env_os (d_env d)) (drv (nd_world nd0))"
    and "vf_hardware (drv (nd_world nd0)) (nd_manager nd0)"
    and "nd_store nd0 = empty_manager" "saved_claims cm (nd_world nd0) = Get empty_manager"
    and "(node_step d cm flags cb drv)\<^sup>*\<^sup>* nd0 nd"
    and "serviceable (d_env d) cm drv (drv (nd_world nd0)) up" "up (nd_world nd)"
  shows "\<exists>claims res s' w'. UnprepareResourceClaims d (nd_manager nd) [] claims (nd_store nd) (nd_world nd) = ((Ok res, s'), w') \<and>
    (\<forall>c e. mget res c = Some e \<longrightarrow> e = None) \<and> Get s' = Get empty_manager \<and> drv w' = drv (nd_world nd0)"
proof -
  have none: "Get empty_manager p c = None" for p c by (simp add: Get_def Get_refs_def)
  have "node_inv cm drv (drv (nd_world nd0)) nd0" "whole_node cm nd0"
    using assms(3-5) empty_manager_inv none by (simp_all add: node_inv_def accounted_def lone_def entries_def whole_node_def whole_def)
  then have "node_inv cm drv (drv (nd_world nd0)) nd \<and> whole_node cm nd"
    using whole_nodes.inv_run[OF assms(6), of "drv (nd_world nd0)"] assms(1,2) unfolding node_setup_def by blast
  then have "recoverable d cm cb drv (drv (nd_world nd0)) up nd" using assms(1,2,7,8) by (simp add: recoverable_def node_setup_def)
  then obtain nd' where r: "(unprepares d)\<^sup>*\<^sup>* nd nd'" "recoverable d cm cb drv (drv (nd_world nd0)) up nd'" "busy_pods (nd_store nd') = {}"
    using recovery.reaches by blast
  have gone: "Get (nd_store nd') = Get empty_manager" using r(3) none by (auto simp: busy_pods_def fun_eq_iff)
  have "accounted (drv (nd_world nd0)) (drv (nd_world nd')) (Get (nd_store nd'))" using r(2) node_invD(3) by (auto simp: recoverable_def)
  then have "drv (nd_world nd') = drv (nd_world nd0)" by (auto simp: gone accounted_def held_def entries_def none fun_eq_iff)
  then show ?thesis using unprepares_handler[OF r(1), of "[]"] gone by auto
qed

section \<open>Witness\<close>

text \<open>The simulated node is in order when its kernel knows the driver \<^verbatim>\<open>iavf\<close> and accepts binds, and its disk is not full.\<close>

definition vf_up :: "node_world \<Rightarrow> bool" where
  "vf_up w \<longleftrightarrow> \<not> k_bind_fails (fst w) \<and> List.member (k_drivers (fst w)) ''iavf'' \<and> \<not> snd (snd w) \<and>
     list_all (\<lambda>(d, n). is_name n) (k_drv (fst w))"

lemma vf_base: "vf_drv (nd_world vf_start) a = Some n \<Longrightarrow> n = ''iavf''"
  by (auto simp: vf_start_def node_kernel_def split: if_splits)

lemma vf_write_eq: "os_WriteFile vf_os p x w = (fst (sim_WriteFile p x (fst w)), (snd (sim_WriteFile p x (fst w)), snd w))"
  by (simp add: vf_os_def on_kernel_def case_prod_beta Let_def)

lemma names_mput: "list_all (\<lambda>(d, n). is_name n) m \<Longrightarrow> is_name v \<Longrightarrow> list_all (\<lambda>(d, n). is_name n) (mput m k v)"
  by (induction m) auto

lemma vf_files_work:
  assumes up: "vf_up w" and a: "known_vf (vf_drv (nd_world vf_start)) a"
  shows "read_works vf_os (os_Readlink vf_os (dev_file a ''driver'') w)" "works vf_up (os_WriteFile vf_os (dev_file a ''driver_override'') x w)"
    "vf_drv w a = Some n \<Longrightarrow> works vf_up (os_WriteFile vf_os (drv_file n ''unbind'') a w)"
    "vf_drv (nd_world vf_start) a = Some n \<Longrightarrow> works vf_up (os_WriteFile vf_os (drv_file n ''bind'') a w)"
proof -
  have nm: "is_name a" using a by (simp add: known_vf_def)
  have names: "is_name m" if "vf_drv w x = Some m" for x m using up map_of_SomeD[OF that] by (auto simp: vf_up_def list_all_iff)
  have "os_IsNotExist vf_os ENOENT" by (simp add: vf_os_def)
  then show "read_works vf_os (os_Readlink vf_os (dev_file a ''driver'') w)"
    using names[of a] by (auto simp: vf_link[OF nm] sim_files(1)[OF nm] read_works_def split: option.split)
  show "works vf_up (os_WriteFile vf_os (dev_file a ''driver_override'') x w)"
    using up by (simp add: works_def vf_write_eq sim_files(4)[OF nm] vf_up_def)
  show "works vf_up (os_WriteFile vf_os (drv_file n ''unbind'') a w)" if "vf_drv w a = Some n"
    using up by (auto simp: works_def vf_write_eq sim_files(3)[OF names[OF that]] vf_up_def list_all_iff AList.delete_eq)
  assume "vf_drv (nd_world vf_start) a = Some n"
  then have n: "n = ''iavf''" by (rule vf_base)
  show "works vf_up (os_WriteFile vf_os (drv_file n ''bind'') a w)"
    using up names_mput[of "k_drv (fst w)" "''iavf''" a] by (simp add: n works_def vf_write_eq sim_files(2)[OF example_name(3)] vf_up_def example_name)
qed

lemma vf_serviceable: "serviceable (d_env vf_driver) vf_cm vf_drv (vf_drv (nd_world vf_start)) vf_up"
proof -
  have env: "d_env vf_driver = vf_env" "env_os vf_env = vf_os" by (simp_all add: vf_driver_def vf_env_def)
  have dpdk: "\<not> IsDpdkDriver n" if "vf_drv (nd_world vf_start) a = Some n" for a n using vf_base[OF that] by (simp add: IsDpdkDriver_def)
  have stat: "read_works vf_os (os_Stat vf_os p w)" for p w by (simp add: vf_os_def read_works_def)
  have calls: "works vf_up (CleanDeviceInfoForDP (env_dis vf_env) r i w)" "works vf_up (cdi_RemoveSpec (env_cdi vf_env) n w)"
    "claims_wf m \<Longrightarrow> works vf_up (cm_CreateCheckpoint vf_cm DriverPluginCheckpointFile (NewCheckpoint\<lparr>cp_V1 := Some m\<rparr>) w)" if "vf_up w" for r i n m w
    using that by (simp_all add: vf_env_def works_def vf_cm_def memory_cm_def vf_up_def)
  show ?thesis
    unfolding serviceable_def env by (intro conjI allI impI; (rule stat | (rule dpdk calls vf_files_work; assumption)))
qed

lemma vf_prepared:
  obtains nd where "(node_step vf_driver vf_cm pf_flags None vf_drv)\<^sup>*\<^sup>* vf_start nd" "vf_up (nd_world nd)"
    "vf_drv (nd_world nd) ''0000:01:00.1'' = Some ''igbvf''"
proof -
  have eval: "case vf_prepare ''a'' ''0000-01-00-1'' empty_manager (nd_world vf_start) of
     ((Ok r, i, s), w) \<Rightarrow> pr_Err r = None \<and> vf_drv w ''0000:01:00.1'' = Some ''igbvf'' \<and> vf_up w | _ \<Rightarrow> False" by code_simp
  obtain r i s w where p: "vf_prepare ''a'' ''0000-01-00-1'' empty_manager (nd_world vf_start) = ((Ok r, i, s), w)"
    "pr_Err r = None" "vf_drv w ''0000:01:00.1'' = Some ''igbvf''" "vf_up w"
    using eval unfolding case_Ok by (elim exE conjE, hypsubst) (rule that; assumption)
  have st: "vf_start = \<lparr>nd_store = empty_manager, nd_manager = vf_manager, nd_world = nd_world vf_start\<rparr>" by (simp add: vf_start_def)
  have "node_step vf_driver vf_cm pf_flags None vf_drv vf_start \<lparr>nd_store = s, nd_manager = vf_manager, nd_world = w\<rparr>"
    using node_step.prepare[of vf_driver "\<lparr>nd_store = empty_manager, nd_manager = vf_manager, nd_world = nd_world vf_start\<rparr>" _ 0 r i s w]
      vf_admissible p by (subst st) (simp add: undamaged_result_def)
  then show ?thesis using p(3,4) by (intro that[of "\<lparr>nd_store = s, nd_manager = vf_manager, nd_world = w\<rparr>"]) auto
qed

theorem node_recoverable_witness:
  "\<exists>nd claims res s' w'. (node_step vf_driver vf_cm pf_flags None vf_drv)\<^sup>*\<^sup>* vf_start nd \<and> vf_drv (nd_world nd) ''0000:01:00.1'' = Some ''igbvf'' \<and>
     UnprepareResourceClaims vf_driver (nd_manager nd) [] claims (nd_store nd) (nd_world nd) = ((Ok res, s'), w') \<and>
     Get s' = Get empty_manager \<and> vf_drv w' = vf_drv (nd_world vf_start)"
proof -
  obtain nd where nd: "(node_step vf_driver vf_cm pf_flags None vf_drv)\<^sup>*\<^sup>* vf_start nd" "vf_up (nd_world nd)"
    "vf_drv (nd_world nd) ''0000:01:00.1'' = Some ''igbvf''" by (rule vf_prepared)
  have sv: "saved_claims vf_cm (nd_world vf_start) = Get empty_manager"
    by (simp add: saved_claims_def newPodManager_def vf_cm_def memory_cm_def vf_start_def claims_wf_def load_store_def NewCheckpoint_def)
  have em: "nd_store vf_start = empty_manager" by (simp add: vf_start_def)
  show ?thesis using node_recoverable[OF vf_documented vf_bound vf_manager_hardware em sv nd(1) vf_serviceable nd(2)] nd(1,3) by blast
qed

end
