(* ===== verification/HostProviders.thy ===== *)
theory HostProviders
  imports Host
begin

text \<open>
  The struct \<^verbatim>\<open>Host\<close> with its providers (\<^verbatim>\<open>pkg/host/host.go\<close>, \<^verbatim>\<open>netlink_provider.go\<close>, \<^verbatim>\<open>rdma_provider.go\<close>,
  \<^verbatim>\<open>sriovnet_provider.go\<close>), the global instance that all callers share, and the constructor for tests
  (\<^verbatim>\<open>testing.go\<close>). The libraries behind the default providers are a parameter. \<open>host_os\<close> gives the operating system that
  the methods of \<open>Host\<close> see.
\<close>

section \<open>Providers\<close>

record 'w RdmaProvider =
  rp_GetRdmaDevicesForPcidev :: "string \<Rightarrow> 'w \<Rightarrow> string list"
  rp_GetRdmaCharDevices :: "string \<Rightarrow> 'w \<Rightarrow> string list"

record 'w NetlinkProvider =
  np_GetDevLinkDeviceEswitchMode :: "string \<Rightarrow> 'w \<Rightarrow> string res"

record 'w SriovnetProvider =
  sp_GetUplinkRepresentor :: "string \<Rightarrow> 'w \<Rightarrow> string res"

text \<open>What is used of the libraries; of a devlink device only the mode of its e-switch.\<close>

record DevlinkDevice =
  dl_EswitchMode :: string

record 'w host_libs =
  rdmamap_GetRdmaDevicesForPcidev :: "string \<Rightarrow> 'w \<Rightarrow> string list"
  rdmamap_GetRdmaCharDevices :: "string \<Rightarrow> 'w \<Rightarrow> string list"
  netlink_DevLinkGetDeviceByName :: "string \<Rightarrow> string \<Rightarrow> 'w \<Rightarrow> DevlinkDevice res"
  sriovnet_GetUplinkRepresentor :: "string \<Rightarrow> 'w \<Rightarrow> string res"

definition newRdmaProvider :: "'w host_libs \<Rightarrow> 'w RdmaProvider" where
  "newRdmaProvider lib = \<lparr>rp_GetRdmaDevicesForPcidev = rdmamap_GetRdmaDevicesForPcidev lib,
     rp_GetRdmaCharDevices = rdmamap_GetRdmaCharDevices lib\<rparr>"

definition defaultNetlinkProvider :: "'w host_libs \<Rightarrow> 'w NetlinkProvider" where
  "defaultNetlinkProvider lib = \<lparr>np_GetDevLinkDeviceEswitchMode = (\<lambda>pciAddr w.
     bind_res (netlink_DevLinkGetDeviceByName lib ''pci'' pciAddr w) (\<lambda>dev. Ok (dl_EswitchMode dev)))\<rparr>"

definition defaultSriovnetProvider :: "'w host_libs \<Rightarrow> 'w SriovnetProvider" where
  "defaultSriovnetProvider lib = \<lparr>sp_GetUplinkRepresentor = sriovnet_GetUplinkRepresentor lib\<rparr>"

section \<open>The host\<close>

record 'w Host =
  rdmaProvider :: "'w RdmaProvider"
  netlinkProvider :: "'w NetlinkProvider"
  sriovnetProvider :: "'w SriovnetProvider"

definition NewHost :: "'w host_libs \<Rightarrow> 'w Host" where
  "NewHost lib = \<lparr>rdmaProvider = newRdmaProvider lib, netlinkProvider = defaultNetlinkProvider lib,
     sriovnetProvider = defaultSriovnetProvider lib\<rparr>"

definition SetRdmaProvider :: "'w Host \<Rightarrow> 'w RdmaProvider \<Rightarrow> 'w Host" where
  "SetRdmaProvider h provider = h\<lparr>rdmaProvider := provider\<rparr>"

definition host_os :: "'w Host \<Rightarrow> 'w os \<Rightarrow> 'w os" where
  "host_os h os = os\<lparr>net_GetUplinkRepresentor := sp_GetUplinkRepresentor (sriovnetProvider h),
     net_EswitchMode := np_GetDevLinkDeviceEswitchMode (netlinkProvider h),
     rdma_DevicesForPcidev := rp_GetRdmaDevicesForPcidev (rdmaProvider h),
     rdma_CharDevices := rp_GetRdmaCharDevices (rdmaProvider h)\<rparr>"

text \<open>The global variables \<^verbatim>\<open>Helpers\<close> and \<^verbatim>\<open>helpersOnce\<close>. Callers get the pointer \<^verbatim>\<open>Helpers\<close>, so a change through it is a
  change of the global.\<close>

record 'w host_globals =
  Helpers :: "'w Host option"
  helpersOnce :: bool

definition initHelpers :: "'w host_libs \<Rightarrow> 'w host_globals \<Rightarrow> 'w host_globals" where
  "initHelpers lib g = (if helpersOnce g then g else g\<lparr>Helpers := Some (NewHost lib), helpersOnce := True\<rparr>)"

definition GetHelpers :: "'w host_libs \<Rightarrow> 'w host_globals \<Rightarrow> 'w Host option \<times> 'w host_globals" where
  "GetHelpers lib g = (let g' = initHelpers lib g in (Helpers g', g'))"

text \<open>\<^verbatim>\<open>NewHostForTest\<close>: a nil provider and a missing one stand for the default.\<close>

definition NewHostForTest :: "'w host_libs \<Rightarrow> 'w NetlinkProvider option \<Rightarrow> 'w SriovnetProvider option list \<Rightarrow> 'w Host" where
  "NewHostForTest lib netlink sriovnet =
     (let np = (case netlink of None \<Rightarrow> defaultNetlinkProvider lib | Some p \<Rightarrow> p);
          sp = (case sriovnet of Some p # _ \<Rightarrow> p | _ \<Rightarrow> defaultSriovnetProvider lib)
      in \<lparr>rdmaProvider = newRdmaProvider lib, netlinkProvider = np, sriovnetProvider = sp\<rparr>)"

definition FakeNetlinkProvider :: "string res \<Rightarrow> 'w NetlinkProvider" where
  "FakeNetlinkProvider out = \<lparr>np_GetDevLinkDeviceEswitchMode = (\<lambda>_ _. out)\<rparr>"

definition FakeSriovnetProvider :: "string res \<Rightarrow> 'w SriovnetProvider" where
  "FakeSriovnetProvider out = \<lparr>sp_GetUplinkRepresentor = (\<lambda>_ _. out)\<rparr>"

section \<open>The shared instance\<close>

text \<open>The program's uses of the global: get it, and replace its RDMA provider.\<close>

inductive helpers_run :: "'w host_libs \<Rightarrow> 'w RdmaProvider \<Rightarrow> 'w host_globals \<Rightarrow> bool" for lib where
  fresh: "helpers_run lib (newRdmaProvider lib) \<lparr>Helpers = None, helpersOnce = False\<rparr>"
| get: "helpers_run lib p g \<Longrightarrow> helpers_run lib p (snd (GetHelpers lib g))"
| replace: "helpers_run lib p g \<Longrightarrow> fst (GetHelpers lib g) = Some h \<Longrightarrow>
    helpers_run lib q ((snd (GetHelpers lib g))\<lparr>Helpers := Some (SetRdmaProvider h q)\<rparr>)"

text \<open>However often the helpers are fetched, they are made once: they are never nil, a replaced RDMA provider stays, and the other
  providers are the default ones, so the methods ask the libraries.\<close>

lemma GetHelpers_once:
  assumes "helpers_run lib p g"
  shows "fst (GetHelpers lib g) = Some (SetRdmaProvider (NewHost lib) p)"
proof -
  have "(helpersOnce g \<longrightarrow> Helpers g = Some (SetRdmaProvider (NewHost lib) p)) \<and> (\<not> helpersOnce g \<longrightarrow> p = newRdmaProvider lib)"
    using assms by induction (auto simp: GetHelpers_def initHelpers_def SetRdmaProvider_def NewHost_def Let_def split: if_splits)
  then show ?thesis by (auto simp: GetHelpers_def initHelpers_def SetRdmaProvider_def NewHost_def Let_def)
qed

lemma shared_host_modes:
  assumes "helpers_run lib p g" "fst (GetHelpers lib g) = Some h"
  shows "GetNicSriovMode (host_os h os) a w =
      (case netlink_DevLinkGetDeviceByName lib ''pci'' a w of
         Ok dev \<Rightarrow> if dl_EswitchMode dev = [] then EswitchModeLegacy else dl_EswitchMode dev | _ \<Rightarrow> EswitchModeLegacy)"
    and "VerifyRDMACapability (host_os h os) a w \<longleftrightarrow> rp_GetRdmaDevicesForPcidev p a w \<noteq> []"
  using GetHelpers_once[OF assms(1)] assms(2)
  by (auto simp: GetNicSriovMode_def VerifyRDMACapability_def GetRDMADevicesForPCI_def host_os_def SetRdmaProvider_def NewHost_def
      defaultNetlinkProvider_def bind_res_def split: res.split)

lemma NewHostForTest_nil: "NewHostForTest lib None [] = NewHost lib" "NewHostForTest lib None [None] = NewHost lib"
  by (simp_all add: NewHostForTest_def NewHost_def)

end
