(* ===== verification/CommandLine.thy ===== *)
theory CommandLine
  imports Startup
begin

text \<open>
  The command line of \<^verbatim>\<open>cmd/dra-driver-sriov/main.go\<close> with the flags of the client (\<^verbatim>\<open>pkg/flags/kubeclient.go\<close>) and of
  logging (\<^verbatim>\<open>pkg/flags/logging.go\<close>). The logging library, its flags and its feature gate are a parameter. Flags are
  data; a flag's destination names the field that the command-line library assigns.
\<close>

section \<open>Flags\<close>

datatype ('q, 'v) flag_value = FString string | FInt int | FBool bool | FFloat 'q | FGeneric 'v

datatype 'v destination = NodeNameField | CdiRootField | KubeletRegistrarDirectoryPathField | KubeletPluginsDirectoryPathField |
  HealthcheckPortField | MetricsBindAddressField | DefaultInterfacePrefixField | EnableDeviceMetadataField | NamespaceField |
  ConfigurationModeField | KubeConfigField | KubeAPIQPSField | KubeAPIBurstField | ValueField 'v

record ('q, 'v) cli_flag =
  cf_Category :: string
  cf_Name :: string
  cf_Value :: "('q, 'v) flag_value"
  cf_Required :: bool
  cf_Destination :: "'v destination"
  cf_EnvVars :: "string list"

record 'v pflag =
  pf_flag_Name :: string
  pf_flag_Value :: 'v

section \<open>Logging\<close>

text \<open>The logging library: feature gates \<open>'g\<close>, configurations \<open>'l\<close> and flag values \<open>'v\<close>.\<close>

record ('g, 'l, 'v) logs_lib =
  featuregate_NewFeatureGate :: 'g
  logsapi_NewLoggingConfiguration :: 'l
  logsapi_ContextualLogging :: string
  logsapi_AddFeatureGates :: "'g \<Rightarrow> 'g res"
  featuregate_SetFromMap :: "(string, bool) gomap \<Rightarrow> 'g \<Rightarrow> 'g res"
  featuregate_Value :: "'g \<Rightarrow> 'v"
  logsapi_ValidateAndApply :: "'l \<Rightarrow> 'g \<Rightarrow> unit res"
  logsapi_AddFlags :: "'l \<Rightarrow> 'v pflag list"

record ('g, 'l) LoggingConfig =
  lc_featureGate :: 'g
  lc_config :: 'l

text \<open>\<^verbatim>\<open>utilruntime.Must\<close> panics with the error.\<close>

definition Must :: "'a res \<Rightarrow> 'a res" where
  "Must r = (case r of Err e \<Rightarrow> Panic ''Must'' | _ \<Rightarrow> r)"

definition NewLoggingConfig :: "('g, 'l, 'v) logs_lib \<Rightarrow> ('g, 'l) LoggingConfig res" where
  "NewLoggingConfig lib =
     bind_res (Must (logsapi_AddFeatureGates lib (featuregate_NewFeatureGate lib))) (\<lambda>fg1.
     bind_res (Must (featuregate_SetFromMap lib [(logsapi_ContextualLogging lib, True)] fg1)) (\<lambda>fg2.
     Ok \<lparr>lc_featureGate = fg2, lc_config = logsapi_NewLoggingConfiguration lib\<rparr>))"

definition Apply :: "('g, 'l, 'v) logs_lib \<Rightarrow> ('g, 'l) LoggingConfig \<Rightarrow> unit res" where
  "Apply lib l = logsapi_ValidateAndApply lib (lc_config l) (lc_featureGate l)"

definition pflagToCLI :: "'v pflag \<Rightarrow> string \<Rightarrow> ('q, 'v) cli_flag" where
  "pflagToCLI flag category = \<lparr>cf_Category = category, cf_Name = pf_flag_Name flag, cf_Value = FGeneric (pf_flag_Value flag),
     cf_Required = False, cf_Destination = ValueField (pf_flag_Value flag),
     cf_EnvVars = [ToUpper (ReplaceAll (pf_flag_Name flag) CHR ''-'' ''_'')]\<rparr>"

text \<open>\<open>visit\<close> is the order in which \<^verbatim>\<open>VisitAll\<close> goes through the flags of the set.\<close>

definition LoggingConfig_Flags :: "('g, 'l, 'v) logs_lib \<Rightarrow> ('v pflag list \<Rightarrow> 'v pflag list) \<Rightarrow> ('g, 'l) LoggingConfig \<Rightarrow> ('q, 'v) cli_flag list" where
  "LoggingConfig_Flags lib visit l =
     (let fs = logsapi_AddFlags lib (lc_config l) @ [\<lparr>pf_flag_Name = ''feature-gates'', pf_flag_Value = featuregate_Value lib (lc_featureGate l)\<rparr>]
      in map (\<lambda>flag. pflagToCLI flag ''Logging:'') (visit fs))"

section \<open>The application's flags\<close>

definition client_flags :: "('q :: {zero, numeral}, 'v) cli_flag list" where
  "client_flags =
     [\<lparr>cf_Category = ''Kubernetes client:'', cf_Name = ''kubeconfig'', cf_Value = FString [], cf_Required = False,
        cf_Destination = KubeConfigField, cf_EnvVars = [''KUBECONFIG'']\<rparr>,
      \<lparr>cf_Category = ''Kubernetes client:'', cf_Name = ''kube-api-qps'', cf_Value = FFloat 5, cf_Required = False,
        cf_Destination = KubeAPIQPSField, cf_EnvVars = [''KUBE_API_QPS'']\<rparr>,
      \<lparr>cf_Category = ''Kubernetes client:'', cf_Name = ''kube-api-burst'', cf_Value = FInt 10, cf_Required = False,
        cf_Destination = KubeAPIBurstField, cf_EnvVars = [''KUBE_API_BURST'']\<rparr>]"

definition driver_flag :: "string \<Rightarrow> ('q, 'v) flag_value \<Rightarrow> bool \<Rightarrow> 'v destination \<Rightarrow> string \<Rightarrow> ('q, 'v) cli_flag" where
  "driver_flag name v required dest env =
     \<lparr>cf_Category = [], cf_Name = name, cf_Value = v, cf_Required = required, cf_Destination = dest, cf_EnvVars = [env]\<rparr>"

definition driver_flags :: "string \<Rightarrow> string \<Rightarrow> ('q, 'v) cli_flag list" where
  "driver_flags registryDir pluginsDir =
     [driver_flag ''node-name'' (FString []) True NodeNameField ''NODE_NAME'',
      driver_flag ''cdi-root'' (FString ''/var/run/cdi'') False CdiRootField ''CDI_ROOT'',
      driver_flag ''kubelet-registrar-directory-path'' (FString registryDir) False KubeletRegistrarDirectoryPathField ''KUBELET_REGISTRAR_DIRECTORY_PATH'',
      driver_flag ''kubelet-plugins-directory-path'' (FString pluginsDir) False KubeletPluginsDirectoryPathField ''KUBELET_PLUGINS_DIRECTORY_PATH'',
      driver_flag ''healthcheck-port'' (FInt (- 1)) False HealthcheckPortField ''HEALTHCHECK_PORT'',
      driver_flag ''metrics-bind-address'' (FString ''0'') False MetricsBindAddressField ''METRICS_BIND_ADDRESS'',
      driver_flag ''default-interface-prefix'' (FString ''vfnet'') False DefaultInterfacePrefixField ''DEFAULT_INTERFACE_PREFIX'',
      driver_flag ''enable-device-metadata'' (FBool False) False EnableDeviceMetadataField ''ENABLE_DEVICE_METADATA'',
      driver_flag ''namespace'' (FString ''dra-driver-sriov'') False NamespaceField ''NAMESPACE'',
      driver_flag ''configuration-mode'' (FString ConfigurationModeStandalone) False ConfigurationModeField ''CONFIGURATION_MODE'']"

definition cliFlags :: "('g, 'l, 'v) logs_lib \<Rightarrow> ('v pflag list \<Rightarrow> 'v pflag list) \<Rightarrow> ('g, 'l) LoggingConfig \<Rightarrow> string \<Rightarrow> string \<Rightarrow>
    ('q :: {zero, numeral}, 'v) cli_flag list" where
  "cliFlags lib visit l registryDir pluginsDir = driver_flags registryDir pluginsDir @ client_flags @ LoggingConfig_Flags lib visit l"

section \<open>Names and environment variables\<close>

text \<open>The environment variable that belongs to a name. It is injective on names without upper-case letters and underscores.\<close>

definition env_name :: "string \<Rightarrow> string" where
  "env_name n = ToUpper (ReplaceAll n CHR ''-'' ''_'')"

definition flag_name :: "string \<Rightarrow> bool" where
  "flag_name n \<longleftrightarrow> (\<forall>c \<in> set n. c \<noteq> CHR ''_'' \<and> \<not> (65 \<le> (of_char c :: nat) \<and> (of_char c :: nat) \<le> 90))"

lemma of_upper_char:
  "(of_char (upper_char c) :: nat) = (if 97 \<le> (of_char c :: nat) \<and> (of_char c :: nat) \<le> 122 then of_char c - 32 else of_char c)"
  by (auto simp: upper_char_def of_char_of)

lemma env_name_inj:
  assumes "flag_name m" "flag_name n" "env_name m = env_name n" shows "m = n"
proof -
  define f where "f c = upper_char (if c = CHR ''-'' then CHR ''_'' else c)" for c
  have env: "env_name k = map f k" for k by (simp add: env_name_def ToUpper_def ReplaceAll_char f_def)
  have code: "(of_char CHR ''_'' :: nat) = 95" "(of_char CHR ''-'' :: nat) = 45" by simp_all
  have "inj_on f {c. c \<noteq> CHR ''_'' \<and> \<not> (65 \<le> (of_char c :: nat) \<and> (of_char c :: nat) \<le> 90)}"
  proof (rule inj_onI)
    fix c d assume c: "c \<in> {c. c \<noteq> CHR ''_'' \<and> \<not> (65 \<le> (of_char c :: nat) \<and> (of_char c :: nat) \<le> 90)}"
      and d: "d \<in> {c. c \<noteq> CHR ''_'' \<and> \<not> (65 \<le> (of_char c :: nat) \<and> (of_char c :: nat) \<le> 90)}" and eq: "f c = f d"
    have ne: "(of_char x :: nat) \<noteq> 95" if "x \<noteq> CHR ''_''" for x using that of_char_eq_iff[of x "CHR ''_''", where ?'a = nat] code(1) by simp
    have eq1: "(of_char x :: nat) = 45 \<longleftrightarrow> x = CHR ''-''" for x using of_char_eq_iff[of x "CHR ''-''", where ?'a = nat] code(2) by simp
    have "(of_char (f c) :: nat) = of_char (f d)" using eq by simp
    then have "(of_char c :: nat) = of_char d"
      using c d ne[of c] ne[of d] eq1[of c] eq1[of d] code by (auto simp: f_def of_upper_char simp del: of_char_eq_iff split: if_splits)
    then show "c = d" by (rule of_char_eqI)
  qed
  moreover have "set m \<union> set n \<subseteq> {c. c \<noteq> CHR ''_'' \<and> \<not> (65 \<le> (of_char c :: nat) \<and> (of_char c :: nat) \<le> 90)}"
    using assms(1,2) by (auto simp: flag_name_def)
  ultimately show ?thesis using map_inj_on[OF assms(3)[unfolded env]] inj_on_subset by blast
qed

text \<open>The names the driver and the client use, with their variables.\<close>

definition own_names :: "string list" where
  "own_names = map cf_Name (driver_flags [] [] @ (client_flags :: (int, unit) cli_flag list))"

lemma own_names_eval: "list_all flag_name own_names" "distinct own_names" "''feature-gates'' \<notin> set own_names" "flag_name ''feature-gates''"
  by code_simp+

lemma own_env_eval: "concat (map cf_EnvVars (driver_flags [] [] @ (client_flags :: (int, unit) cli_flag list))) = map env_name own_names"
  by code_simp

lemma own_flags:
  fixes r p :: string defines "fs \<equiv> driver_flags r p @ (client_flags :: ('q :: {zero, numeral}, 'v) cli_flag list)"
  shows "map cf_Name fs = own_names" "concat (map cf_EnvVars fs) = map env_name own_names" "distinct (map cf_Destination fs)"
proof -
  show "map cf_Name fs = own_names" by (simp add: fs_def own_names_def driver_flags_def client_flags_def driver_flag_def)
  have "concat (map cf_EnvVars fs) = concat (map cf_EnvVars (driver_flags [] [] @ (client_flags :: (int, unit) cli_flag list)))"
    by (simp add: fs_def driver_flags_def client_flags_def driver_flag_def)
  then show "concat (map cf_EnvVars fs) = map env_name own_names" by (simp only: own_env_eval)
  show "distinct (map cf_Destination fs)" by (simp add: fs_def driver_flags_def client_flags_def driver_flag_def)
qed

text \<open>What is documented of the flags of the logging library: their names are different, of the usual form and none of the driver's.\<close>

definition logging_flags_documented :: "('g, 'l, 'v) logs_lib \<Rightarrow> bool" where
  "logging_flags_documented lib \<longleftrightarrow> (\<forall>l. distinct (map pf_flag_Name (logsapi_AddFlags lib l)) \<and>
     (\<forall>f \<in> set (logsapi_AddFlags lib l). flag_name (pf_flag_Name f) \<and> pf_flag_Name f \<noteq> ''feature-gates'' \<and> pf_flag_Name f \<notin> set own_names))"

text \<open>No two flags of the application share a name, no two share an environment variable, and no two flags of the driver assign the same
  field.\<close>

lemma cliFlags_distinct:
  fixes lib :: "('g, 'l, 'v) logs_lib" and l :: "('g, 'l) LoggingConfig" and registryDir pluginsDir :: string
  assumes doc: "logging_flags_documented lib" and visit: "\<And>fs. mset (visit fs) = mset fs"
  defines "fs \<equiv> cliFlags lib visit l registryDir pluginsDir :: ('q :: {zero, numeral}, 'v) cli_flag list"
  shows "distinct (map cf_Name fs)" "concat (map cf_EnvVars fs) = map (env_name \<circ> cf_Name) fs" "distinct (concat (map cf_EnvVars fs))"
    "distinct (map cf_Destination (driver_flags registryDir pluginsDir @ (client_flags :: ('q, 'v) cli_flag list)))"
proof -
  define ls where "ls = visit (logsapi_AddFlags lib (lc_config l) @ [\<lparr>pf_flag_Name = ''feature-gates'', pf_flag_Value = featuregate_Value lib (lc_featureGate l)\<rparr>])"
  have m: "mset (map pf_flag_Name ls) = mset (map pf_flag_Name (logsapi_AddFlags lib (lc_config l)) @ [''feature-gates''])"
    unfolding ls_def mset_map visit by simp
  have fs: "fs = (driver_flags registryDir pluginsDir @ client_flags) @ map (\<lambda>f. pflagToCLI f ''Logging:'') ls"
    by (simp add: fs_def cliFlags_def LoggingConfig_Flags_def ls_def Let_def)
  have names: "map cf_Name fs = own_names @ map pf_flag_Name ls" unfolding fs map_append own_flags(1)[unfolded map_append] by (simp add: pflagToCLI_def)
  have ln: "set (map pf_flag_Name ls) = insert ''feature-gates'' (pf_flag_Name ` set (logsapi_AddFlags lib (lc_config l)))"
    using arg_cong[OF m, of set_mset] by (simp del: mset_map)
  have "distinct (map pf_flag_Name ls)"
    using mset_eq_imp_distinct_iff[OF m] doc by (auto simp: logging_flags_documented_def)
  moreover have "n \<notin> set own_names" if "n \<in> set (map pf_flag_Name ls)" for n
    using that doc own_names_eval(3) unfolding ln logging_flags_documented_def by blast
  ultimately show d: "distinct (map cf_Name fs)" unfolding names distinct_append using own_names_eval(2) by blast
  have "concat (map cf_EnvVars fs) = concat (map cf_EnvVars (driver_flags registryDir pluginsDir @ (client_flags :: ('q, 'v) cli_flag list))) @
      map env_name (map pf_flag_Name ls)"
    unfolding fs map_append[of _ "_ @ _"] concat_append by (simp add: pflagToCLI_def env_name_def comp_def concat_map_singleton)
  then show e: "concat (map cf_EnvVars fs) = map (env_name \<circ> cf_Name) fs"
    unfolding own_flags(2) map_map[symmetric] names by simp
  have "\<forall>n \<in> set (map cf_Name fs). flag_name n"
  proof
    fix n assume "n \<in> set (map cf_Name fs)"
    then consider "n \<in> set own_names" | "n \<in> set (map pf_flag_Name ls)" unfolding names by auto
    then show "flag_name n" using own_names_eval(1,4) doc unfolding ln logging_flags_documented_def list_all_iff by cases blast+
  qed
  then show "distinct (concat (map cf_EnvVars fs))"
    unfolding e map_map[symmetric] distinct_map[of env_name] using d env_name_inj by (auto intro: inj_onI)
qed (rule own_flags(3))

text \<open>The names of the library's flags in its current release satisfy the assumption.\<close>

lemma logging_flags_example:
  "logging_flags_documented (lib\<lparr>logsapi_AddFlags := \<lambda>_. map (\<lambda>n. \<lparr>pf_flag_Name = n, pf_flag_Value = ()\<rparr>)
     [''logging-format'', ''log-flush-frequency'', ''v'', ''vmodule'', ''log-text-split-stream'', ''log-text-info-buffer-size'',
      ''log-json-split-stream'', ''log-json-info-buffer-size'']\<rparr>)"
proof -
  have "list_all (\<lambda>n. flag_name n \<and> n \<noteq> ''feature-gates'' \<and> n \<notin> set own_names)
     [''logging-format'', ''log-flush-frequency'', ''v'', ''vmodule'', ''log-text-split-stream'', ''log-text-info-buffer-size'',
      ''log-json-split-stream'', ''log-json-info-buffer-size'']" by code_simp
  then show ?thesis by (simp add: logging_flags_documented_def)
qed

text \<open>The defaults of the flags are those of \<open>newApp_flags\<close>.\<close>

fun assign :: "'v destination \<Rightarrow> ('q, 'v) flag_value \<Rightarrow> Flags \<Rightarrow> Flags" where
  "assign NodeNameField (FString s) fl = fl\<lparr>fl_NodeName := s\<rparr>"
| "assign CdiRootField (FString s) fl = fl\<lparr>fl_CdiRoot := s\<rparr>"
| "assign KubeletRegistrarDirectoryPathField (FString s) fl = fl\<lparr>fl_KubeletRegistrarDirectoryPath := s\<rparr>"
| "assign KubeletPluginsDirectoryPathField (FString s) fl = fl\<lparr>fl_KubeletPluginsDirectoryPath := s\<rparr>"
| "assign HealthcheckPortField (FInt i) fl = fl\<lparr>fl_HealthcheckPort := i\<rparr>"
| "assign MetricsBindAddressField (FString s) fl = fl\<lparr>fl_MetricsBindAddress := s\<rparr>"
| "assign DefaultInterfacePrefixField (FString s) fl = fl\<lparr>fl_DefaultInterfacePrefix := s\<rparr>"
| "assign EnableDeviceMetadataField (FBool b) fl = fl\<lparr>fl_EnableDeviceMetadata := b\<rparr>"
| "assign NamespaceField (FString s) fl = fl\<lparr>fl_Namespace := s\<rparr>"
| "assign ConfigurationModeField (FString s) fl = fl\<lparr>fl_ConfigurationMode := s\<rparr>"
| "assign _ _ fl = fl"

lemma driver_flags_defaults:
  "foldl (\<lambda>fl f. assign (cf_Destination f) (cf_Value f) fl) fl (driver_flags registryDir pluginsDir) = newApp_flags registryDir pluginsDir []"
  by (cases fl) (simp add: driver_flags_def driver_flag_def newApp_flags_def)

end
