(* ===== verification/Copying.thy ===== *)
theory Copying
  imports Prelude
begin

text \<open>
  Copies of data structures in memory. A memory is a list of cells, an address is a position in it, and allocation appends a cell.
  The locale \<open>copier\<close> is the contract of a deep copy; the combinators below build copies of pairs, structs, arrays and
  maps, and keep the contract. A pointer to a struct is an array with one element.
\<close>

section \<open>The contract\<close>

type_synonym addr = nat

text \<open>\<open>view m x\<close> is the value that \<open>x\<close> leads to, \<open>None\<close> when an address in it is dangling, and \<open>cells m x\<close> the cells it consists of. A
  copy only appends cells, shows the same value and consists of the appended cells.\<close>

locale copier =
  fixes copy :: "'a \<Rightarrow> 'c list \<Rightarrow> 'a \<times> 'c list" and view :: "'c list \<Rightarrow> 'a \<Rightarrow> 'v option" and cells :: "'c list \<Rightarrow> 'a \<Rightarrow> addr set"
  assumes copies: "view m x = Some v \<Longrightarrow> copy x m = (y, m') \<Longrightarrow>
      (\<exists>new. m' = m @ new) \<and> view m' y = Some v \<and> cells m' y \<subseteq> {length m..<length m'}"
    and local_view: "view m x = Some v \<Longrightarrow> \<forall>i \<in> cells m x. i < length m' \<and> m' ! i = m ! i \<Longrightarrow>
      view m' x = Some v \<and> cells m' x = cells m x"
    and bounded: "view m x = Some v \<Longrightarrow> cells m x \<subseteq> {..<length m}"
begin

lemma extended: "view m x = Some v \<Longrightarrow> view (m @ new) x = Some v \<and> cells (m @ new) x = cells m x"
  using bounded by (intro local_view) (auto simp: nth_append)

lemma written: "view m x = Some v \<Longrightarrow> i \<notin> cells m x \<Longrightarrow> view (m[i := c]) x = Some v \<and> cells (m[i := c]) x = cells m x"
  using bounded[of m x v] by (intro local_view) (auto intro!: nth_list_update_neq)

text \<open>The original and its copy are equal, apart, and stay what they are under writes to the other.\<close>

lemma independent:
  assumes "view m x = Some v" "copy x m = (y, m')"
  shows "view m' x = Some v" "view m' y = Some v" "cells m' x \<inter> cells m' y = {}"
    "i \<notin> cells m' x \<Longrightarrow> view (m'[i := c]) x = Some v" "i \<notin> cells m' y \<Longrightarrow> view (m'[i := c]) y = Some v"
proof -
  obtain new where m': "m' = m @ new" and y: "view m' y = Some v" "cells m' y \<subseteq> {length m..<length m'}" using copies[OF assms] by blast
  show x: "view m' x = Some v" and "view m' y = Some v" using extended[OF assms(1), of new] y by (simp_all add: m')
  show "cells m' x \<inter> cells m' y = {}" using extended[OF assms(1), of new] bounded[OF assms(1)] y(2) by (fastforce simp: m')
  show "view (m'[i := c]) x = Some v" if "i \<notin> cells m' x" using written[OF x that] by blast
  show "view (m'[i := c]) y = Some v" if "i \<notin> cells m' y" using written[OF y(1) that] by blast
qed

end

section \<open>Pairs and structs\<close>

definition copy_pair :: "('a \<Rightarrow> 'c list \<Rightarrow> 'a \<times> 'c list) \<Rightarrow> ('b \<Rightarrow> 'c list \<Rightarrow> 'b \<times> 'c list) \<Rightarrow> 'a \<times> 'b \<Rightarrow> 'c list \<Rightarrow> ('a \<times> 'b) \<times> 'c list" where
  "copy_pair f g p m = (let (x, m1) = f (fst p) m; (y, m2) = g (snd p) m1 in ((x, y), m2))"

definition view_pair :: "('c list \<Rightarrow> 'a \<Rightarrow> 'v option) \<Rightarrow> ('c list \<Rightarrow> 'b \<Rightarrow> 'w option) \<Rightarrow> 'c list \<Rightarrow> 'a \<times> 'b \<Rightarrow> ('v \<times> 'w) option" where
  "view_pair f g m p = Option.bind (f m (fst p)) (\<lambda>v. Option.bind (g m (snd p)) (\<lambda>w. Some (v, w)))"

definition cells_pair :: "('c list \<Rightarrow> 'a \<Rightarrow> addr set) \<Rightarrow> ('c list \<Rightarrow> 'b \<Rightarrow> addr set) \<Rightarrow> 'c list \<Rightarrow> 'a \<times> 'b \<Rightarrow> addr set" where
  "cells_pair f g m p = f m (fst p) \<union> g m (snd p)"

lemma view_pair_Some: "view_pair f g m p = Some v \<longleftrightarrow> f m (fst p) = Some (fst v) \<and> g m (snd p) = Some (snd v)"
  by (cases v) (auto simp: view_pair_def bind_eq_Some_conv)

lemma copier_pair:
  assumes "copier f fv fc" "copier g gv gc"
  shows "copier (copy_pair f g) (view_pair fv gv) (cells_pair fc gc)"
proof unfold_locales
  fix m p v q m'
  assume v: "view_pair fv gv m p = Some v" and run: "copy_pair f g p m = (q, m')"
  obtain x m1 where x: "f (fst p) m = (x, m1)" by (metis prod.exhaust)
  obtain y where y: "g (snd p) m1 = (y, m')" and q: "q = (x, y)" using run by (auto simp: copy_pair_def x split: prod.splits)
  have v1: "fv m (fst p) = Some (fst v)" "gv m (snd p) = Some (snd v)" using v by (simp_all add: view_pair_Some)
  obtain n1 where n1: "m1 = m @ n1" "fv m1 x = Some (fst v)" "fc m1 x \<subseteq> {length m..<length m1}" using copier.copies[OF assms(1) v1(1) x] by blast
  have "gv m1 (snd p) = Some (snd v)" using copier.extended[OF assms(2) v1(2)] n1(1) by simp
  then obtain n2 where n2: "m' = m1 @ n2" "gv m' y = Some (snd v)" "gc m' y \<subseteq> {length m1..<length m'}" using copier.copies[OF assms(2) _ y] by blast
  have "fv m' x = Some (fst v)" "fc m' x = fc m1 x" using copier.extended[OF assms(1) n1(2)] n2(1) by simp_all
  then show "(\<exists>new. m' = m @ new) \<and> view_pair fv gv m' q = Some v \<and> cells_pair fc gc m' q \<subseteq> {length m..<length m'}"
    using n1 n2 by (fastforce simp: q view_pair_Some cells_pair_def)
next
  fix m p v m'
  assume v: "view_pair fv gv m p = Some v" and same: "\<forall>i \<in> cells_pair fc gc m p. i < length m' \<and> m' ! i = m ! i"
  then show "view_pair fv gv m' p = Some v \<and> cells_pair fc gc m' p = cells_pair fc gc m p"
    using copier.local_view[OF assms(1), of m "fst p" "fst v" m'] copier.local_view[OF assms(2), of m "snd p" "snd v" m']
    by (simp add: view_pair_Some cells_pair_def)
next
  fix m p v
  assume "view_pair fv gv m p = Some v"
  then show "cells_pair fc gc m p \<subseteq> {..<length m}"
    using copier.bounded[OF assms(1), of m "fst p" "fst v"] copier.bounded[OF assms(2), of m "snd p" "snd v"]
    by (simp add: view_pair_Some cells_pair_def)
qed

text \<open>A value without addresses.\<close>

lemma copier_plain: "copier (\<lambda>x m. (x, m)) (\<lambda>m x. Some x) (\<lambda>m x. {})"
  by unfold_locales auto

text \<open>A struct: \<open>get\<close> reads the fields that hold addresses, \<open>put\<close> replaces them in the shallow copy, \<open>rest\<close> is everything else.\<close>

definition view_struct :: "('c list \<Rightarrow> 'b \<Rightarrow> 'v option) \<Rightarrow> ('a \<Rightarrow> 'b) \<Rightarrow> ('a \<Rightarrow> 'r) \<Rightarrow> 'c list \<Rightarrow> 'a \<Rightarrow> ('r \<times> 'v) option" where
  "view_struct f get rest m x = map_option (Pair (rest x)) (f m (get x))"

lemma copier_struct:
  assumes "copier f fv fc" "\<And>x y. get (put x y) = y" "\<And>x y. rest (put x y) = rest x"
    and "\<And>x m. copy x m = (let (y, m') = f (get x) m in (put x y, m'))"
  shows "copier copy (view_struct fv get rest) (\<lambda>m x. fc m (get x))"
proof unfold_locales
  fix m x v z m'
  assume v: "view_struct fv get rest m x = Some v" and run: "copy x m = (z, m')"
  obtain u where u: "fv m (get x) = Some u" "v = (rest x, u)" using v by (auto simp: view_struct_def)
  obtain y where y: "f (get x) m = (y, m')" "z = put x y" using run by (auto simp: assms(4) split: prod.splits)
  show "(\<exists>new. m' = m @ new) \<and> view_struct fv get rest m' z = Some v \<and> fc m' (get z) \<subseteq> {length m..<length m'}"
    using copier.copies[OF assms(1) u(1) y(1)] by (simp add: view_struct_def y(2) u(2) assms(2,3))
next
  fix m x v m'
  assume "view_struct fv get rest m x = Some v" "\<forall>i \<in> fc m (get x). i < length m' \<and> m' ! i = m ! i"
  then show "view_struct fv get rest m' x = Some v \<and> fc m' (get x) = fc m (get x)"
    using copier.local_view[OF assms(1), of m "get x" _ m'] by (auto simp: view_struct_def)
next
  fix m x v
  assume "view_struct fv get rest m x = Some v"
  then show "fc m (get x) \<subseteq> {..<length m}" using copier.bounded[OF assms(1), of m "get x"] by (auto simp: view_struct_def)
qed

section \<open>Arrays and maps\<close>

text \<open>An address leads to a cell with elements; \<open>dest\<close> reads them, \<open>None\<close> when the cell is of another type.\<close>

definition elements :: "('c \<Rightarrow> 'e list option) \<Rightarrow> 'c list \<Rightarrow> addr \<Rightarrow> 'e list option" where
  "elements dest m a = (if a < length m then dest (m ! a) else None)"

text \<open>The loop that copies the elements one by one: \<open>content done n\<close> is the cell when \<open>done\<close> are copied and \<open>n\<close> are left.\<close>

fun copy_loop :: "('e \<Rightarrow> 'c list \<Rightarrow> 'e \<times> 'c list) \<Rightarrow> ('e list \<Rightarrow> nat \<Rightarrow> 'c) \<Rightarrow> addr \<Rightarrow> 'e list \<Rightarrow> 'e list \<Rightarrow> 'c list \<Rightarrow> 'c list" where
  "copy_loop f content b copied [] m = m"
| "copy_loop f content b copied (x # xs) m =
     (let (y, m1) = f x m in copy_loop f content b (copied @ [y]) xs (m1[b := content (copied @ [y]) (length xs)]))"

definition copy_array :: "('e \<Rightarrow> 'c list \<Rightarrow> 'e \<times> 'c list) \<Rightarrow> ('e list \<Rightarrow> nat \<Rightarrow> 'c) \<Rightarrow> ('c \<Rightarrow> 'e list option) \<Rightarrow> addr option \<Rightarrow> 'c list \<Rightarrow>
    addr option \<times> 'c list" where
  "copy_array f content dest p m =
     (case Option.bind p (elements dest m) of
        None \<Rightarrow> (None, m)
      | Some xs \<Rightarrow> (Some (length m), copy_loop f content (length m) [] xs (m @ [content [] (length xs)])))"

definition view_array :: "('c list \<Rightarrow> 'e \<Rightarrow> 'v option) \<Rightarrow> ('c \<Rightarrow> 'e list option) \<Rightarrow> 'c list \<Rightarrow> addr option \<Rightarrow> 'v list option option" where
  "view_array v dest m p =
     (case p of
        None \<Rightarrow> Some None
      | Some a \<Rightarrow> Option.bind (elements dest m a) (\<lambda>xs. map_option Some (those (map (v m) xs))))"

definition cells_array :: "('c list \<Rightarrow> 'e \<Rightarrow> addr set) \<Rightarrow> ('c \<Rightarrow> 'e list option) \<Rightarrow> 'c list \<Rightarrow> addr option \<Rightarrow> addr set" where
  "cells_array cs dest m p =
     (case p of
        None \<Rightarrow> {}
      | Some a \<Rightarrow> insert a (case elements dest m a of None \<Rightarrow> {} | Some xs \<Rightarrow> \<Union>x \<in> set xs. cs m x))"

lemma those_map: "those (map f xs) = Some vs \<longleftrightarrow> list_all2 (\<lambda>x w. f x = Some w) xs vs"
  by (induction xs arbitrary: vs) (auto simp: list_all2_Cons1 split: option.split)

lemma list_all2_element: "list_all2 P xs ys \<Longrightarrow> x \<in> set xs \<Longrightarrow> \<exists>y. P x y"
  by (induction rule: list_all2_induct) auto

lemma view_array_Some:
  "view_array v dest m (Some a) = Some u \<longleftrightarrow>
     (\<exists>xs vs. elements dest m a = Some xs \<and> u = Some vs \<and> list_all2 (\<lambda>x w. v m x = Some w) xs vs)"
  by (auto simp: view_array_def bind_eq_Some_conv those_map)

text \<open>The loop keeps what is before the new cell, and the elements it has copied.\<close>

lemma copy_loop_spec:
  assumes cp: "copier f v cs" and b: "length m0 = b"
  shows "length m0 < length m \<Longrightarrow> take b m = m0 \<Longrightarrow> list_all2 (\<lambda>x w. v m0 x = Some w) xs vs \<Longrightarrow>
    list_all2 (\<lambda>y w. v m y = Some w \<and> cs m y \<subseteq> {b<..<length m}) ys us \<Longrightarrow> m ! b = content ys (length xs) \<Longrightarrow>
    copy_loop f content b ys xs m = m' \<Longrightarrow>
    \<exists>zs. length m0 < length m' \<and> take b m' = m0 \<and> m' ! b = content zs 0 \<and>
      list_all2 (\<lambda>y w. v m' y = Some w \<and> cs m' y \<subseteq> {b<..<length m'}) zs (us @ vs)"
proof (induction xs arbitrary: vs ys us m)
  case (Cons x xs)
  obtain w ws where vs: "vs = w # ws" "v m0 x = Some w" "list_all2 (\<lambda>x w. v m0 x = Some w) xs ws"
    using Cons.prems(3) by (auto simp: list_all2_Cons1)
  obtain y m1 where y: "f x m = (y, m1)" by (metis prod.exhaust)
  have m: "m = m0 @ drop b m" using Cons.prems(2) by (metis append_take_drop_id)
  have "v m x = Some w" using copier.extended[OF cp vs(2), of "drop b m"] m by simp
  then obtain new where new: "m1 = m @ new" "v m1 y = Some w" "cs m1 y \<subseteq> {length m..<length m1}" using copier.copies[OF cp _ y] by blast
  define m2 where "m2 = m1[b := content (ys @ [y]) (length xs)]"
  have len: "length m2 = length m1" "length m \<le> length m1" "b < length m" using Cons.prems(1) b by (simp_all add: m2_def new(1))
  have keep: "v m2 z = Some u \<and> cs m2 z \<subseteq> {b<..<length m2}" if "v m1 z = Some u" "cs m1 z \<subseteq> {b<..<length m1}" for z u
  proof -
    have "b \<notin> cs m1 z" using that(2) by auto
    then show ?thesis using copier.written[OF cp that(1)] that(2) by (simp add: m2_def)
  qed
  have old: "v m1 z = Some u \<and> cs m1 z \<subseteq> {b<..<length m1}" if "v m z = Some u \<and> cs m z \<subseteq> {b<..<length m}" for z u
    using copier.extended[OF cp conjunct1[OF that], of new] that len by (auto simp: new(1))
  have "list_all2 (\<lambda>y w. v m2 y = Some w \<and> cs m2 y \<subseteq> {b<..<length m2}) ys us"
    using Cons.prems(4) by (rule list_all2_mono) (use keep old in blast)
  moreover have "cs m1 y \<subseteq> {b<..<length m1}" using new(3) len by auto
  ultimately have "list_all2 (\<lambda>y w. v m2 y = Some w \<and> cs m2 y \<subseteq> {b<..<length m2}) (ys @ [y]) (us @ [w])"
    using keep[OF new(2)] by (simp add: list_all2_appendI)
  moreover have "take b m2 = m0" using Cons.prems(2) len by (simp add: m2_def new(1))
  moreover have "m2 ! b = content (ys @ [y]) (length xs)" using len by (simp add: m2_def new(1))
  moreover have "copy_loop f content b (ys @ [y]) xs m2 = m'" using Cons.prems(6) y by (simp add: m2_def)
  ultimately show ?case using Cons.IH[of m2 ws "ys @ [y]" "us @ [w]"] vs(1,3) len b by simp
qed auto

lemma copier_array:
  assumes cp: "copier f v cs" and dest: "\<And>xs. dest (content xs 0) = Some xs"
  shows "copier (copy_array f content dest) (view_array v dest) (cells_array cs dest)"
proof unfold_locales
  fix m p u q m'
  assume u: "view_array v dest m p = Some u" and run: "copy_array f content dest p m = (q, m')"
  show "(\<exists>new. m' = m @ new) \<and> view_array v dest m' q = Some u \<and> cells_array cs dest m' q \<subseteq> {length m..<length m'}"
  proof (cases p)
    case None
    then show ?thesis using u run by (auto simp: view_array_def copy_array_def cells_array_def)
  next
    case (Some a)
    then obtain xs vs where xs: "elements dest m a = Some xs" "u = Some vs" "list_all2 (\<lambda>x w. v m x = Some w) xs vs"
      using u by (auto simp: view_array_Some)
    have q: "q = Some (length m)" and m': "copy_loop f content (length m) [] xs (m @ [content [] (length xs)]) = m'"
      using run Some xs(1) by (simp_all add: copy_array_def)
    obtain zs where zs: "length m < length m'" "take (length m) m' = m" "m' ! length m = content zs 0"
      "list_all2 (\<lambda>y w. v m' y = Some w \<and> cs m' y \<subseteq> {length m<..<length m'}) zs vs"
      using copy_loop_spec[OF cp refl _ _ xs(3) _ _ m', of "[]"] by auto
    have el: "elements dest m' (length m) = Some zs" using zs(1,3) dest by (simp add: elements_def)
    have "list_all2 (\<lambda>y w. v m' y = Some w) zs vs" using zs(4) by (rule list_all2_mono) simp
    moreover have "cs m' y \<subseteq> {length m<..<length m'}" if "y \<in> set zs" for y
      using list_all2_element[OF zs(4) that] by blast
    moreover have "m' = m @ drop (length m) m'" using zs(2) by (metis append_take_drop_id)
    ultimately show ?thesis using el xs(2) zs(1) by (fastforce simp: q view_array_Some cells_array_def)
  qed
next
  fix m p u m'
  assume u: "view_array v dest m p = Some u" and same: "\<forall>i \<in> cells_array cs dest m p. i < length m' \<and> m' ! i = m ! i"
  show "view_array v dest m' p = Some u \<and> cells_array cs dest m' p = cells_array cs dest m p"
  proof (cases p)
    case (Some a)
    then obtain xs vs where xs: "elements dest m a = Some xs" "u = Some vs" "list_all2 (\<lambda>x w. v m x = Some w) xs vs"
      using u by (auto simp: view_array_Some)
    have el: "elements dest m' a = Some xs" using same xs(1) by (auto simp: Some cells_array_def elements_def split: if_splits)
    have each: "v m' x = Some w \<and> cs m' x = cs m x" if "x \<in> set xs" "v m x = Some w" for x w
      using copier.local_view[OF cp that(2), of m'] same that(1) xs(1) by (auto simp: Some cells_array_def)
    have "list_all2 (\<lambda>x w. v m' x = Some w) xs vs" using xs(3) each by (auto simp: list_all2_conv_all_nth)
    moreover have "cs m' x = cs m x" if "x \<in> set xs" for x
      using each[OF that] list_all2_element[OF xs(3) that] by blast
    ultimately show ?thesis using el xs by (auto simp: Some view_array_Some cells_array_def)
  qed (use u in \<open>simp add: view_array_def cells_array_def\<close>)
next
  fix m p u
  assume u: "view_array v dest m p = Some u"
  show "cells_array cs dest m p \<subseteq> {..<length m}"
  proof (cases p)
    case (Some a)
    then obtain xs vs where xs: "elements dest m a = Some xs" "list_all2 (\<lambda>x w. v m x = Some w) xs vs" using u by (auto simp: view_array_Some)
    have "cs m x \<subseteq> {..<length m}" if "x \<in> set xs" for x
      using list_all2_element[OF xs(2) that] copier.bounded[OF cp, of m x] by blast
    then show ?thesis using xs(1) by (auto simp: Some cells_array_def elements_def split: if_splits)
  qed (simp add: cells_array_def)
qed

end
