(* ===== verification/DeepCopy.thy ===== *)
theory DeepCopy
  imports Api Copying
begin

text \<open>
  The deep copies of the API types (\<^verbatim>\<open>pkg/api/sriovdra/v1alpha1/zz_generated.deepcopy.go\<close> and
  \<^verbatim>\<open>pkg/api/virtualfunction/v1alpha1/zz_generated.deepcopy.go\<close>), over a memory of cells. The client's cache hands out the
  objects it keeps by copying them; the theory shows that a copy is equal to its original and shares no memory with it.
  The structs of the Kubernetes libraries (\<^verbatim>\<open>ObjectMeta\<close>, \<^verbatim>\<open>ListMeta\<close>, the selectors, \<^verbatim>\<open>DeviceAttribute\<close>) have a type \<open>'l\<close> and
  copy functions that are parameters, which meet the contract \<open>copier\<close> of \<open>Copying\<close>.
\<close>

section \<open>Objects in memory\<close>

text \<open>Pointers, slices and maps are addresses, and \<open>None\<close> is nil.\<close>

record mResourceFilter =
  mf_Vendors :: "addr option"
  mf_Devices :: "addr option"
  mf_PciAddresses :: "addr option"
  mf_PfNames :: "addr option"
  mf_PfPciAddresses :: "addr option"
  mf_Drivers :: "addr option"
  mf_LinkType :: string

record mConfig =
  mc_DeviceAttributesSelector :: "addr option"
  mc_ResourceFilters :: "addr option"

record mPolicySpec =
  ms_NodeSelector :: "addr option"
  ms_Configs :: "addr option"

record 'l mPolicy =
  mp_TypeMeta :: "string \<times> string"
  mp_ObjectMeta :: 'l
  mp_Spec :: mPolicySpec

record 'l mPolicyList =
  ml_TypeMeta :: "string \<times> string"
  ml_ListMeta :: 'l
  ml_Items :: "addr option"

record mAttributesSpec =
  mas_Attributes :: "addr option"

record 'l mDeviceAttributes =
  md_TypeMeta :: "string \<times> string"
  md_ObjectMeta :: 'l
  md_Spec :: mAttributesSpec

record 'l mDeviceAttributesList =
  mdl_TypeMeta :: "string \<times> string"
  mdl_ListMeta :: 'l
  mdl_Items :: "addr option"

text \<open>A cell is the array of a slice or the target of a pointer, which is an array of one element, or a map.\<close>

datatype 'l cell = Strings "string list" | Libs "'l list" | Filters "mResourceFilter list" | Configs "mConfig list" | PolicySpecs "mPolicySpec list"
  | Policies "'l mPolicy list" | PolicyLists "'l mPolicyList list" | AttributeMap "(QualifiedName, 'l) gomap" | AttributesSpecs "mAttributesSpec list"
  | AttributesObjects "'l mDeviceAttributes list" | AttributesLists "'l mDeviceAttributesList list" | VfConfigs "VfConfig list"

type_synonym 'l memory = "'l cell list"

definition strings_in :: "'l cell \<Rightarrow> string list option" where
  "strings_in c = (case c of Strings xs \<Rightarrow> Some xs | _ \<Rightarrow> None)"

definition libs_in :: "'l cell \<Rightarrow> 'l list option" where
  "libs_in c = (case c of Libs xs \<Rightarrow> Some xs | _ \<Rightarrow> None)"

definition filters_in :: "'l cell \<Rightarrow> mResourceFilter list option" where
  "filters_in c = (case c of Filters xs \<Rightarrow> Some xs | _ \<Rightarrow> None)"

definition configs_in :: "'l cell \<Rightarrow> mConfig list option" where
  "configs_in c = (case c of Configs xs \<Rightarrow> Some xs | _ \<Rightarrow> None)"

definition policy_specs_in :: "'l cell \<Rightarrow> mPolicySpec list option" where
  "policy_specs_in c = (case c of PolicySpecs xs \<Rightarrow> Some xs | _ \<Rightarrow> None)"

definition policies_in :: "'l cell \<Rightarrow> 'l mPolicy list option" where
  "policies_in c = (case c of Policies xs \<Rightarrow> Some xs | _ \<Rightarrow> None)"

definition policy_lists_in :: "'l cell \<Rightarrow> 'l mPolicyList list option" where
  "policy_lists_in c = (case c of PolicyLists xs \<Rightarrow> Some xs | _ \<Rightarrow> None)"

definition attribute_map_in :: "'l cell \<Rightarrow> (QualifiedName, 'l) gomap option" where
  "attribute_map_in c = (case c of AttributeMap xs \<Rightarrow> Some xs | _ \<Rightarrow> None)"

definition attributes_specs_in :: "'l cell \<Rightarrow> mAttributesSpec list option" where
  "attributes_specs_in c = (case c of AttributesSpecs xs \<Rightarrow> Some xs | _ \<Rightarrow> None)"

definition attributes_objects_in :: "'l cell \<Rightarrow> 'l mDeviceAttributes list option" where
  "attributes_objects_in c = (case c of AttributesObjects xs \<Rightarrow> Some xs | _ \<Rightarrow> None)"

definition attributes_lists_in :: "'l cell \<Rightarrow> 'l mDeviceAttributesList list option" where
  "attributes_lists_in c = (case c of AttributesLists xs \<Rightarrow> Some xs | _ \<Rightarrow> None)"

definition vf_configs_in :: "'l cell \<Rightarrow> VfConfig list option" where
  "vf_configs_in c = (case c of VfConfigs xs \<Rightarrow> Some xs | _ \<Rightarrow> None)"

lemmas cell_defs = strings_in_def libs_in_def filters_in_def configs_in_def policy_specs_in_def policies_in_def policy_lists_in_def
  attribute_map_in_def attributes_specs_in_def attributes_objects_in_def attributes_lists_in_def vf_configs_in_def

section \<open>Copying slices, pointers and maps\<close>

type_synonym ('a, 'l) copying = "'a \<Rightarrow> 'l memory \<Rightarrow> 'a \<times> 'l memory"

text \<open>\<^verbatim>\<open>make\<close> and \<^verbatim>\<open>copy\<close> of a slice of strings.\<close>

definition copy_strings :: "(addr option, 'l) copying" where
  "copy_strings p m = (case Option.bind p (elements strings_in m) of None \<Rightarrow> (None, m) | Some xs \<Rightarrow> (Some (length m), m @ [Strings xs]))"

text \<open>\<^verbatim>\<open>make\<close> of zero values, then \<^verbatim>\<open>DeepCopyInto\<close> element by element. With one element it is \<^verbatim>\<open>new\<close> and \<^verbatim>\<open>DeepCopyInto\<close>.\<close>

definition copy_slice :: "('e, 'l) copying \<Rightarrow> ('e list \<Rightarrow> 'l cell) \<Rightarrow> ('l cell \<Rightarrow> 'e list option) \<Rightarrow> 'e \<Rightarrow> (addr option, 'l) copying" where
  "copy_slice f mk dest zero = copy_array f (\<lambda>copied n. mk (copied @ replicate n zero)) dest"

text \<open>The entries of a map, in iteration order.\<close>

fun copy_entries :: "('l, 'l) copying \<Rightarrow> addr \<Rightarrow> (QualifiedName, 'l) gomap \<Rightarrow> (QualifiedName, 'l) gomap \<Rightarrow> 'l memory \<Rightarrow> 'l memory" where
  "copy_entries f b out [] m = m"
| "copy_entries f b out ((key, val) # rest) m =
     (let (val', m1) = f val m; out' = mput out key val' in copy_entries f b out' rest (m1[b := AttributeMap out']))"

definition copy_map :: "('l, 'l) copying \<Rightarrow> (addr option, 'l) copying" where
  "copy_map f p m =
     (case Option.bind p (elements attribute_map_in m) of
        None \<Rightarrow> (None, m)
      | Some xs \<Rightarrow> (Some (length m), copy_entries f (length m) [] xs (m @ [AttributeMap []])))"

text \<open>The copy functions of the libraries and the zero value of their structs.\<close>

record 'l lib_copies =
  lib_zero :: 'l
  ObjectMeta_DeepCopyInto :: "('l, 'l) copying"
  ListMeta_DeepCopyInto :: "('l, 'l) copying"
  LabelSelector_DeepCopyInto :: "('l, 'l) copying"
  NodeSelector_DeepCopyInto :: "('l, 'l) copying"
  DeviceAttribute_DeepCopy :: "('l, 'l) copying"

section \<open>The copies of the API types\<close>

definition ResourceFilter_DeepCopyInto :: "(mResourceFilter, 'l) copying" where
  "ResourceFilter_DeepCopyInto inn m =
     (let out = inn;
          (a1, m1) = copy_strings (mf_Vendors inn) m; out = out\<lparr>mf_Vendors := a1\<rparr>;
          (a2, m2) = copy_strings (mf_Devices inn) m1; out = out\<lparr>mf_Devices := a2\<rparr>;
          (a3, m3) = copy_strings (mf_PciAddresses inn) m2; out = out\<lparr>mf_PciAddresses := a3\<rparr>;
          (a4, m4) = copy_strings (mf_PfNames inn) m3; out = out\<lparr>mf_PfNames := a4\<rparr>;
          (a5, m5) = copy_strings (mf_PfPciAddresses inn) m4; out = out\<lparr>mf_PfPciAddresses := a5\<rparr>;
          (a6, m6) = copy_strings (mf_Drivers inn) m5; out = out\<lparr>mf_Drivers := a6\<rparr>
      in (out, m6))"

definition zero_filter :: mResourceFilter where
  "zero_filter = \<lparr>mf_Vendors = None, mf_Devices = None, mf_PciAddresses = None, mf_PfNames = None, mf_PfPciAddresses = None,
     mf_Drivers = None, mf_LinkType = []\<rparr>"

definition ResourceFilter_DeepCopy :: "(addr option, 'l) copying" where
  "ResourceFilter_DeepCopy = copy_slice ResourceFilter_DeepCopyInto Filters filters_in zero_filter"

definition Config_DeepCopyInto :: "'l lib_copies \<Rightarrow> (mConfig, 'l) copying" where
  "Config_DeepCopyInto lib inn m =
     (let out = inn;
          (a1, m1) = copy_slice (LabelSelector_DeepCopyInto lib) Libs libs_in (lib_zero lib) (mc_DeviceAttributesSelector inn) m;
          out = out\<lparr>mc_DeviceAttributesSelector := a1\<rparr>;
          (a2, m2) = copy_slice ResourceFilter_DeepCopyInto Filters filters_in zero_filter (mc_ResourceFilters inn) m1;
          out = out\<lparr>mc_ResourceFilters := a2\<rparr>
      in (out, m2))"

definition zero_config :: mConfig where
  "zero_config = \<lparr>mc_DeviceAttributesSelector = None, mc_ResourceFilters = None\<rparr>"

definition Config_DeepCopy :: "'l lib_copies \<Rightarrow> (addr option, 'l) copying" where
  "Config_DeepCopy lib = copy_slice (Config_DeepCopyInto lib) Configs configs_in zero_config"

definition SriovResourcePolicySpec_DeepCopyInto :: "'l lib_copies \<Rightarrow> (mPolicySpec, 'l) copying" where
  "SriovResourcePolicySpec_DeepCopyInto lib inn m =
     (let out = inn;
          (a1, m1) = copy_slice (NodeSelector_DeepCopyInto lib) Libs libs_in (lib_zero lib) (ms_NodeSelector inn) m;
          out = out\<lparr>ms_NodeSelector := a1\<rparr>;
          (a2, m2) = copy_slice (Config_DeepCopyInto lib) Configs configs_in zero_config (ms_Configs inn) m1;
          out = out\<lparr>ms_Configs := a2\<rparr>
      in (out, m2))"

definition zero_policy_spec :: mPolicySpec where
  "zero_policy_spec = \<lparr>ms_NodeSelector = None, ms_Configs = None\<rparr>"

definition SriovResourcePolicySpec_DeepCopy :: "'l lib_copies \<Rightarrow> (addr option, 'l) copying" where
  "SriovResourcePolicySpec_DeepCopy lib = copy_slice (SriovResourcePolicySpec_DeepCopyInto lib) PolicySpecs policy_specs_in zero_policy_spec"

definition SriovResourcePolicy_DeepCopyInto :: "'l lib_copies \<Rightarrow> ('l mPolicy, 'l) copying" where
  "SriovResourcePolicy_DeepCopyInto lib inn m =
     (let out = inn; out = out\<lparr>mp_TypeMeta := mp_TypeMeta inn\<rparr>;
          (o1, m1) = ObjectMeta_DeepCopyInto lib (mp_ObjectMeta inn) m; out = out\<lparr>mp_ObjectMeta := o1\<rparr>;
          (s2, m2) = SriovResourcePolicySpec_DeepCopyInto lib (mp_Spec inn) m1; out = out\<lparr>mp_Spec := s2\<rparr>
      in (out, m2))"

definition zero_policy :: "'l lib_copies \<Rightarrow> 'l mPolicy" where
  "zero_policy lib = \<lparr>mp_TypeMeta = ([], []), mp_ObjectMeta = lib_zero lib, mp_Spec = zero_policy_spec\<rparr>"

definition SriovResourcePolicy_DeepCopy :: "'l lib_copies \<Rightarrow> (addr option, 'l) copying" where
  "SriovResourcePolicy_DeepCopy lib = copy_slice (SriovResourcePolicy_DeepCopyInto lib) Policies policies_in (zero_policy lib)"

definition SriovResourcePolicyList_DeepCopyInto :: "'l lib_copies \<Rightarrow> ('l mPolicyList, 'l) copying" where
  "SriovResourcePolicyList_DeepCopyInto lib inn m =
     (let out = inn; out = out\<lparr>ml_TypeMeta := ml_TypeMeta inn\<rparr>;
          (l1, m1) = ListMeta_DeepCopyInto lib (ml_ListMeta inn) m; out = out\<lparr>ml_ListMeta := l1\<rparr>;
          (a2, m2) = copy_slice (SriovResourcePolicy_DeepCopyInto lib) Policies policies_in (zero_policy lib) (ml_Items inn) m1;
          out = out\<lparr>ml_Items := a2\<rparr>
      in (out, m2))"

definition zero_policy_list :: "'l lib_copies \<Rightarrow> 'l mPolicyList" where
  "zero_policy_list lib = \<lparr>ml_TypeMeta = ([], []), ml_ListMeta = lib_zero lib, ml_Items = None\<rparr>"

definition SriovResourcePolicyList_DeepCopy :: "'l lib_copies \<Rightarrow> (addr option, 'l) copying" where
  "SriovResourcePolicyList_DeepCopy lib = copy_slice (SriovResourcePolicyList_DeepCopyInto lib) PolicyLists policy_lists_in (zero_policy_list lib)"

definition DeviceAttributesSpec_DeepCopyInto :: "'l lib_copies \<Rightarrow> (mAttributesSpec, 'l) copying" where
  "DeviceAttributesSpec_DeepCopyInto lib inn m =
     (let out = inn; (a1, m1) = copy_map (DeviceAttribute_DeepCopy lib) (mas_Attributes inn) m; out = out\<lparr>mas_Attributes := a1\<rparr>
      in (out, m1))"

definition DeviceAttributesSpec_DeepCopy :: "'l lib_copies \<Rightarrow> (addr option, 'l) copying" where
  "DeviceAttributesSpec_DeepCopy lib =
     copy_slice (DeviceAttributesSpec_DeepCopyInto lib) AttributesSpecs attributes_specs_in \<lparr>mas_Attributes = None\<rparr>"

definition DeviceAttributes_DeepCopyInto :: "'l lib_copies \<Rightarrow> ('l mDeviceAttributes, 'l) copying" where
  "DeviceAttributes_DeepCopyInto lib inn m =
     (let out = inn; out = out\<lparr>md_TypeMeta := md_TypeMeta inn\<rparr>;
          (o1, m1) = ObjectMeta_DeepCopyInto lib (md_ObjectMeta inn) m; out = out\<lparr>md_ObjectMeta := o1\<rparr>;
          (s2, m2) = DeviceAttributesSpec_DeepCopyInto lib (md_Spec inn) m1; out = out\<lparr>md_Spec := s2\<rparr>
      in (out, m2))"

definition zero_attributes :: "'l lib_copies \<Rightarrow> 'l mDeviceAttributes" where
  "zero_attributes lib = \<lparr>md_TypeMeta = ([], []), md_ObjectMeta = lib_zero lib, md_Spec = \<lparr>mas_Attributes = None\<rparr>\<rparr>"

definition DeviceAttributes_DeepCopy :: "'l lib_copies \<Rightarrow> (addr option, 'l) copying" where
  "DeviceAttributes_DeepCopy lib = copy_slice (DeviceAttributes_DeepCopyInto lib) AttributesObjects attributes_objects_in (zero_attributes lib)"

definition DeviceAttributesList_DeepCopyInto :: "'l lib_copies \<Rightarrow> ('l mDeviceAttributesList, 'l) copying" where
  "DeviceAttributesList_DeepCopyInto lib inn m =
     (let out = inn; out = out\<lparr>mdl_TypeMeta := mdl_TypeMeta inn\<rparr>;
          (l1, m1) = ListMeta_DeepCopyInto lib (mdl_ListMeta inn) m; out = out\<lparr>mdl_ListMeta := l1\<rparr>;
          (a2, m2) = copy_slice (DeviceAttributes_DeepCopyInto lib) AttributesObjects attributes_objects_in (zero_attributes lib) (mdl_Items inn) m1;
          out = out\<lparr>mdl_Items := a2\<rparr>
      in (out, m2))"

definition DeviceAttributesList_DeepCopy :: "'l lib_copies \<Rightarrow> (addr option, 'l) copying" where
  "DeviceAttributesList_DeepCopy lib = copy_slice (DeviceAttributesList_DeepCopyInto lib) AttributesLists attributes_lists_in
     \<lparr>mdl_TypeMeta = ([], []), mdl_ListMeta = lib_zero lib, mdl_Items = None\<rparr>"

definition VfConfig_DeepCopyInto :: "(VfConfig, 'l) copying" where
  "VfConfig_DeepCopyInto inn m =
     (let out = inn; out = out\<lparr>vf_APIVersion := vf_APIVersion inn, vf_Kind := vf_Kind inn\<rparr> in (out, m))"

definition VfConfig_DeepCopy :: "(addr option, 'l) copying" where
  "VfConfig_DeepCopy = copy_slice VfConfig_DeepCopyInto VfConfigs vf_configs_in \<lparr>vf_APIVersion = [], vf_Kind = [], vf_Driver = [], vf_AddVhostMount = False,
     vf_IfName = [], vf_NetAttachDefName = [], vf_NetAttachDefNamespace = []\<rparr>"

text \<open>An interface value is nil or a pointer with its type; \<^verbatim>\<open>DeepCopyObject\<close> turns a nil pointer into a nil interface.\<close>

datatype object_type = SriovResourcePolicyType | SriovResourcePolicyListType | DeviceAttributesType | DeviceAttributesListType | VfConfigType

type_synonym 'l object_copy = "addr option \<Rightarrow> 'l memory \<Rightarrow> (object_type \<times> addr option) option \<times> 'l memory"

definition as_object :: "object_type \<Rightarrow> (addr option, 'l) copying \<Rightarrow> 'l object_copy" where
  "as_object t deepCopy inn m = (let (c, m') = deepCopy inn m in if c \<noteq> None then (Some (t, c), m') else (None, m'))"

definition SriovResourcePolicy_DeepCopyObject :: "'l lib_copies \<Rightarrow> 'l object_copy" where
  "SriovResourcePolicy_DeepCopyObject lib = as_object SriovResourcePolicyType (SriovResourcePolicy_DeepCopy lib)"

definition SriovResourcePolicyList_DeepCopyObject :: "'l lib_copies \<Rightarrow> 'l object_copy" where
  "SriovResourcePolicyList_DeepCopyObject lib = as_object SriovResourcePolicyListType (SriovResourcePolicyList_DeepCopy lib)"

definition DeviceAttributes_DeepCopyObject :: "'l lib_copies \<Rightarrow> 'l object_copy" where
  "DeviceAttributes_DeepCopyObject lib = as_object DeviceAttributesType (DeviceAttributes_DeepCopy lib)"

definition DeviceAttributesList_DeepCopyObject :: "'l lib_copies \<Rightarrow> 'l object_copy" where
  "DeviceAttributesList_DeepCopyObject lib = as_object DeviceAttributesListType (DeviceAttributesList_DeepCopy lib)"

definition VfConfig_DeepCopyObject :: "'l object_copy" where
  "VfConfig_DeepCopyObject = as_object VfConfigType VfConfig_DeepCopy"

section \<open>Views\<close>

definition string_view :: "'l memory \<Rightarrow> addr option \<Rightarrow> string list option option" where
  "string_view = view_array (\<lambda>m x. Some x) strings_in"

definition string_cells :: "'l memory \<Rightarrow> addr option \<Rightarrow> addr set" where
  "string_cells = cells_array (\<lambda>m x. {}) strings_in"

definition filter_fields :: "mResourceFilter \<Rightarrow> addr option \<times> addr option \<times> addr option \<times> addr option \<times> addr option \<times> addr option" where
  "filter_fields f = (mf_Vendors f, mf_Devices f, mf_PciAddresses f, mf_PfNames f, mf_PfPciAddresses f, mf_Drivers f)"

definition filter_view where
  "filter_view = view_struct (view_pair string_view (view_pair string_view (view_pair string_view
     (view_pair string_view (view_pair string_view string_view))))) filter_fields mf_LinkType"

definition filter_cells :: "'l memory \<Rightarrow> mResourceFilter \<Rightarrow> addr set" where
  "filter_cells m f = cells_pair string_cells (cells_pair string_cells (cells_pair string_cells
     (cells_pair string_cells (cells_pair string_cells string_cells)))) m (filter_fields f)"

definition config_view where
  "config_view lv = view_struct (view_pair (view_array lv libs_in) (view_array filter_view filters_in))
     (\<lambda>c. (mc_DeviceAttributesSelector c, mc_ResourceFilters c)) (\<lambda>_. ())"

definition config_cells :: "('l memory \<Rightarrow> 'l \<Rightarrow> addr set) \<Rightarrow> 'l memory \<Rightarrow> mConfig \<Rightarrow> addr set" where
  "config_cells lc m c = cells_pair (cells_array lc libs_in) (cells_array filter_cells filters_in) m (mc_DeviceAttributesSelector c, mc_ResourceFilters c)"

definition policy_spec_view where
  "policy_spec_view lv = view_struct (view_pair (view_array lv libs_in) (view_array (config_view lv) configs_in))
     (\<lambda>c. (ms_NodeSelector c, ms_Configs c)) (\<lambda>_. ())"

definition policy_spec_cells :: "('l memory \<Rightarrow> 'l \<Rightarrow> addr set) \<Rightarrow> 'l memory \<Rightarrow> mPolicySpec \<Rightarrow> addr set" where
  "policy_spec_cells lc m c = cells_pair (cells_array lc libs_in) (cells_array (config_cells lc) configs_in) m (ms_NodeSelector c, ms_Configs c)"

definition policy_view where
  "policy_view lv = view_struct (view_pair lv (policy_spec_view lv)) (\<lambda>p. (mp_ObjectMeta p, mp_Spec p)) mp_TypeMeta"

definition policy_cells :: "('l memory \<Rightarrow> 'l \<Rightarrow> addr set) \<Rightarrow> 'l memory \<Rightarrow> 'l mPolicy \<Rightarrow> addr set" where
  "policy_cells lc m p = cells_pair lc (policy_spec_cells lc) m (mp_ObjectMeta p, mp_Spec p)"

definition policy_list_view where
  "policy_list_view lv = view_struct (view_pair lv (view_array (policy_view lv) policies_in)) (\<lambda>p. (ml_ListMeta p, ml_Items p)) ml_TypeMeta"

definition policy_list_cells :: "('l memory \<Rightarrow> 'l \<Rightarrow> addr set) \<Rightarrow> 'l memory \<Rightarrow> 'l mPolicyList \<Rightarrow> addr set" where
  "policy_list_cells lc m p = cells_pair lc (cells_array (policy_cells lc) policies_in) m (ml_ListMeta p, ml_Items p)"

text \<open>A map shows its entries, which have different keys.\<close>

definition map_view :: "('l memory \<Rightarrow> 'l \<Rightarrow> 'v option) \<Rightarrow> 'l memory \<Rightarrow> addr option \<Rightarrow> (QualifiedName \<times> 'v) list option option" where
  "map_view lv m p = Option.bind (view_array (view_pair (\<lambda>m k. Some k) lv) attribute_map_in m p)
     (\<lambda>u. if (case u of None \<Rightarrow> True | Some kvs \<Rightarrow> wf_map kvs) then Some u else None)"

definition map_cells :: "('l memory \<Rightarrow> 'l \<Rightarrow> addr set) \<Rightarrow> 'l memory \<Rightarrow> addr option \<Rightarrow> addr set" where
  "map_cells lc = cells_array (cells_pair (\<lambda>m k. {}) lc) attribute_map_in"

definition attributes_view where
  "attributes_view lv = view_struct (view_pair lv (view_struct (map_view lv) mas_Attributes (\<lambda>_. ()))) (\<lambda>p. (md_ObjectMeta p, md_Spec p)) md_TypeMeta"

definition attributes_cells :: "('l memory \<Rightarrow> 'l \<Rightarrow> addr set) \<Rightarrow> 'l memory \<Rightarrow> 'l mDeviceAttributes \<Rightarrow> addr set" where
  "attributes_cells lc m p = cells_pair lc (\<lambda>m s. map_cells lc m (mas_Attributes s)) m (md_ObjectMeta p, md_Spec p)"

definition attributes_list_view where
  "attributes_list_view lv =
     view_struct (view_pair lv (view_array (attributes_view lv) attributes_objects_in)) (\<lambda>p. (mdl_ListMeta p, mdl_Items p)) mdl_TypeMeta"

definition attributes_list_cells :: "('l memory \<Rightarrow> 'l \<Rightarrow> addr set) \<Rightarrow> 'l memory \<Rightarrow> 'l mDeviceAttributesList \<Rightarrow> addr set" where
  "attributes_list_cells lc m p = cells_pair lc (cells_array (attributes_cells lc) attributes_objects_in) m (mdl_ListMeta p, mdl_Items p)"

text \<open>What is documented of the libraries: their copies are deep.\<close>

definition lib_documented :: "'l lib_copies \<Rightarrow> ('l memory \<Rightarrow> 'l \<Rightarrow> 'v option) \<Rightarrow> ('l memory \<Rightarrow> 'l \<Rightarrow> addr set) \<Rightarrow> bool" where
  "lib_documented lib lv lc \<longleftrightarrow> copier (ObjectMeta_DeepCopyInto lib) lv lc \<and> copier (ListMeta_DeepCopyInto lib) lv lc \<and>
     copier (LabelSelector_DeepCopyInto lib) lv lc \<and> copier (NodeSelector_DeepCopyInto lib) lv lc \<and> copier (DeviceAttribute_DeepCopy lib) lv lc"

section \<open>Lemmas\<close>

lemma copier_slice:
  assumes "copier f v cs" "\<And>xs. dest (mk xs) = Some xs"
  shows "copier (copy_slice f mk dest zero) (view_array v dest) (cells_array cs dest)"
  unfolding copy_slice_def using assms by (intro copier_array) simp_all

text \<open>Copying strings is copying an array of plain values.\<close>

lemma plain_loop: "copy_loop (\<lambda>x m. (x, m)) (\<lambda>ys n. Strings (ys @ replicate n z)) (length m) ys xs (m @ [Strings (ys @ replicate (length xs) z)]) =
    m @ [Strings (ys @ xs)]"
proof (induction xs arbitrary: ys)
  case (Cons x xs)
  then show ?case using Cons.IH[of "ys @ [x]"] by simp
qed simp

lemma copy_strings_array: "copy_strings = copy_array (\<lambda>x m. (x, m)) (\<lambda>ys n. Strings (ys @ replicate n [])) strings_in"
  by (simp add: fun_eq_iff copy_strings_def copy_array_def plain_loop[where z = "[]" and ys = "[]", simplified] split: option.split)

interpretation strings: copier copy_strings string_view string_cells
  unfolding copy_strings_array string_view_def string_cells_def by (rule copier_array[OF copier_plain]) (simp add: cell_defs)

text \<open>The filters contain nothing of the libraries.\<close>

interpretation filters: copier ResourceFilter_DeepCopyInto filter_view filter_cells
  unfolding filter_view_def filter_cells_def
proof (rule copier_struct)
  note s = strings.copier_axioms
  show "copier (copy_pair copy_strings (copy_pair copy_strings (copy_pair copy_strings (copy_pair copy_strings (copy_pair copy_strings copy_strings)))))
      (view_pair string_view (view_pair string_view (view_pair string_view (view_pair string_view (view_pair string_view string_view)))))
      (cells_pair string_cells (cells_pair string_cells (cells_pair string_cells (cells_pair string_cells (cells_pair string_cells string_cells)))))"
    by (intro copier_pair s)
  show "filter_fields ((\<lambda>f (a1, a2, a3, a4, a5, a6). f\<lparr>mf_Vendors := a1, mf_Devices := a2, mf_PciAddresses := a3, mf_PfNames := a4,
      mf_PfPciAddresses := a5, mf_Drivers := a6\<rparr>) x y) = y" for x y by (cases y) (simp add: filter_fields_def)
qed (auto simp: ResourceFilter_DeepCopyInto_def copy_pair_def filter_fields_def Let_def split: prod.splits)

text \<open>A struct with two fields that hold addresses.\<close>

lemma copier_fields:
  assumes "copier f fv fc" "copier g gv gc"
    and "\<And>x m. copy x m = (let (a, m1) = f (get1 x) m; (b, m2) = g (get2 x) m1 in (put x a b, m2))"
    and "\<And>x a b. get1 (put x a b) = a" "\<And>x a b. get2 (put x a b) = b" "\<And>x a b. rest (put x a b) = rest x"
  shows "copier copy (view_struct (view_pair fv gv) (\<lambda>x. (get1 x, get2 x)) rest) (\<lambda>m x. cells_pair fc gc m (get1 x, get2 x))"
  by (rule copier_struct[OF copier_pair[OF assms(1,2)], where put = "\<lambda>x (a, b). put x a b"])
    (auto simp: assms(3-6) copy_pair_def Let_def split: prod.splits)

lemma lib_documentedD:
  assumes "lib_documented lib lv lc"
  shows "copier (ObjectMeta_DeepCopyInto lib) lv lc" "copier (ListMeta_DeepCopyInto lib) lv lc" "copier (LabelSelector_DeepCopyInto lib) lv lc"
    "copier (NodeSelector_DeepCopyInto lib) lv lc" "copier (DeviceAttribute_DeepCopy lib) lv lc"
  using assms by (simp_all add: lib_documented_def)

lemma copier_config:
  assumes "lib_documented lib lv lc" shows "copier (Config_DeepCopyInto lib) (config_view lv) (config_cells lc)"
  unfolding config_view_def config_cells_def
  by (rule copier_fields[OF copier_slice[OF lib_documentedD(3)[OF assms], where mk = Libs and zero = "lib_zero lib"]
        copier_slice[OF filters.copier_axioms, where mk = Filters and zero = zero_filter],
        where put = "\<lambda>x a b. x\<lparr>mc_DeviceAttributesSelector := a, mc_ResourceFilters := b\<rparr>"])
    (auto simp: Config_DeepCopyInto_def cell_defs Let_def split: prod.splits)

lemma copier_policy_spec:
  assumes "lib_documented lib lv lc" shows "copier (SriovResourcePolicySpec_DeepCopyInto lib) (policy_spec_view lv) (policy_spec_cells lc)"
  unfolding policy_spec_view_def policy_spec_cells_def
  by (rule copier_fields[OF copier_slice[OF lib_documentedD(4)[OF assms], where mk = Libs and zero = "lib_zero lib"]
        copier_slice[OF copier_config[OF assms], where mk = Configs and zero = zero_config],
        where put = "\<lambda>x a b. x\<lparr>ms_NodeSelector := a, ms_Configs := b\<rparr>"])
    (auto simp: SriovResourcePolicySpec_DeepCopyInto_def cell_defs Let_def split: prod.splits)

lemma copier_policy:
  assumes "lib_documented lib lv lc" shows "copier (SriovResourcePolicy_DeepCopyInto lib) (policy_view lv) (policy_cells lc)"
  unfolding policy_view_def policy_cells_def
  by (rule copier_fields[OF lib_documentedD(1)[OF assms] copier_policy_spec[OF assms], where put = "\<lambda>x a b. x\<lparr>mp_ObjectMeta := a, mp_Spec := b\<rparr>"])
    (auto simp: SriovResourcePolicy_DeepCopyInto_def Let_def split: prod.splits)

lemma copier_policy_list:
  assumes "lib_documented lib lv lc" shows "copier (SriovResourcePolicyList_DeepCopyInto lib) (policy_list_view lv) (policy_list_cells lc)"
  unfolding policy_list_view_def policy_list_cells_def
  by (rule copier_fields[OF lib_documentedD(2)[OF assms] copier_slice[OF copier_policy[OF assms], where mk = Policies and zero = "zero_policy lib"],
        where put = "\<lambda>x a b. x\<lparr>ml_ListMeta := a, ml_Items := b\<rparr>"])
    (auto simp: SriovResourcePolicyList_DeepCopyInto_def cell_defs Let_def split: prod.splits)

text \<open>The loop over the entries of a map is the loop over an array of pairs, because the keys are different.\<close>

lemma mput_new: "k \<notin> mkeys out \<Longrightarrow> mput out k v = out @ [(k, v)]"
  by (induction out) auto

lemma copy_entries_loop:
  "wf_map (out @ xs) \<Longrightarrow> copy_entries f b out xs m = copy_loop (copy_pair (\<lambda>k m. (k, m)) f) (\<lambda>ys n. AttributeMap ys) b out xs m"
proof (induction f b out xs m rule: copy_entries.induct)
  case (2 f b out key val rest m)
  obtain v m1 where v: "f val m = (v, m1)" by (metis prod.exhaust)
  have "key \<notin> mkeys out" "wf_map ((out @ [(key, v)]) @ rest)" using "2.prems" by (auto simp: wf_map_def mkeys_eq_map_fst)
  then show ?case using "2.IH"[OF v[symmetric] refl refl] by (simp add: v copy_pair_def mput_new Let_def)
qed simp

lemma copier_map:
  assumes "copier f v cs" shows "copier (copy_map f) (map_view v) (map_cells cs)"
proof -
  let ?p = "copy_pair (\<lambda>k m. (k, m)) f" and ?v = "view_pair (\<lambda>m k. Some k) v"
  have cp: "copier (copy_array ?p (\<lambda>ys n. AttributeMap ys) attribute_map_in) (view_array ?v attribute_map_in) (map_cells cs)"
    unfolding map_cells_def by (rule copier_array[OF copier_pair[OF copier_plain assms]]) (simp add: cell_defs)
  have view: "view_array ?v attribute_map_in m p = Some u \<and> (case u of None \<Rightarrow> True | Some kvs \<Rightarrow> wf_map kvs)" if "map_view v m p = Some u" for m p u
    using that by (auto simp: map_view_def bind_eq_Some_conv split: if_splits)
  have same: "copy_map f p m = copy_array ?p (\<lambda>ys n. AttributeMap ys) attribute_map_in p m" if u: "map_view v m p = Some u" for m p u
  proof (cases "Option.bind p (elements attribute_map_in m)")
    case (Some xs)
    then obtain a where a: "p = Some a" "elements attribute_map_in m a = Some xs" by (auto simp: bind_eq_Some_conv)
    obtain kvs where kvs: "u = Some kvs" "list_all2 (\<lambda>x w. ?v m x = Some w) xs kvs" using view[OF u] a by (auto simp: view_array_Some)
    have "map fst xs = map fst kvs" using kvs(2) by (induction rule: list_all2_induct) (auto simp: view_pair_Some)
    then have "wf_map xs" using view[OF u] kvs(1) by (simp add: wf_map_def)
    then show ?thesis using Some by (simp add: copy_map_def copy_array_def copy_entries_loop)
  qed (simp add: copy_map_def copy_array_def)
  show ?thesis
  proof unfold_locales
    fix m p u q m' assume u: "map_view v m p = Some u" and run: "copy_map f p m = (q, m')"
    have "copy_array ?p (\<lambda>ys n. AttributeMap ys) attribute_map_in p m = (q, m')" using run same[OF u] by simp
    note c = copier.copies[OF cp conjunct1[OF view[OF u]] this]
    show "(\<exists>new. m' = m @ new) \<and> map_view v m' q = Some u \<and> map_cells cs m' q \<subseteq> {length m..<length m'}"
      using c view[OF u] by (simp add: map_view_def split: option.splits)
  next
    fix m p u m' assume u: "map_view v m p = Some u" and same: "\<forall>i \<in> map_cells cs m p. i < length m' \<and> m' ! i = m ! i"
    note l = copier.local_view[OF cp conjunct1[OF view[OF u]] same]
    show "map_view v m' p = Some u \<and> map_cells cs m' p = map_cells cs m p"
      using l view[OF u] unfolding map_view_def by (simp del: not_None_eq split: option.splits)
  next
    fix m p u assume u: "map_view v m p = Some u"
    show "map_cells cs m p \<subseteq> {..<length m}" by (rule copier.bounded[OF cp conjunct1[OF view[OF u]]])
  qed
qed

lemma copier_attributes:
  assumes "lib_documented lib lv lc" shows "copier (DeviceAttributes_DeepCopyInto lib) (attributes_view lv) (attributes_cells lc)"
  unfolding attributes_view_def attributes_cells_def
proof (rule copier_fields[OF lib_documentedD(1)[OF assms], where put = "\<lambda>x a b. x\<lparr>md_ObjectMeta := a, md_Spec := b\<rparr>"])
  show "copier (DeviceAttributesSpec_DeepCopyInto lib) (view_struct (map_view lv) mas_Attributes (\<lambda>_. ())) (\<lambda>m s. map_cells lc m (mas_Attributes s))"
    by (rule copier_struct[OF copier_map[OF lib_documentedD(5)[OF assms]], where put = "\<lambda>x a. x\<lparr>mas_Attributes := a\<rparr>"])
      (auto simp: DeviceAttributesSpec_DeepCopyInto_def Let_def split: prod.splits)
qed (auto simp: DeviceAttributes_DeepCopyInto_def Let_def split: prod.splits)

lemma copier_attributes_list:
  assumes "lib_documented lib lv lc" shows "copier (DeviceAttributesList_DeepCopyInto lib) (attributes_list_view lv) (attributes_list_cells lc)"
  unfolding attributes_list_view_def attributes_list_cells_def
  by (rule copier_fields[OF lib_documentedD(2)[OF assms]
        copier_slice[OF copier_attributes[OF assms], where mk = AttributesObjects and zero = "zero_attributes lib"],
        where put = "\<lambda>x a b. x\<lparr>mdl_ListMeta := a, mdl_Items := b\<rparr>"])
    (auto simp: DeviceAttributesList_DeepCopyInto_def cell_defs Let_def split: prod.splits)

lemma VfConfig_copy_plain: "VfConfig_DeepCopyInto = (\<lambda>x m. (x, m))"
  by (simp add: fun_eq_iff VfConfig_DeepCopyInto_def)

interpretation vf_configs: copier VfConfig_DeepCopy "view_array (\<lambda>m x. Some x) vf_configs_in" "cells_array (\<lambda>m x. {}) vf_configs_in"
  unfolding VfConfig_DeepCopy_def VfConfig_copy_plain by (rule copier_slice[OF copier_plain]) (simp add: cell_defs)

section \<open>Properties\<close>

text \<open>C23. A deep copy of a list of policies or of device attributes, as the client's cache makes it, is equal to its original and apart from it: the
  original keeps its value, nil slices, pointers and maps stay nil, no cell belongs to both, and a write to any cell outside an object, so in
  particular to a cell of its copy, does not change what the object shows. So a caller that changes the copy does not change the cache. As an
  object of the client library the copy of a nil pointer is a nil interface and not an interface with a nil pointer in it.\<close>

theorem deep_copies_independent:
  assumes "lib_documented lib lv lc"
    and "view_array (policy_list_view lv) policy_lists_in m p = Some v" "SriovResourcePolicyList_DeepCopy lib p m = (q, m1)"
    and "view_array (attributes_list_view lv) attributes_lists_in m d = Some u" "DeviceAttributesList_DeepCopy lib d m = (e, m2)"
  shows "(\<forall>x \<in> {p, q}. \<forall>i c. view_array (policy_list_view lv) policy_lists_in m1 x = Some v \<and>
      (i \<notin> cells_array (policy_list_cells lc) policy_lists_in m1 x \<longrightarrow> view_array (policy_list_view lv) policy_lists_in (m1[i := c]) x = Some v)) \<and>
    cells_array (policy_list_cells lc) policy_lists_in m1 p \<inter> cells_array (policy_list_cells lc) policy_lists_in m1 q = {} \<and>
    (\<forall>x \<in> {d, e}. \<forall>i c. view_array (attributes_list_view lv) attributes_lists_in m2 x = Some u \<and>
      (i \<notin> cells_array (attributes_list_cells lc) attributes_lists_in m2 x \<longrightarrow>
        view_array (attributes_list_view lv) attributes_lists_in (m2[i := c]) x = Some u)) \<and>
    cells_array (attributes_list_cells lc) attributes_lists_in m2 d \<inter> cells_array (attributes_list_cells lc) attributes_lists_in m2 e = {} \<and>
    SriovResourcePolicyList_DeepCopyObject lib p m = ((if p = None then None else Some (SriovResourcePolicyListType, q)), m1) \<and>
    DeviceAttributesList_DeepCopyObject lib d m = ((if d = None then None else Some (DeviceAttributesListType, e)), m2)"
proof -
  have pl: "copier (SriovResourcePolicyList_DeepCopy lib) (view_array (policy_list_view lv) policy_lists_in) (cells_array (policy_list_cells lc) policy_lists_in)"
    unfolding SriovResourcePolicyList_DeepCopy_def by (rule copier_slice[OF copier_policy_list[OF assms(1)]]) (simp add: cell_defs)
  have dl: "copier (DeviceAttributesList_DeepCopy lib) (view_array (attributes_list_view lv) attributes_lists_in)
      (cells_array (attributes_list_cells lc) attributes_lists_in)"
    unfolding DeviceAttributesList_DeepCopy_def by (rule copier_slice[OF copier_attributes_list[OF assms(1)]]) (simp add: cell_defs)
  have nil: "fst (copy_slice f mk dest zero x m) = None \<longleftrightarrow> x = None" if "view_array fv dest m x = Some y" for f mk dest zero x fv y
    using that by (cases x) (auto simp: copy_slice_def copy_array_def view_array_Some)
  have o: "q = None \<longleftrightarrow> p = None" "e = None \<longleftrightarrow> d = None"
    using nil[OF assms(2)] nil[OF assms(4)] assms(3,5) unfolding SriovResourcePolicyList_DeepCopy_def DeviceAttributesList_DeepCopy_def by (metis fst_conv)+
  show ?thesis
    using copier.independent[OF pl assms(2,3)] copier.independent[OF dl assms(4,5)] o assms(3,5)
    by (auto simp: SriovResourcePolicyList_DeepCopyObject_def DeviceAttributesList_DeepCopyObject_def as_object_def)
qed

section \<open>Witness\<close>

text \<open>A list with one policy, which selects a vendor, and a list with one object of attributes; the structs of the libraries are strings.\<close>

definition plain_lib :: "string lib_copies" where
  "plain_lib = \<lparr>lib_zero = [], ObjectMeta_DeepCopyInto = (\<lambda>x m. (x, m)), ListMeta_DeepCopyInto = (\<lambda>x m. (x, m)),
     LabelSelector_DeepCopyInto = (\<lambda>x m. (x, m)), NodeSelector_DeepCopyInto = (\<lambda>x m. (x, m)), DeviceAttribute_DeepCopy = (\<lambda>x m. (x, m))\<rparr>"

definition example_memory :: "string memory" where
  "example_memory = [Strings [''8086''], Filters [zero_filter\<lparr>mf_Vendors := Some 0\<rparr>], Configs [zero_config\<lparr>mc_ResourceFilters := Some 1\<rparr>],
     Policies [(zero_policy plain_lib)\<lparr>mp_ObjectMeta := ''policy'', mp_Spec := zero_policy_spec\<lparr>ms_Configs := Some 2\<rparr>\<rparr>],
     PolicyLists [(zero_policy_list plain_lib)\<lparr>ml_Items := Some 3\<rparr>],
     AttributeMap [(AttributeResourceName, ''vf'')], AttributesObjects [(zero_attributes plain_lib)\<lparr>md_Spec := \<lparr>mas_Attributes = Some 5\<rparr>\<rparr>],
     AttributesLists [\<lparr>mdl_TypeMeta = ([], []), mdl_ListMeta = [], mdl_Items = Some 6\<rparr>]]"

abbreviation plain_view :: "string memory \<Rightarrow> string \<Rightarrow> string option" where
  "plain_view \<equiv> \<lambda>m x. Some x"

abbreviation plain_cells :: "string memory \<Rightarrow> string \<Rightarrow> addr set" where
  "plain_cells \<equiv> \<lambda>m x. {}"

lemma example_copies:
  "view_array (policy_list_view plain_view) policy_lists_in example_memory (Some 4) \<noteq> None"
  "view_array (attributes_list_view plain_view) attributes_lists_in example_memory (Some 7) \<noteq> None"
  "fst (SriovResourcePolicyList_DeepCopy plain_lib (Some 4) example_memory) = Some 8"
  "snd (SriovResourcePolicyList_DeepCopy plain_lib (Some 4) example_memory) ! 12 = Strings [''8086'']"
  "12 \<notin> cells_array (policy_list_cells plain_cells) policy_lists_in (snd (SriovResourcePolicyList_DeepCopy plain_lib (Some 4) example_memory)) (Some 4)"
  by code_simp+

theorem deep_copies_independent_witness:
  "\<exists>m v. SriovResourcePolicyList_DeepCopy plain_lib (Some 4) example_memory = (Some 8, m) \<and> m ! 12 = Strings [''8086''] \<and>
     view_array (policy_list_view plain_view) policy_lists_in m (Some 4) = Some v \<and> view_array (policy_list_view plain_view) policy_lists_in m (Some 8) = Some v \<and>
     view_array (policy_list_view plain_view) policy_lists_in (m[12 := Strings []]) (Some 4) = Some v"
proof -
  have lib: "lib_documented plain_lib plain_view plain_cells" by (simp add: lib_documented_def plain_lib_def copier_plain)
  obtain v u where v: "view_array (policy_list_view plain_view) policy_lists_in example_memory (Some 4) = Some v"
    and u: "view_array (attributes_list_view plain_view) attributes_lists_in example_memory (Some 7) = Some u" using example_copies(1,2) by blast
  obtain m where m: "SriovResourcePolicyList_DeepCopy plain_lib (Some 4) example_memory = (Some 8, m)" using example_copies(3) by (metis prod.collapse)
  obtain e m2 where e: "DeviceAttributesList_DeepCopy plain_lib (Some 7) example_memory = (e, m2)" by (metis prod.exhaust)
  have "12 \<notin> cells_array (policy_list_cells plain_cells) policy_lists_in m (Some 4)" "m ! 12 = Strings [''8086'']" using example_copies(4,5) by (simp_all add: m)
  with deep_copies_independent[OF lib v m u e] m show ?thesis by blast
qed

end
