(* ===== verification/Spec2Isabelle.thy ===== *)
theory Spec2Isabelle
  imports OpaqueConfig AttributeTypes NodeRecovery NriChannel HostProviders CommandLine DeepCopy
begin

text \<open>
  A verification of the SR-IOV driver for Kubernetes dynamic resource allocation. The driver runs on every node. It
  discovers the virtual functions of the network cards, advertises those that a cluster administrator's policies
  select, binds and configures the functions that the scheduler allocated to a pod's resource claims, and attaches them
  to the pod's network.

  \<^bold>\<open>Parts and their interaction.\<close> \<^verbatim>\<open>cmd/dra-driver-sriov/main.go\<close> makes and starts the parts. The device manager
  (\<^verbatim>\<open>pkg/devicestate\<close>) holds the discovered devices. The resource policy controller (\<^verbatim>\<open>pkg/controller\<close>) reads
  policies and tells the manager which devices to advertise with which attributes; on a change the manager calls back
  into the driver, which publishes the devices (\<^verbatim>\<open>pkg/driver/driver.go\<close>). The kubelet calls the driver to prepare and
  unprepare claims (\<^verbatim>\<open>pkg/driver/dra_hook.go\<close>); the driver has the manager bind drivers through the host helpers
  (\<^verbatim>\<open>pkg/host\<close>) and write CDI files (\<^verbatim>\<open>pkg/cdi\<close>), keeps the result in the pod manager (\<^verbatim>\<open>pkg/podmanager\<close>), which
  checkpoints it, and writes the claim's status (\<^verbatim>\<open>pkg/types\<close>). When the pod's sandbox starts, the NRI plugin
  (\<^verbatim>\<open>pkg/nri\<close>) attaches the devices with CNI (\<^verbatim>\<open>pkg/cni\<close>) and hands the network data over a channel to a goroutine
  that stores it and updates the status of the claims.

  \<^bold>\<open>Conventions.\<close> The theory \<open>Prelude\<close> has them: a call that can fail returns \<open>res\<close> (\<open>Ok\<close>, \<open>Err\<close> or \<open>Panic\<close>), a call that
  acts on the outside threads a world of type \<open>'w\<close>, a Go map is an association list with distinct keys whose order
  stands for the iteration order, and a Go map that a function both builds and ranges over is visited in an order that
  an argument gives (\<open>visits_all\<close>). Libraries, the kernel, the API server and the kubelet are records of functions that
  the definitions take as arguments; what the code relies on of them are named predicates such as
  \<open>checkpointing_documented\<close>, \<open>sysfs_documented\<close>, \<open>client_documented\<close> or \<open>backoff_run\<close>, and each theorem that assumes one has a witness in
  which a concrete instance satisfies it.

  \<^bold>\<open>Theories.\<close>
    \<^item> \<open>Prelude\<close>: results, Go maps, strings, numbers and paths of the Go library, with their lemmas, and two locales for step
      relations: \<open>machine\<close> (what every step keeps, every run keeps) and \<open>progress\<close> (a run reaches a goal that steps come closer to).
    \<^item> \<open>Api\<close>: \<^verbatim>\<open>pkg/consts\<close>, the API types of \<^verbatim>\<open>pkg/api\<close>, the shared types of \<^verbatim>\<open>pkg/types/types.go\<close>.
    \<^item> \<open>Copying\<close>, \<open>DeepCopy\<close>: the deep copies of the API types, \<^verbatim>\<open>zz_generated.deepcopy.go\<close>, over a memory of cells. The locale \<open>copier\<close> is
      the contract of a deep copy, which the combinators for structs, slices and maps keep: a copy is equal to its original and
      shares no memory with it.
    \<^item> \<open>ClaimStatus\<close>, \<open>StatusRetry\<close>: \<^verbatim>\<open>pkg/types/claimstatus.go\<close> and \<^verbatim>\<open>statusretry.go\<close>. Merging refines an update of a
      map from keys to statuses (locale \<open>keyed_upsert\<close>), and the retry loop loses no write of another driver: for every client that behaves as
      an API server with optimistic concurrency does (\<open>client_documented\<close>), seen through the history of the versions it stored.
    \<^item> \<open>OpaqueConfig\<close>: \<^verbatim>\<open>pkg/devicestate/statehelpers.go\<close>. The precedence of configurations and their errors.
    \<^item> \<open>PolicyState\<close>: the policy part of \<^verbatim>\<open>pkg/devicestate/state.go\<close>. The invariant \<open>manager_inv\<close>, and that an update
      refines its specification: discovery attributes overlaid with those of the matched policies.
    \<^item> \<open>Controller\<close>: \<^verbatim>\<open>pkg/controller/resourcepolicycontroller.go\<close>. Matching, reconciling, events; the locale
      \<open>device_state\<close> is the contract of the manager that reconciling relies on.
    \<^item> \<open>Host\<close>, \<open>DriverBinding\<close>: \<^verbatim>\<open>pkg/host/host.go\<close>, and binding and restoring drivers under what the kernel documents
      of its sysfs files (\<open>sysfs_documented\<close>), which a simulated kernel satisfies.
    \<^item> \<open>HostProviders\<close>: the struct \<^verbatim>\<open>Host\<close> with its providers and the global instance that all callers share.
    \<^item> \<open>Discovery\<close>: \<^verbatim>\<open>pkg/devicestate/discovery.go\<close> and the manager's constructor, which establishes \<open>manager_inv\<close>.
    \<^item> \<open>DeviceInfo\<close>, \<open>Cdi\<close>, \<open>Prepare\<close>: \<^verbatim>\<open>deviceinfo.go\<close>, \<^verbatim>\<open>pkg/cdi/cdi.go\<close> and the prepare part of \<^verbatim>\<open>state.go\<close>.
    \<^item> \<open>ClaimLifecycle\<close>: the properties of preparing and unpreparing a claim: a failed prepare restores the drivers, an
      unprepare undoes a prepare, what is reported, and which interface names are handed out.
    \<^item> \<open>PodManager\<close>: \<^verbatim>\<open>pkg/podmanager/podmanager.go\<close> over a heap of devices, because the Go code shares pointers. It refines
      a map from pods and claims to devices, a restart recovers it from the checkpoint, and a checkpoint that was written passes its own
      verification when maps are encoded in the order of their keys (\<open>json_documented\<close>).
    \<^item> \<open>Driver\<close>: \<^verbatim>\<open>pkg/driver/dra_hook.go\<close>. The locale \<open>claim_store\<close> is the contract of the store, which the pod manager
      meets; the properties of the kubelet's calls are proved from it.
    \<^item> \<open>Cni\<close>: \<^verbatim>\<open>pkg/cni\<close>. Detaching mirrors attaching, the translation of results, and how often and until when a plugin binary is run.
    \<^item> \<open>Nri\<close>: \<^verbatim>\<open>pkg/nri/nri.go\<close>. Sandbox hooks, request metadata, and the update of a claim's status by an index. The locale
      \<open>network_runtime\<close> is the contract of a CNI runtime, which the runtime of \<open>Cni\<close> meets.
    \<^item> \<open>NetworkData\<close>: what one round of the goroutine stores and which versions of claims it writes to the API server.
    \<^item> \<open>NriChannel\<close>: hooks, channel, goroutine, \<^verbatim>\<open>Stop\<close> and kubelet calls as a step relation \<open>nri_step\<close>, its invariant and
      its progress; the channel meets the locale \<open>bounded_queue\<close>.
    \<^item> \<open>Startup\<close>: \<^verbatim>\<open>pkg/driver/driver.go\<close>, \<^verbatim>\<open>health.go\<close>, \<^verbatim>\<open>pkg/flags/kubeclient.go\<close> and \<^verbatim>\<open>main.go\<close>. The state after
      start-up and what start-up publishes (a log, \<open>startup_documented\<close>), the wait for the registration, and what a reconcile publishes.
    \<^item> \<open>CommandLine\<close>: the flags of \<^verbatim>\<open>main.go\<close>, \<^verbatim>\<open>pkg/flags/kubeclient.go\<close> and \<^verbatim>\<open>pkg/flags/logging.go\<close>; no two flags share a name, an
      environment variable or a destination.
    \<^item> \<open>AttributeTypes\<close>: a type system for device attributes. Whatever policies and objects are reconciled, the reserved attributes that the
      code dereferences have the value it expects, and all others are values of the objects that were read.
    \<^item> \<open>WorldFrame\<close>: what the operations on devices leave alone in the world, from what the calls to the outside leave alone.
    \<^item> \<open>NodeMachine\<close>: pod manager, device manager and world of a node as one step relation \<open>node_step\<close>, with the kubelet's
      calls per claim, reconciles, single writes of network data, restarts and everything else on the node as steps, and the
      invariant \<open>node_inv\<close>: the claims in memory and those in the checkpoint file account for every foreign binding.
    \<^item> \<open>NodeLifecycle\<close>: the effects of the handlers are those of runs of this machine, no run leaves a device on a foreign driver (under the
      assumptions below), and how a second claim of a pod escapes this.
    \<^item> \<open>NodeRecovery\<close>: from every state the machine reaches, a call of the kubelet can empty the store and restore all drivers once the
      files and services around the driver work (\<open>serviceable\<close>). Runs keep the stored devices free of nil pointers, which clean-up in
      MULTUS mode needs, and every successful unprepare leaves fewer pods with claims (locale \<open>progress\<close>).

  \<^bold>\<open>Bounds.\<close> The retry loop runs its condition at most \<open>BackoffSteps\<close> = 5 times, as \<^verbatim>\<open>consts.Backoff\<close> sets, while other drivers may
  write any number of times. A plugin binary is run at most 11 times, the loop bound of the source. The
  channel has the source's capacity of 100. No definition uses fuel of its own: loops recurse over lists or over these
  counts, and the registration loop, which ends only by an event, is a partial function that is shown to return.

  \<^bold>\<open>Atomicity.\<close> Every operation of the pod manager holds its mutex from start to end, so it is one step. The device
  manager has no lock: its operations are modelled as if they did not overlap, and what happens when the controller
  changes the maps of the manager while the kubelet prepares a claim is outside the model. A sandbox hook and a round of
  the goroutine are one step each in \<open>nri_step\<close>, although the code lets kubelet calls run between their store operations;
  the lists a hook hands over are pointers, so the data they lead to is read when it is used. In \<open>node_step\<close> every write of network
  data is a step of its own, so there a round of the goroutine does interleave with the kubelet's calls and with restarts.

  \<^bold>\<open>Assumptions of the node machine.\<close> \<open>node_documented\<close> collects what is documented of the kernel, the checkpoint library, the
  API server and the republish callback. The other conditions are not documented anywhere, and the theorems about the node hold under them only.
  \<open>bound_at_setup\<close>, and \<open>vf_hardware\<close> for the devices of the manager: every virtual function had a driver when the node was set
  up (one without gets the kernel's default driver when it is restored). \<open>admissible\<close> is what the scheduler and the kubelet promise of a claim: distinct
  devices, valid configurations, and devices that no other claim holds; it also asks for one claim of this driver per pod, which
  nothing promises: \<open>second_claim_leaks\<close> shows what happens otherwise. A prepare that reports that a bind, a restore or a clean-up failed
  (\<open>undamaged_result\<close>) is excluded: such a device may be left without a driver (theorem \<open>failed_bind_leaves_unbound\<close> of
  \<open>DriverBinding\<close>). Nothing but the driver binds devices (the step \<open>other\<close>). Recovery also needs that the drivers at set-up are not DPDK drivers (\<open>serviceable\<close>).

  \<^bold>\<open>Not modelled.\<close> Log messages; the generated mocks; the fake file system of the tests in \<^verbatim>\<open>pkg/host/testing.go\<close>; scheme
  registration; signals and the parsing of the command line, of which the flags and their defaults are modelled.
\<close>

end
